(* ===== verification/Modbus_Prelude.thy ===== *)
theory Modbus_Prelude
  imports Main "HOL-Library.Word" "HOL-Library.Monad_Syntax" "HOL-Library.Signed_Division"
begin

text \<open>
  The prelude: what the C++ language and its standard library give the modbus sources, and the
  generic lemmas the component theories share.

  \<^item> Fixed-width integers are words (\<open>uint8\<close>, \<open>uint16\<close>); C++ \<open>int\<close> is \<^typ>\<open>int\<close> with the
    32-bit range written out where an overflow would be undefined (\<open>int_ok\<close>).
  \<^item> \<open>buffer_t\<close>, the \<open>std::vector<uint8_t>\<close> of core/types.hpp, is a list of bytes.
  \<^item> \<open>std::vector::at\<close> throws \<open>std::out_of_range\<close>: \<open>vec_at\<close> returns \<open>Inl out_of_range\<close>.
  \<^item> \<open>operator[]\<close> and iterators are unchecked: \<open>vec_get\<close>, \<open>vec_set\<close> are \<^const>\<open>None\<close> where the
    C++ access has undefined behaviour, and \<open>ub\<close> turns that into \<open>Inl undefined_behaviour\<close>.
  \<^item> \<open>for_up\<close> is the loop \<open>for (int i = a; i < n; i++)\<close>.
  \<^item> \<open>run_all\<close> is a sequence of events on a state machine, \<open>trace_of\<close> what its steps put out; the locales
    \<open>transition_system\<close> and \<open>trace_simulation\<close> are invariants and simulations of such machines.
\<close>

unbundle bit_operations_syntax

subsection \<open>Types\<close>

type_synonym uint8 = "8 word"
type_synonym uint16 = "16 word"
type_synonym uint32 = "32 word"
type_synonym size_t = "64 word"
type_synonym buffer_t = "uint8 list"

text \<open>What a C++ call can end in besides a value: a thrown exception of the standard library, or
  undefined behaviour (an unchecked access outside a vector, a signed overflow, a bad shift).\<close>

datatype cpp_error =
    out_of_range
  | invalid_argument
  | length_error
  | undefined_behaviour

type_synonym 'a result = "cpp_error + 'a"

subsection \<open>Results and vectors\<close>

definition res_bind :: "'a result \<Rightarrow> ('a \<Rightarrow> 'b result) \<Rightarrow> 'b result" where
  "res_bind m f = (case m of Inl e \<Rightarrow> Inl e | Inr x \<Rightarrow> f x)"

definition ub :: "'a option \<Rightarrow> 'a result" where
  "ub m = (case m of None \<Rightarrow> Inl undefined_behaviour | Some x \<Rightarrow> Inr x)"

definition vec_at :: "'a list \<Rightarrow> nat \<Rightarrow> 'a result" where
  "vec_at xs i = (if i < length xs then Inr (xs ! i) else Inl out_of_range)"

definition vec_get :: "'a list \<Rightarrow> nat \<Rightarrow> 'a option" where
  "vec_get xs i = (if i < length xs then Some (xs ! i) else None)"

definition vec_set :: "'a list \<Rightarrow> nat \<Rightarrow> 'a \<Rightarrow> 'a list option" where
  "vec_set xs i v = (if i < length xs then Some (xs[i := v]) else None)"

definition vec_resize :: "'a::zero list \<Rightarrow> nat \<Rightarrow> 'a list" where
  "vec_resize xs n = take n xs @ replicate (n - length xs) 0"

function for_up :: "nat \<Rightarrow> nat \<Rightarrow> (nat \<Rightarrow> 's \<Rightarrow> 's option) \<Rightarrow> 's \<Rightarrow> 's option" where
  "for_up i n body s = (if i < n then body i s \<bind> for_up (Suc i) n body else Some s)"
  by pat_completeness auto
termination
  by (relation "measure (\<lambda>(i, n, body, s). n - i)") auto

text \<open>The vector after a loop has stored \<open>g k\<close> at every index \<open>k\<close> of \<open>i..<j\<close>.\<close>

definition upd_range :: "(nat \<Rightarrow> 'a) \<Rightarrow> nat \<Rightarrow> nat \<Rightarrow> 'a list \<Rightarrow> 'a list" where
  "upd_range g i j xs = map (\<lambda>k. if i \<le> k \<and> k < j then g k else xs ! k) [0..<length xs]"

definition int_ok :: "int \<Rightarrow> bool" where
  "int_ok x \<longleftrightarrow> - 2147483648 \<le> x \<and> x \<le> 2147483647"

subsection \<open>Bytes of a 16-bit word, big endian\<close>

text \<open>The two halves as the sources write them (\<open>x >> 8\<close> and \<open>x & 0x00FF\<close> stored in a
  \<open>uint8_t\<close>), and the value read back (\<open>v = hi << 8; v += lo\<close> in a \<open>uint16_t\<close>).\<close>

definition hi8 :: "uint16 \<Rightarrow> uint8" where
  "hi8 w = ucast (drop_bit 8 w)"

definition lo8 :: "uint16 \<Rightarrow> uint8" where
  "lo8 w = ucast (w AND 0x00FF)"

definition be16 :: "uint8 \<Rightarrow> uint8 \<Rightarrow> uint16" where
  "be16 h l = push_bit 8 (ucast h) + ucast l"

text \<open>Wire images of words: two bytes each, most significant first; and the words read back.\<close>

definition enc_u16 :: "uint16 \<Rightarrow> uint8 list" where
  "enc_u16 w = [hi8 w, lo8 w]"

definition enc_words :: "uint16 list \<Rightarrow> uint8 list" where
  "enc_words ws = concat (map enc_u16 ws)"

fun dec_words :: "uint8 list \<Rightarrow> uint16 list" where
  "dec_words (h # l # bs) = be16 h l # dec_words bs"
| "dec_words bs = []"

subsection \<open>Numbers in decimal\<close>

fun show_nat :: "nat \<Rightarrow> string" where
  "show_nat n = (if n < 10 then [char_of (48 + n)] else show_nat (n div 10) @ [char_of (48 + n mod 10)])"

subsection \<open>Bits of a buffer\<close>

text \<open>A buffer seen as the bit array it stores: bit \<open>k\<close> is bit \<open>k mod 8\<close> of byte \<open>k div 8\<close>.
  This is the abstract view of coils and discrete inputs.\<close>

definition get_bit :: "buffer_t \<Rightarrow> nat \<Rightarrow> bool" where
  "get_bit b k \<longleftrightarrow> k < 8 * length b \<and> bit (b ! (k div 8)) (k mod 8)"

subsection \<open>Collections\<close>

named_theorems vec_simps \<open>rewriting of vector accesses and results\<close>
named_theorems wire_simps \<open>evaluation of serialisers and parsers\<close>

declare vec_at_def [vec_simps] vec_get_def [vec_simps] vec_set_def [vec_simps]
  res_bind_def [vec_simps] ub_def [vec_simps]

declare for_up.simps [simp del] show_nat.simps [simp del]

subsection \<open>Generic lemmas\<close>

lemma for_up_ge [simp]: "n \<le> i \<Longrightarrow> for_up i n body s = Some s"
  by (simp add: for_up.simps [of i])

lemma for_up_less: "i < n \<Longrightarrow> for_up i n body s = body i s \<bind> for_up (Suc i) n body"
  by (simp add: for_up.simps [of i])

text \<open>Total correctness of a counted loop: every pass succeeds and keeps the invariant.\<close>

lemma for_up_rule:
  assumes "P i s" and "i \<le> n"
    and step: "\<And>j t. i \<le> j \<Longrightarrow> j < n \<Longrightarrow> P j t \<Longrightarrow> \<exists>t'. body j t = Some t' \<and> P (Suc j) t'"
  shows "\<exists>t. for_up i n body s = Some t \<and> P n t"
  using assms
proof (induction "n - i" arbitrary: i s)
  case 0
  then show ?case by (auto simp: for_up.simps [of i])
next
  case (Suc d)
  then have "i < n" by simp
  then obtain t where t: "body i s = Some t" "P (Suc i) t"
    using Suc.prems(1) Suc.prems(3) [of i s] by auto
  moreover have "\<exists>u. for_up (Suc i) n body t = Some u \<and> P n u"
    using Suc.hyps(2) t(2) \<open>i < n\<close> Suc.prems(3) by (intro Suc.hyps(1)) auto
  ultimately show ?case using \<open>i < n\<close> by (simp add: for_up_less)
qed

text \<open>A loop whose pass \<open>j\<close> fails in every state it can reach fails.\<close>

lemma for_up_fails:
  assumes "P s" and "i \<le> j" "j < n"
    and keep: "\<And>k t t'. k < j \<Longrightarrow> P t \<Longrightarrow> body k t = Some t' \<Longrightarrow> P t'"
    and fail: "\<And>t. P t \<Longrightarrow> body j t = None"
  shows "for_up i n body s = None"
  using assms(1-3)
proof (induction "j - i" arbitrary: i s)
  case 0
  then have "i = j" by simp
  with 0 show ?case by (simp add: for_up_less fail [of s])
next
  case (Suc d)
  then have "i < j" by simp
  with Suc.hyps(1) [of "Suc i"] Suc.hyps(2) Suc.prems keep [of i s] show ?case
    by (cases "body i s") (auto simp: for_up_less)
qed

lemma case_option_trueE:
  assumes "case m of None \<Rightarrow> False | Some x \<Rightarrow> P x"
  obtains x where "m = Some x" "P x"
  using assms by (cases m) auto

lemma unat_byte [simp]: "unat (x :: uint8) < 256"
  using unsigned_less [of x, where ?'a = nat] by simp

lemma unat_uint16: "unat (x :: uint16) \<le> 65535"
  using unsigned_less [of x, where ?'a = nat] by simp

lemma bit_byte [dest]: "bit (x :: uint8) n \<Longrightarrow> n < 8"
  by (auto dest: bit_imp_le_length)

lemma byte_mask: "(0x00FF :: uint16) = mask 8"
  by (simp add: mask_eq_exp_minus_1)

lemma be16_or: "be16 h l = push_bit 8 (ucast h) OR ucast l"
  unfolding be16_def by (rule disjunctive_add) (auto simp: bit_simps)

lemma be16_hi_lo [simp]: "be16 (hi8 w) (lo8 w) = w"
  unfolding be16_or hi8_def lo8_def byte_mask
  by (rule bit_word_eqI) (auto simp: bit_simps)

lemma hi8_be16 [simp]: "hi8 (be16 h l) = h"
  unfolding be16_or hi8_def by (rule bit_word_eqI) (auto simp: bit_simps)

lemma lo8_be16 [simp]: "lo8 (be16 h l) = l"
  unfolding be16_or lo8_def byte_mask by (rule bit_word_eqI) (auto simp: bit_simps)

lemma hi_lo_inject: "hi8 v = hi8 w \<Longrightarrow> lo8 v = lo8 w \<Longrightarrow> v = w"
  by (metis be16_hi_lo)

lemma unat_be16: "unat (be16 h l) = 256 * unat h + unat l"
proof -
  have "256 * unat h + unat l < 65536"
    using unat_byte [of h] unat_byte [of l] by linarith
  then show ?thesis
    by (simp add: be16_def unat_word_ariths push_bit_eq_mult unsigned_ucast_eq take_bit_eq_mod)
qed

lemma unat_hi8: "unat (hi8 w) = unat w div 256"
  using unsigned_less [of w, where ?'a = nat]
  by (simp add: hi8_def unsigned_ucast_eq take_bit_eq_mod unat_drop_bit_eq drop_bit_eq_div
      unat_div_distrib)

lemma unat_lo8: "unat (lo8 w) = unat w mod 256"
  by (simp add: lo8_def byte_mask unsigned_ucast_eq take_bit_eq_mod unat_mod_distrib
      flip: take_bit_eq_mask)

lemma vec_get_in [simp]: "i < length xs \<Longrightarrow> vec_get xs i = Some (xs ! i)"
  by (simp add: vec_get_def)

lemma vec_set_in [simp]: "i < length xs \<Longrightarrow> vec_set xs i v = Some (xs[i := v])"
  by (simp add: vec_set_def)

lemma ub_simps [simp]: "ub (Some x) = Inr x" "ub None = Inl undefined_behaviour"
  by (simp_all add: ub_def)

lemma length_upd_range [simp]: "length (upd_range g i j xs) = length xs"
  by (simp add: upd_range_def)

lemma nth_upd_range [simp]:
  "k < length xs \<Longrightarrow> upd_range g i j xs ! k = (if i \<le> k \<and> k < j then g k else xs ! k)"
  by (simp add: upd_range_def)

lemma upd_range_empty [simp]: "j \<le> i \<Longrightarrow> upd_range g i j xs = xs"
  by (rule nth_equalityI) auto

lemma upd_range_Suc: "i \<le> j \<Longrightarrow> (upd_range g i j xs)[j := g j] = upd_range g i (Suc j) xs"
  by (rule nth_equalityI) (auto simp: nth_list_update less_Suc_eq)

lemma for_up_update:
  assumes step: "\<And>j. a \<le> j \<Longrightarrow> j < n \<Longrightarrow>
      body j (upd_range g (off + a) (off + j) xs)
        = Some ((upd_range g (off + a) (off + j) xs)[off + j := g (off + j)])"
    and "a \<le> n"
  shows "for_up a n body xs = Some (upd_range g (off + a) (off + n) xs)"
proof -
  have "\<exists>t. for_up a n body xs = Some t \<and> t = upd_range g (off + a) (off + n) xs"
  proof (rule for_up_rule)
    show "xs = upd_range g (off + a) (off + a) xs" by simp
  next
    fix j t assume "a \<le> j" "j < n" "t = upd_range g (off + a) (off + j) xs"
    with step [of j] show "\<exists>t'. body j t = Some t' \<and> t' = upd_range g (off + a) (off + Suc j) xs"
      by (simp add: upd_range_Suc)
  qed fact
  then show ?thesis by simp
qed

lemma get_bit_at: "get_bit b (8 * i + j) \<longleftrightarrow> i < length b \<and> bit (b ! i) j" if "j < 8" for j
  using that by (auto simp: get_bit_def)

lemma get_bit_bound: "get_bit b k \<Longrightarrow> k < 8 * length b"
  by (simp add: get_bit_def)

lemma buffer_bit_eqI:
  assumes "length b = length c" and "\<And>k. get_bit b k = get_bit c k"
  shows "b = c"
proof (rule nth_equalityI)
  fix i assume i: "i < length b"
  show "b ! i = c ! i"
  proof (rule bit_word_eqI)
    fix j assume "j < LENGTH(8)"
    with assms(2) [of "8 * i + j"] i assms(1) show "bit (b ! i) j = bit (c ! i) j"
      by (simp add: get_bit_at)
  qed
qed fact

lemma unat_size_t [simp]: "x < 2 ^ 64 \<Longrightarrow> unat (of_nat x :: size_t) = x"
  by (simp add: unat_of_nat)

lemma size_t_eq_iff: "x < 2 ^ 64 \<Longrightarrow> y < 2 ^ 64 \<Longrightarrow> (of_nat x = (of_nat y :: size_t)) \<longleftrightarrow> x = y"
  by (metis unat_size_t)

lemma size_t_less_iff: "x < 2 ^ 64 \<Longrightarrow> y < 2 ^ 64 \<Longrightarrow> ((of_nat x :: size_t) < of_nat y) \<longleftrightarrow> x < y"
  by (simp only: word_less_nat_alt unat_size_t)

lemma get_bit_at_offset:
  "j < 8 \<Longrightarrow> get_bit b (8 * m + (8 * i + j)) \<longleftrightarrow> m + i < length b \<and> bit (b ! (m + i)) j"
  using get_bit_at [of j b "m + i"] by (simp add: add.assoc add_mult_distrib2)

lemma get_bit_butlast: "get_bit (butlast xs) k \<longleftrightarrow> k < 8 * (length xs - 1) \<and> get_bit xs k"
proof (cases "k < 8 * (length xs - 1)")
  case True
  then have "k div 8 < length xs - 1" "k < 8 * length xs" by linarith+
  with True show ?thesis by (simp add: get_bit_def nth_butlast)
qed (simp add: get_bit_def)

lemma length_enc_u16 [simp]: "length (enc_u16 w) = 2"
  by (simp add: enc_u16_def)

lemma enc_words_simps [simp]:
  "enc_words [] = []" "enc_words (w # ws) = hi8 w # lo8 w # enc_words ws"
  by (simp_all add: enc_words_def enc_u16_def)

lemma length_enc_words [simp]: "length (enc_words ws) = 2 * length ws"
  by (induction ws) simp_all

lemma dec_enc_words [simp]: "dec_words (enc_words ws) = ws"
  by (induction ws) simp_all

subsection \<open>Runs\<close>

text \<open>A sequence of events on a machine whose step is an option (\<^const>\<open>None\<close> when the event cannot happen),
  and the invariants its steps keep.\<close>

fun run_all :: "('e \<Rightarrow> 's \<Rightarrow> 's option) \<Rightarrow> 'e list \<Rightarrow> 's \<Rightarrow> 's option" where
  "run_all exec [] s = Some s"
| "run_all exec (e # es) s = (case exec e s of None \<Rightarrow> None | Some s' \<Rightarrow> run_all exec es s')"

text \<open>What the steps of a run put out.\<close>

fun trace_of :: "('e \<Rightarrow> 's \<Rightarrow> 's option) \<Rightarrow> ('e \<Rightarrow> 's \<Rightarrow> 'o list) \<Rightarrow> 'e list \<Rightarrow> 's \<Rightarrow> 'o list" where
  "trace_of exec out [] s = []"
| "trace_of exec out (e # es) s =
     out e s @ (case exec e s of None \<Rightarrow> [] | Some s' \<Rightarrow> trace_of exec out es s')"

lemma run_all_append:
  "run_all exec (es @ es') s = (case run_all exec es s of None \<Rightarrow> None | Some s' \<Rightarrow> run_all exec es' s')"
  by (induction es arbitrary: s) (auto split: option.splits)

locale transition_system =
  fixes exec :: "'e \<Rightarrow> 's \<Rightarrow> 's option"
    and inv :: "'s \<Rightarrow> bool"
  assumes exec_inv: "inv s \<Longrightarrow> exec e s = Some s' \<Longrightarrow> inv s'"
begin

lemma run_inv: "inv s \<Longrightarrow> run_all exec es s = Some s' \<Longrightarrow> inv s'"
  by (induction es arbitrary: s) (auto split: option.splits intro: exec_inv)

end

text \<open>A machine that is simulated by another one: what a step puts out is a run of the other machine.\<close>

locale trace_simulation =
  fixes exec :: "'e \<Rightarrow> 's \<Rightarrow> 's option"
    and out :: "'e \<Rightarrow> 's \<Rightarrow> 'o list"
    and spec :: "'o \<Rightarrow> 'a \<Rightarrow> 'a option"
    and rel :: "'s \<Rightarrow> 'a \<Rightarrow> bool"
  assumes step_sim: "rel s a \<Longrightarrow> exec e s = Some s' \<Longrightarrow> \<exists>a'. run_all spec (out e s) a = Some a' \<and> rel s' a'"
begin

lemma run_sim:
  assumes "rel s a" "run_all exec es s = Some s'"
  shows "\<exists>a'. run_all spec (trace_of exec out es s) a = Some a' \<and> rel s' a'"
  using assms
proof (induction es arbitrary: s a)
  case (Cons e es)
  from Cons.prems(2) obtain s1 where s1: "exec e s = Some s1" "run_all exec es s1 = Some s'"
    by (auto split: option.splits)
  obtain a1 where a1: "run_all spec (out e s) a = Some a1" "rel s1 a1"
    using step_sim [OF Cons.prems(1) s1(1)] by blast
  from Cons.IH [OF a1(2) s1(2)] s1(1) a1(1) show ?case by (simp add: run_all_append)
qed simp

end

end
