(* ===== verification/Modbus_Types.thy ===== *)
theory Modbus_Types
  imports Modbus_Prelude
begin

text \<open>
  core/types.hpp and core/error.hpp, core/error.cpp: the enumerations of the protocol, its size
  constants, the printable names and the three \<open>std::error_category\<close> tables.

  An \<open>enum class E : uint8_t\<close> holds any byte, and the sources cast bytes from the wire to
  \<open>function_code_t\<close> and \<open>exception_code_t\<close>. So both are bytes here, and their enumerators are a
  datatype with the underlying value of each (\<open>function_code_value\<close>, \<open>exception_code_value\<close>).
  Enumerations that are never cast from a number are plain datatypes.
\<close>

subsection \<open>Enumerations of types.hpp\<close>

datatype log_level =
  log_trace | log_debug | log_info | log_warn | log_error | log_critical

text \<open>The underlying values order the levels by severity.\<close>

fun log_level_value :: "log_level \<Rightarrow> uint8" where
  "log_level_value log_trace = 0"
| "log_level_value log_debug = 1"
| "log_level_value log_info = 2"
| "log_level_value log_warn = 3"
| "log_level_value log_error = 4"
| "log_level_value log_critical = 5"

lemma log_level_value_inj: "log_level_value a = log_level_value b \<longleftrightarrow> a = b"
  by (cases a; cases b) simp_all

instantiation log_level :: linorder
begin

definition less_eq_log_level :: "log_level \<Rightarrow> log_level \<Rightarrow> bool" where
  "less_eq_log_level a b \<longleftrightarrow> log_level_value a \<le> log_level_value b"

definition less_log_level :: "log_level \<Rightarrow> log_level \<Rightarrow> bool" where
  "less_log_level a b \<longleftrightarrow> log_level_value a < log_level_value b"

instance
proof
  fix a b c :: log_level
  show "a < b \<longleftrightarrow> a \<le> b \<and> \<not> b \<le> a" by (simp add: less_log_level_def less_eq_log_level_def less_le_not_le)
  show "a \<le> a" by (simp add: less_eq_log_level_def)
  show "a \<le> b \<Longrightarrow> b \<le> c \<Longrightarrow> a \<le> c" by (simp add: less_eq_log_level_def)
  show "a \<le> b \<or> b \<le> a" by (simp add: less_eq_log_level_def linear)
  show "a \<le> b \<Longrightarrow> b \<le> a \<Longrightarrow> a = b"
    by (auto simp: less_eq_log_level_def log_level_value_inj dest: antisym)
qed

end

type_synonym function_code_t = uint8

datatype function_code_enum =
    invalid_function_code
  | read_discrete_inputs
  | read_coils
  | write_single_coil
  | write_multiple_coils
  | read_input_registers
  | read_holding_registers
  | write_single_register
  | write_multiple_registers
  | read_write_multiple_registers
  | mask_write_register
  | read_fifo_queue

fun function_code_value :: "function_code_enum \<Rightarrow> function_code_t" where
  "function_code_value invalid_function_code = 0"
| "function_code_value read_discrete_inputs = 2"
| "function_code_value read_coils = 1"
| "function_code_value write_single_coil = 5"
| "function_code_value write_multiple_coils = 15"
| "function_code_value read_input_registers = 4"
| "function_code_value read_holding_registers = 3"
| "function_code_value write_single_register = 6"
| "function_code_value write_multiple_registers = 16"
| "function_code_value read_write_multiple_registers = 23"
| "function_code_value mask_write_register = 22"
| "function_code_value read_fifo_queue = 24"

type_synonym exception_code_t = uint8

datatype exception_code_enum =
    no_exception
  | illegal_function
  | illegal_data_address
  | illegal_data_value
  | server_device_failure
  | acknowledge
  | server_device_busy
  | negative_acknowledge
  | memory_parity_error
  | gateway_path_unavailable
  | gateway_target_device_failed_to_respond

fun exception_code_value :: "exception_code_enum \<Rightarrow> exception_code_t" where
  "exception_code_value no_exception = 0"
| "exception_code_value illegal_function = 0x01"
| "exception_code_value illegal_data_address = 0x02"
| "exception_code_value illegal_data_value = 0x03"
| "exception_code_value server_device_failure = 0x04"
| "exception_code_value acknowledge = 0x05"
| "exception_code_value server_device_busy = 0x06"
| "exception_code_value negative_acknowledge = 0x07"
| "exception_code_value memory_parity_error = 0x08"
| "exception_code_value gateway_path_unavailable = 0x0A"
| "exception_code_value gateway_target_device_failed_to_respond = 0x0B"

datatype coil_status_enum = coil_off | coil_on

fun coil_status_value :: "coil_status_enum \<Rightarrow> uint16" where
  "coil_status_value coil_off = 0x0000"
| "coil_status_value coil_on = 0xFF00"

datatype data_model_t =
    invalid_data_type
  | input_status
  | coil
  | input_register
  | holding_register
  | write_confirmation

datatype message_type = invalid_pdu_type | request | response

datatype byte_order = normal | byte_swapped

subsection \<open>Constants of types.hpp\<close>

definition MAX_APU_SIZE :: nat where "MAX_APU_SIZE = 256"

definition MIN_PDU_SIZE :: nat where "MIN_PDU_SIZE = 4"

definition max_pdu_size :: nat where "max_pdu_size = 253"

definition EXCEPTION_PDU_SIZE :: nat where "EXCEPTION_PDU_SIZE = 3"

definition PROTOCOL_ID :: uint16 where "PROTOCOL_ID = 0x0000"

definition TCP_HEADER_SIZE :: nat where "TCP_HEADER_SIZE = 6"

subsection \<open>Printable names\<close>

fun log_level_to_string :: "log_level \<Rightarrow> string" where
  "log_level_to_string log_trace = ''Trace''"
| "log_level_to_string log_debug = ''Debug''"
| "log_level_to_string log_info = ''Info''"
| "log_level_to_string log_warn = ''Warn''"
| "log_level_to_string log_error = ''Error''"
| "log_level_to_string log_critical = ''Critical''"

definition exception_code_to_string :: "exception_code_t \<Rightarrow> string" where
  "exception_code_to_string code =
     (if code = exception_code_value illegal_function then ''illegal function''
      else if code = exception_code_value illegal_data_address then ''illegal data address''
      else if code = exception_code_value illegal_data_value then ''illegal data value''
      else if code = exception_code_value server_device_failure then ''server device failure''
      else if code = exception_code_value acknowledge then ''acknowledge''
      else if code = exception_code_value server_device_busy then ''server device busy''
      else if code = exception_code_value negative_acknowledge then ''negative acknowledge''
      else if code = exception_code_value memory_parity_error then ''memory parity error''
      else if code = exception_code_value gateway_path_unavailable
        then ''gateway path unavailable''
      else if code = exception_code_value gateway_target_device_failed_to_respond
        then ''gateway target device failed to respond''
      else ''unknown'')"

text \<open>A logging handler is the text it writes for a message; \<open>print_logging_handler\<close> writes a line to
  standard output and the default handler of both configurations writes nothing.\<close>

type_synonym logging_handler_t = "log_level \<Rightarrow> string \<Rightarrow> string"

text \<open>What a call of the logging handler is given.\<close>

type_synonym log_line = "log_level \<times> string"

definition null_logging_handler :: logging_handler_t where
  "null_logging_handler level msg = ''''"

definition print_logging_handler :: logging_handler_t where
  "print_logging_handler level msg =
     ''['' @ log_level_to_string level @ ''] '' @ msg @ [CHR 0x0A]"

subsection \<open>Error codes: error.hpp and error.cpp\<close>

datatype modbus_error_code =
  success | not_supported | internal_error | malformed_message | crc_check_failed | lrc_check_failed

fun modbus_error_code_value :: "modbus_error_code \<Rightarrow> uint8" where
  "modbus_error_code_value modbus_error_code.success = 0"
| "modbus_error_code_value not_supported = 1"
| "modbus_error_code_value internal_error = 2"
| "modbus_error_code_value malformed_message = 3"
| "modbus_error_code_value crc_check_failed = 4"
| "modbus_error_code_value lrc_check_failed = 5"

datatype modbus_client_error_code =
  success | write_timeout | read_timeout | invalid_response | disconnected | stopped

fun modbus_client_error_code_value :: "modbus_client_error_code \<Rightarrow> uint8" where
  "modbus_client_error_code_value modbus_client_error_code.success = 0"
| "modbus_client_error_code_value write_timeout = 1"
| "modbus_client_error_code_value read_timeout = 2"
| "modbus_client_error_code_value invalid_response = 3"
| "modbus_client_error_code_value disconnected = 4"
| "modbus_client_error_code_value stopped = 5"

datatype modbus_server_error_code = success | exceeded_max_sessions

fun modbus_server_error_code_value :: "modbus_server_error_code \<Rightarrow> uint8" where
  "modbus_server_error_code_value modbus_server_error_code.success = 0"
| "modbus_server_error_code_value exceeded_max_sessions = 1"

datatype error_category =
    theModbusErrorCodeCategory
  | theModbusClientErrorCodeCategory
  | theModbusServerErrorCodeCategory

fun category_name :: "error_category \<Rightarrow> string" where
  "category_name theModbusErrorCodeCategory = ''modbus_error_code''"
| "category_name theModbusClientErrorCodeCategory = ''ModbusClientErrorCode''"
| "category_name theModbusServerErrorCodeCategory = ''ModbusServerErrorCode''"

text \<open>\<open>message(int ev)\<close> switches on \<open>static_cast<E>(ev)\<close>, the low byte of \<open>ev\<close>.\<close>

definition modbus_error_code_message :: "int \<Rightarrow> string" where
  "modbus_error_code_message ev = (let e = (word_of_int ev :: uint8) in
     if e = modbus_error_code_value modbus_error_code.success then ''Success''
     else if e = modbus_error_code_value not_supported
       then ''The requested action is not yet supported''
     else if e = modbus_error_code_value internal_error
       then ''An exception was thrown and caught by the program''
     else if e = modbus_error_code_value malformed_message
       then ''The client/server has received a response/request that does not conform to the standard''
     else if e = modbus_error_code_value crc_check_failed
       then ''The CRC check of the PDU failed''
     else if e = modbus_error_code_value lrc_check_failed
       then ''The LRC check of the PDU failed''
     else ''(unrecognized error)'')"

definition modbus_client_error_code_message :: "int \<Rightarrow> string" where
  "modbus_client_error_code_message ev = (let e = (word_of_int ev :: uint8) in
     if e = modbus_client_error_code_value modbus_client_error_code.success then ''Success''
     else if e = modbus_client_error_code_value write_timeout
       then ''The timeout for sending the request has expired''
     else if e = modbus_client_error_code_value read_timeout
       then ''The timeout for receiving a response has expired''
     else if e = modbus_client_error_code_value invalid_response
       then ''A response was received that does not pass verification checks''
     else if e = modbus_client_error_code_value disconnected
       then ''The client was disconnected''
     else if e = modbus_client_error_code_value stopped
       then ''The client was stopped''
     else ''(unrecognized error)'')"

definition modbus_server_error_code_message :: "int \<Rightarrow> string" where
  "modbus_server_error_code_message ev = (let e = (word_of_int ev :: uint8) in
     if e = modbus_server_error_code_value modbus_server_error_code.success then ''Success''
     else if e = modbus_server_error_code_value exceeded_max_sessions
       then ''The maximum number of sessions were exceeded''
     else ''(unrecognized error)'')"

text \<open>\<open>std::error_code\<close>: a value and a category; it converts to \<open>true\<close> when the value is not 0.\<close>

record error_code =
  ec_value :: int
  ec_category :: error_category

definition ec_bool :: "error_code \<Rightarrow> bool" where
  "ec_bool e \<longleftrightarrow> ec_value e \<noteq> 0"

definition make_error_code :: "modbus_error_code \<Rightarrow> error_code" where
  "make_error_code e =
     \<lparr>ec_value = uint (modbus_error_code_value e), ec_category = theModbusErrorCodeCategory\<rparr>"

definition make_client_error_code :: "modbus_client_error_code \<Rightarrow> error_code" where
  "make_client_error_code e =
     \<lparr>ec_value = uint (modbus_client_error_code_value e),
      ec_category = theModbusClientErrorCodeCategory\<rparr>"

definition make_server_error_code :: "modbus_server_error_code \<Rightarrow> error_code" where
  "make_server_error_code e =
     \<lparr>ec_value = uint (modbus_server_error_code_value e),
      ec_category = theModbusServerErrorCodeCategory\<rparr>"

definition ec_message :: "error_code \<Rightarrow> string" where
  "ec_message e = (case ec_category e of
     theModbusErrorCodeCategory \<Rightarrow> modbus_error_code_message (ec_value e)
   | theModbusClientErrorCodeCategory \<Rightarrow> modbus_client_error_code_message (ec_value e)
   | theModbusServerErrorCodeCategory \<Rightarrow> modbus_server_error_code_message (ec_value e))"

text \<open>The errors of the network library that the sources tell apart.\<close>

datatype net_code = timed_out | operation_aborted | eof | other_net_error nat

declare MAX_APU_SIZE_def [simp] TCP_HEADER_SIZE_def [simp] MIN_PDU_SIZE_def [simp]
  PROTOCOL_ID_def [simp]

subsection \<open>Lemmas\<close>

text \<open>Every named function code is below \<open>0x80\<close>, the bit that marks an exception.\<close>

lemma function_code_value_msb [simp]: "\<not> bit (function_code_value c) 7"
  by (cases c) simp_all

lemma function_code_value_inj: "function_code_value c = function_code_value d \<longleftrightarrow> c = d"
  by (cases c; cases d) simp_all

lemma exception_code_value_inj: "exception_code_value c = exception_code_value d \<longleftrightarrow> c = d"
  by (cases c; cases d) simp_all

lemma make_error_code_inj: "make_error_code e = make_error_code e' \<longleftrightarrow> e = e'"
  by (cases e; cases e') (simp_all add: make_error_code_def)

lemma make_client_error_code_inj:
  "make_client_error_code e = make_client_error_code e' \<longleftrightarrow> e = e'"
  by (cases e; cases e') (simp_all add: make_client_error_code_def)

lemma make_client_error_code_bool [simp]:
  "ec_bool (make_client_error_code e) \<longleftrightarrow> e \<noteq> modbus_client_error_code.success"
  by (cases e) (simp_all add: make_client_error_code_def ec_bool_def)

lemma make_error_code_bool [simp]:
  "ec_bool (make_error_code e) \<longleftrightarrow> e \<noteq> modbus_error_code.success"
  by (cases e) (simp_all add: make_error_code_def ec_bool_def)

lemma make_server_error_code_bool [simp]:
  "ec_bool (make_server_error_code e) \<longleftrightarrow> e \<noteq> modbus_server_error_code.success"
  by (cases e) (simp_all add: make_server_error_code_def ec_bool_def)

text \<open>A message tells the error: no two codes of an enumeration print the same, and none prints as
  unrecognised.\<close>

lemma error_messages_distinct:
  "ec_message (make_error_code e) = ec_message (make_error_code e') \<longleftrightarrow> e = e'"
  "ec_message (make_client_error_code c) = ec_message (make_client_error_code c') \<longleftrightarrow> c = c'"
  "ec_message (make_server_error_code v) = ec_message (make_server_error_code v') \<longleftrightarrow> v = v'"
proof -
  show "ec_message (make_error_code e) = ec_message (make_error_code e') \<longleftrightarrow> e = e'"
    by (cases e; cases e') (simp_all add: ec_message_def make_error_code_def modbus_error_code_message_def)
  show "ec_message (make_client_error_code c) = ec_message (make_client_error_code c') \<longleftrightarrow> c = c'"
    by (cases c; cases c')
      (simp_all add: ec_message_def make_client_error_code_def modbus_client_error_code_message_def)
  show "ec_message (make_server_error_code v) = ec_message (make_server_error_code v') \<longleftrightarrow> v = v'"
    by (cases v; cases v')
      (simp_all add: ec_message_def make_server_error_code_def modbus_server_error_code_message_def)
qed

end
