(* ===== verification/Message_Traits.thy ===== *)
theory Message_Traits
  imports Modbus_Types
begin

text \<open>
  The compile time side of a message: core/messages/is_message.hpp and what the templates of
  core/tcp_data_unit.hpp ask of a class. The other theories model what the classes do at run time; here a
  class is its declaration (\<open>class_decl\<close>: fields, constructors, member functions with their qualifiers), and
  the templates are the question whether their expressions are well-formed for it.

  An expression is well-formed when it has a type: \<open>decltype\<close> of a call is an option, \<^const>\<open>None\<close> where
  substitution fails. A type is a class with a const qualifier; a member function that is neither \<open>const\<close> nor
  \<open>static\<close> cannot be called on a const object. The arguments the templates pass are iterators, so the one
  implicit conversion is that of an iterator to a const iterator.
\<close>

subsection \<open>Declarations\<close>

datatype cpp_type =
    uint8_type
  | uint16_type
  | bool_type
  | size_type
  | function_code_type
  | exception_code_type
  | message_type_type
  | bytes_type
  | words_type
  | bools_type
  | buffer_iterator_type
  | const_buffer_iterator_type

record method_decl =
  md_name :: string
  md_static :: bool
  md_const :: bool
  md_args :: "cpp_type list"
  md_ret :: cpp_type

record class_decl =
  cd_name :: string
  cd_fields :: "(string \<times> cpp_type) list"
  cd_constructors :: "cpp_type list list"
  cd_methods :: "method_decl list"

text \<open>A class and whether it is qualified const.\<close>

type_synonym qualified_class = "class_decl \<times> bool"

subsection \<open>Well-formed expressions\<close>

definition converts :: "cpp_type \<Rightarrow> cpp_type \<Rightarrow> bool" where
  "converts a p \<longleftrightarrow> a = p \<or> (a = buffer_iterator_type \<and> p = const_buffer_iterator_type)"

text \<open>\<open>decltype(std::declval<T>().name(args))\<close>, \<open>decltype(T::name(args))\<close> outside of \<open>T\<close>, and whether
  \<open>T x(args)\<close> finds a constructor.\<close>

definition member_call :: "qualified_class \<Rightarrow> string \<Rightarrow> cpp_type list \<Rightarrow> cpp_type option" where
  "member_call T name args =
     map_option md_ret (find (\<lambda>m. md_name m = name \<and> list_all2 converts args (md_args m)
       \<and> (md_static m \<or> md_const m \<or> \<not> snd T)) (cd_methods (fst T)))"

definition static_call :: "qualified_class \<Rightarrow> string \<Rightarrow> cpp_type list \<Rightarrow> cpp_type option" where
  "static_call T name args =
     map_option md_ret (find (\<lambda>m. md_name m = name \<and> list_all2 converts args (md_args m) \<and> md_static m)
       (cd_methods (fst T)))"

definition constructible :: "qualified_class \<Rightarrow> cpp_type list \<Rightarrow> bool" where
  "constructible T args \<longleftrightarrow> list_ex (list_all2 converts args) (cd_constructors (fst T))"

subsection \<open>is_message.hpp\<close>

text \<open>The primary template is false; the specialisation is chosen when \<open>Op<T>\<close> is well-formed.\<close>

definition detect :: "qualified_class \<Rightarrow> (qualified_class \<Rightarrow> cpp_type option) \<Rightarrow> bool" where
  "detect T Op = (case Op T of None \<Rightarrow> False | Some _ \<Rightarrow> True)"

definition member_size_t :: "qualified_class \<Rightarrow> cpp_type option" where
  "member_size_t T = member_call T ''size'' []"

definition member_serialize_t :: "qualified_class \<Rightarrow> cpp_type option" where
  "member_serialize_t T = member_call T ''serialize'' [buffer_iterator_type]"

definition has_size :: "qualified_class \<Rightarrow> bool" where
  "has_size T = detect T member_size_t"

definition has_serialize :: "qualified_class \<Rightarrow> bool" where
  "has_serialize T = detect T member_serialize_t"

definition is_message :: "qualified_class \<Rightarrow> bool" where
  "is_message T \<longleftrightarrow> has_size T \<and> has_serialize T"

subsection \<open>The templates of tcp_data_unit\<close>

text \<open>The constructor from a message compiles: the assertion holds and so do the calls on the parameter
  \<open>M pdu\<close>, with \<open>pdu.type()\<close> initialising \<open>type_\<close>.\<close>

definition data_unit_constructor_compiles :: "qualified_class \<Rightarrow> bool" where
  "data_unit_constructor_compiles M \<longleftrightarrow>
     is_message M \<and> member_call M ''type'' [] = Some message_type_type
     \<and> member_call M ''size'' [] = Some size_type
     \<and> member_call M ''serialize'' [buffer_iterator_type] \<noteq> None"

text \<open>The two overloads of \<open>pdu<T>()\<close>: whether \<open>enable_if\<close> keeps the overload, and whether its body
  compiles.\<close>

definition pdu_enabled :: "qualified_class \<Rightarrow> bool" where
  "pdu_enabled T \<longleftrightarrow> cd_name (fst T) \<noteq> ''exception_response''"

definition pdu_body_compiles :: "qualified_class \<Rightarrow> bool" where
  "pdu_body_compiles T \<longleftrightarrow>
     static_call T ''function_code'' [] = Some function_code_type
     \<and> static_call T ''type'' [] = Some message_type_type
     \<and> constructible T [const_buffer_iterator_type]"

definition pdu_exception_enabled :: "qualified_class \<Rightarrow> bool" where
  "pdu_exception_enabled T \<longleftrightarrow> cd_name (fst T) = ''exception_response''"

definition pdu_exception_body_compiles :: "qualified_class \<Rightarrow> bool" where
  "pdu_exception_body_compiles T \<longleftrightarrow>
     static_call T ''type'' [] = Some message_type_type \<and> constructible T [const_buffer_iterator_type]"

text \<open>A call of \<open>pdu<T>()\<close> compiles when exactly one overload is left and its body does.\<close>

definition pdu_call_compiles :: "qualified_class \<Rightarrow> bool" where
  "pdu_call_compiles T \<longleftrightarrow>
     (pdu_enabled T \<and> \<not> pdu_exception_enabled T \<and> pdu_body_compiles T)
     \<or> (pdu_exception_enabled T \<and> \<not> pdu_enabled T \<and> pdu_exception_body_compiles T)"

subsection \<open>The message classes\<close>

definition mask_write_register_request_class :: class_decl where
  "mask_write_register_request_class =
     \<lparr>cd_name = ''mask_write_register_request'',
      cd_fields = [(''unit_id'', uint8_type), (''start_address'', uint16_type), (''and_mask'', uint16_type), (''or_mask'', uint16_type)],
      cd_constructors = [[], [uint8_type, uint16_type, uint16_type, uint16_type], [const_buffer_iterator_type]],
      cd_methods =
       [\<lparr>md_name = ''function_code'', md_static = True, md_const = False, md_args = [], md_ret = function_code_type\<rparr>,
        \<lparr>md_name = ''type'', md_static = True, md_const = False, md_args = [], md_ret = message_type_type\<rparr>,
        \<lparr>md_name = ''size'', md_static = True, md_const = False, md_args = [], md_ret = size_type\<rparr>,
        \<lparr>md_name = ''serialize'', md_static = False, md_const = True, md_args = [buffer_iterator_type], md_ret = buffer_iterator_type\<rparr>]\<rparr>"

definition read_coils_request_class :: class_decl where
  "read_coils_request_class =
     \<lparr>cd_name = ''read_coils_request'',
      cd_fields = [(''unit_id'', uint8_type), (''start_address'', uint16_type), (''length'', uint16_type)],
      cd_constructors = [[], [uint8_type, uint16_type, uint16_type], [const_buffer_iterator_type]],
      cd_methods =
       [\<lparr>md_name = ''function_code'', md_static = True, md_const = False, md_args = [], md_ret = function_code_type\<rparr>,
        \<lparr>md_name = ''type'', md_static = True, md_const = False, md_args = [], md_ret = message_type_type\<rparr>,
        \<lparr>md_name = ''size'', md_static = True, md_const = False, md_args = [], md_ret = size_type\<rparr>,
        \<lparr>md_name = ''serialize'', md_static = False, md_const = True, md_args = [buffer_iterator_type], md_ret = buffer_iterator_type\<rparr>]\<rparr>"

definition read_discrete_inputs_request_class :: class_decl where
  "read_discrete_inputs_request_class =
     \<lparr>cd_name = ''read_discrete_inputs_request'',
      cd_fields = [(''unit_id'', uint8_type), (''start_address'', uint16_type), (''length'', uint16_type)],
      cd_constructors = [[], [uint8_type, uint16_type, uint16_type], [const_buffer_iterator_type]],
      cd_methods =
       [\<lparr>md_name = ''function_code'', md_static = True, md_const = False, md_args = [], md_ret = function_code_type\<rparr>,
        \<lparr>md_name = ''type'', md_static = True, md_const = False, md_args = [], md_ret = message_type_type\<rparr>,
        \<lparr>md_name = ''size'', md_static = True, md_const = False, md_args = [], md_ret = size_type\<rparr>,
        \<lparr>md_name = ''serialize'', md_static = False, md_const = True, md_args = [buffer_iterator_type], md_ret = buffer_iterator_type\<rparr>]\<rparr>"

definition read_holding_registers_request_class :: class_decl where
  "read_holding_registers_request_class =
     \<lparr>cd_name = ''read_holding_registers_request'',
      cd_fields = [(''unit_id'', uint8_type), (''start_address'', uint16_type), (''length'', uint16_type)],
      cd_constructors = [[], [uint8_type, uint16_type, uint16_type], [const_buffer_iterator_type]],
      cd_methods =
       [\<lparr>md_name = ''function_code'', md_static = True, md_const = False, md_args = [], md_ret = function_code_type\<rparr>,
        \<lparr>md_name = ''type'', md_static = True, md_const = False, md_args = [], md_ret = message_type_type\<rparr>,
        \<lparr>md_name = ''size'', md_static = True, md_const = False, md_args = [], md_ret = size_type\<rparr>,
        \<lparr>md_name = ''serialize'', md_static = False, md_const = True, md_args = [buffer_iterator_type], md_ret = buffer_iterator_type\<rparr>]\<rparr>"

definition read_input_registers_request_class :: class_decl where
  "read_input_registers_request_class =
     \<lparr>cd_name = ''read_input_registers_request'',
      cd_fields = [(''unit_id'', uint8_type), (''start_address'', uint16_type), (''length'', uint16_type)],
      cd_constructors = [[], [uint8_type, uint16_type, uint16_type], [const_buffer_iterator_type]],
      cd_methods =
       [\<lparr>md_name = ''function_code'', md_static = True, md_const = False, md_args = [], md_ret = function_code_type\<rparr>,
        \<lparr>md_name = ''type'', md_static = True, md_const = False, md_args = [], md_ret = message_type_type\<rparr>,
        \<lparr>md_name = ''size'', md_static = True, md_const = False, md_args = [], md_ret = size_type\<rparr>,
        \<lparr>md_name = ''serialize'', md_static = False, md_const = True, md_args = [buffer_iterator_type], md_ret = buffer_iterator_type\<rparr>]\<rparr>"

definition read_write_registers_request_class :: class_decl where
  "read_write_registers_request_class =
     \<lparr>cd_name = ''read_write_registers_request'',
      cd_fields = [(''unit_id'', uint8_type), (''read_start_address'', uint16_type), (''read_num_registers'', uint16_type), (''write_start_address'', uint16_type), (''write_num_registers'', uint16_type), (''values'', words_type)],
      cd_constructors = [[], [uint8_type, uint16_type, uint16_type, uint16_type, words_type], [const_buffer_iterator_type]],
      cd_methods =
       [\<lparr>md_name = ''function_code'', md_static = True, md_const = False, md_args = [], md_ret = function_code_type\<rparr>,
        \<lparr>md_name = ''type'', md_static = True, md_const = False, md_args = [], md_ret = message_type_type\<rparr>,
        \<lparr>md_name = ''size'', md_static = False, md_const = False, md_args = [], md_ret = size_type\<rparr>,
        \<lparr>md_name = ''serialize'', md_static = False, md_const = True, md_args = [buffer_iterator_type], md_ret = buffer_iterator_type\<rparr>]\<rparr>"

definition write_multiple_coils_request_class :: class_decl where
  "write_multiple_coils_request_class =
     \<lparr>cd_name = ''write_multiple_coils_request'',
      cd_fields = [(''unit_id'', uint8_type), (''start_address'', uint16_type), (''length'', uint16_type), (''values'', bytes_type)],
      cd_constructors = [[], [uint8_type, uint16_type, uint16_type, bytes_type], [uint8_type, uint16_type, bools_type], [const_buffer_iterator_type]],
      cd_methods =
       [\<lparr>md_name = ''function_code'', md_static = True, md_const = False, md_args = [], md_ret = function_code_type\<rparr>,
        \<lparr>md_name = ''type'', md_static = True, md_const = False, md_args = [], md_ret = message_type_type\<rparr>,
        \<lparr>md_name = ''size'', md_static = False, md_const = False, md_args = [], md_ret = size_type\<rparr>,
        \<lparr>md_name = ''serialize'', md_static = False, md_const = True, md_args = [buffer_iterator_type], md_ret = buffer_iterator_type\<rparr>]\<rparr>"

definition write_multiple_registers_request_class :: class_decl where
  "write_multiple_registers_request_class =
     \<lparr>cd_name = ''write_multiple_registers_request'',
      cd_fields = [(''unit_id'', uint8_type), (''start_address'', uint16_type), (''length'', uint16_type), (''values'', words_type)],
      cd_constructors = [[], [uint8_type, uint16_type, uint16_type, words_type], [const_buffer_iterator_type]],
      cd_methods =
       [\<lparr>md_name = ''function_code'', md_static = True, md_const = False, md_args = [], md_ret = function_code_type\<rparr>,
        \<lparr>md_name = ''type'', md_static = True, md_const = False, md_args = [], md_ret = message_type_type\<rparr>,
        \<lparr>md_name = ''size'', md_static = False, md_const = False, md_args = [], md_ret = size_type\<rparr>,
        \<lparr>md_name = ''serialize'', md_static = False, md_const = True, md_args = [buffer_iterator_type], md_ret = buffer_iterator_type\<rparr>]\<rparr>"

definition write_single_coil_request_class :: class_decl where
  "write_single_coil_request_class =
     \<lparr>cd_name = ''write_single_coil_request'',
      cd_fields = [(''unit_id'', uint8_type), (''start_address'', uint16_type), (''value'', bool_type)],
      cd_constructors = [[], [uint8_type, uint16_type, bool_type], [const_buffer_iterator_type]],
      cd_methods =
       [\<lparr>md_name = ''function_code'', md_static = True, md_const = False, md_args = [], md_ret = function_code_type\<rparr>,
        \<lparr>md_name = ''type'', md_static = True, md_const = False, md_args = [], md_ret = message_type_type\<rparr>,
        \<lparr>md_name = ''size'', md_static = True, md_const = False, md_args = [], md_ret = size_type\<rparr>,
        \<lparr>md_name = ''serialize'', md_static = False, md_const = True, md_args = [buffer_iterator_type], md_ret = buffer_iterator_type\<rparr>]\<rparr>"

definition write_single_register_request_class :: class_decl where
  "write_single_register_request_class =
     \<lparr>cd_name = ''write_single_register_request'',
      cd_fields = [(''unit_id'', uint8_type), (''start_address'', uint16_type), (''value'', uint16_type)],
      cd_constructors = [[], [uint8_type, uint16_type, uint16_type], [const_buffer_iterator_type]],
      cd_methods =
       [\<lparr>md_name = ''function_code'', md_static = True, md_const = False, md_args = [], md_ret = function_code_type\<rparr>,
        \<lparr>md_name = ''type'', md_static = True, md_const = False, md_args = [], md_ret = message_type_type\<rparr>,
        \<lparr>md_name = ''size'', md_static = True, md_const = False, md_args = [], md_ret = size_type\<rparr>,
        \<lparr>md_name = ''serialize'', md_static = False, md_const = True, md_args = [buffer_iterator_type], md_ret = buffer_iterator_type\<rparr>]\<rparr>"

definition exception_response_class :: class_decl where
  "exception_response_class =
     \<lparr>cd_name = ''exception_response'',
      cd_fields = [(''unit_id'', uint8_type), (''func_code'', function_code_type), (''exception_code'', exception_code_type)],
      cd_constructors = [[], [uint8_type, function_code_type, exception_code_type], [const_buffer_iterator_type]],
      cd_methods =
       [\<lparr>md_name = ''function_code'', md_static = False, md_const = False, md_args = [], md_ret = function_code_type\<rparr>,
        \<lparr>md_name = ''type'', md_static = True, md_const = False, md_args = [], md_ret = message_type_type\<rparr>,
        \<lparr>md_name = ''size'', md_static = False, md_const = False, md_args = [], md_ret = size_type\<rparr>,
        \<lparr>md_name = ''serialize'', md_static = False, md_const = True, md_args = [buffer_iterator_type], md_ret = buffer_iterator_type\<rparr>]\<rparr>"

definition mask_write_register_response_class :: class_decl where
  "mask_write_register_response_class =
     \<lparr>cd_name = ''mask_write_register_response'',
      cd_fields = [(''unit_id'', uint8_type), (''start_address'', uint16_type), (''and_mask'', uint16_type), (''or_mask'', uint16_type)],
      cd_constructors = [[], [uint8_type, uint16_type, uint16_type, uint16_type], [const_buffer_iterator_type]],
      cd_methods =
       [\<lparr>md_name = ''function_code'', md_static = True, md_const = False, md_args = [], md_ret = function_code_type\<rparr>,
        \<lparr>md_name = ''type'', md_static = True, md_const = False, md_args = [], md_ret = message_type_type\<rparr>,
        \<lparr>md_name = ''size'', md_static = True, md_const = False, md_args = [], md_ret = size_type\<rparr>,
        \<lparr>md_name = ''serialize'', md_static = False, md_const = True, md_args = [buffer_iterator_type], md_ret = buffer_iterator_type\<rparr>]\<rparr>"

definition read_coils_response_class :: class_decl where
  "read_coils_response_class =
     \<lparr>cd_name = ''read_coils_response'',
      cd_fields = [(''unit_id'', uint8_type), (''values'', bytes_type)],
      cd_constructors = [[], [uint8_type, bytes_type], [const_buffer_iterator_type]],
      cd_methods =
       [\<lparr>md_name = ''function_code'', md_static = True, md_const = False, md_args = [], md_ret = function_code_type\<rparr>,
        \<lparr>md_name = ''type'', md_static = True, md_const = False, md_args = [], md_ret = message_type_type\<rparr>,
        \<lparr>md_name = ''size'', md_static = False, md_const = False, md_args = [], md_ret = size_type\<rparr>,
        \<lparr>md_name = ''serialize'', md_static = False, md_const = True, md_args = [buffer_iterator_type], md_ret = buffer_iterator_type\<rparr>]\<rparr>"

definition read_discrete_inputs_response_class :: class_decl where
  "read_discrete_inputs_response_class =
     \<lparr>cd_name = ''read_discrete_inputs_response'',
      cd_fields = [(''unit_id'', uint8_type), (''inputs'', bytes_type)],
      cd_constructors = [[], [uint8_type, bytes_type], [const_buffer_iterator_type]],
      cd_methods =
       [\<lparr>md_name = ''function_code'', md_static = True, md_const = False, md_args = [], md_ret = function_code_type\<rparr>,
        \<lparr>md_name = ''type'', md_static = True, md_const = False, md_args = [], md_ret = message_type_type\<rparr>,
        \<lparr>md_name = ''size'', md_static = False, md_const = False, md_args = [], md_ret = size_type\<rparr>,
        \<lparr>md_name = ''serialize'', md_static = False, md_const = True, md_args = [buffer_iterator_type], md_ret = buffer_iterator_type\<rparr>]\<rparr>"

definition read_holding_registers_response_class :: class_decl where
  "read_holding_registers_response_class =
     \<lparr>cd_name = ''read_holding_registers_response'',
      cd_fields = [(''unit_id'', uint8_type), (''values'', bytes_type)],
      cd_constructors = [[], [uint8_type, words_type], [uint8_type, bytes_type], [const_buffer_iterator_type]],
      cd_methods =
       [\<lparr>md_name = ''function_code'', md_static = True, md_const = False, md_args = [], md_ret = function_code_type\<rparr>,
        \<lparr>md_name = ''type'', md_static = True, md_const = False, md_args = [], md_ret = message_type_type\<rparr>,
        \<lparr>md_name = ''size'', md_static = False, md_const = False, md_args = [], md_ret = size_type\<rparr>,
        \<lparr>md_name = ''serialize'', md_static = False, md_const = True, md_args = [buffer_iterator_type], md_ret = buffer_iterator_type\<rparr>]\<rparr>"

definition read_input_registers_response_class :: class_decl where
  "read_input_registers_response_class =
     \<lparr>cd_name = ''read_input_registers_response'',
      cd_fields = [(''unit_id'', uint8_type), (''values'', bytes_type)],
      cd_constructors = [[], [uint8_type, bytes_type], [uint8_type, words_type], [const_buffer_iterator_type]],
      cd_methods =
       [\<lparr>md_name = ''function_code'', md_static = True, md_const = False, md_args = [], md_ret = function_code_type\<rparr>,
        \<lparr>md_name = ''type'', md_static = True, md_const = False, md_args = [], md_ret = message_type_type\<rparr>,
        \<lparr>md_name = ''size'', md_static = False, md_const = False, md_args = [], md_ret = size_type\<rparr>,
        \<lparr>md_name = ''serialize'', md_static = False, md_const = True, md_args = [buffer_iterator_type], md_ret = buffer_iterator_type\<rparr>]\<rparr>"

definition read_write_registers_response_class :: class_decl where
  "read_write_registers_response_class =
     \<lparr>cd_name = ''read_write_registers_response'',
      cd_fields = [(''unit_id'', uint8_type), (''values'', words_type)],
      cd_constructors = [[], [uint8_type, words_type], [const_buffer_iterator_type]],
      cd_methods =
       [\<lparr>md_name = ''function_code'', md_static = True, md_const = False, md_args = [], md_ret = function_code_type\<rparr>,
        \<lparr>md_name = ''type'', md_static = True, md_const = False, md_args = [], md_ret = message_type_type\<rparr>,
        \<lparr>md_name = ''size'', md_static = False, md_const = False, md_args = [], md_ret = size_type\<rparr>,
        \<lparr>md_name = ''serialize'', md_static = False, md_const = True, md_args = [buffer_iterator_type], md_ret = buffer_iterator_type\<rparr>]\<rparr>"

definition write_multiple_coils_response_class :: class_decl where
  "write_multiple_coils_response_class =
     \<lparr>cd_name = ''write_multiple_coils_response'',
      cd_fields = [(''unit_id'', uint8_type), (''start_address'', uint16_type), (''length'', uint16_type)],
      cd_constructors = [[], [uint8_type, uint16_type, uint16_type], [const_buffer_iterator_type]],
      cd_methods =
       [\<lparr>md_name = ''function_code'', md_static = True, md_const = False, md_args = [], md_ret = function_code_type\<rparr>,
        \<lparr>md_name = ''type'', md_static = True, md_const = False, md_args = [], md_ret = message_type_type\<rparr>,
        \<lparr>md_name = ''size'', md_static = False, md_const = False, md_args = [], md_ret = size_type\<rparr>,
        \<lparr>md_name = ''serialize'', md_static = False, md_const = True, md_args = [buffer_iterator_type], md_ret = buffer_iterator_type\<rparr>]\<rparr>"

definition write_multiple_registers_response_class :: class_decl where
  "write_multiple_registers_response_class =
     \<lparr>cd_name = ''write_multiple_registers_response'',
      cd_fields = [(''unit_id'', uint8_type), (''start_address'', uint16_type), (''length'', uint16_type)],
      cd_constructors = [[], [uint8_type, uint16_type, uint16_type], [const_buffer_iterator_type]],
      cd_methods =
       [\<lparr>md_name = ''function_code'', md_static = True, md_const = False, md_args = [], md_ret = function_code_type\<rparr>,
        \<lparr>md_name = ''type'', md_static = True, md_const = False, md_args = [], md_ret = message_type_type\<rparr>,
        \<lparr>md_name = ''size'', md_static = False, md_const = False, md_args = [], md_ret = size_type\<rparr>,
        \<lparr>md_name = ''serialize'', md_static = False, md_const = True, md_args = [buffer_iterator_type], md_ret = buffer_iterator_type\<rparr>]\<rparr>"

definition write_single_coil_response_class :: class_decl where
  "write_single_coil_response_class =
     \<lparr>cd_name = ''write_single_coil_response'',
      cd_fields = [(''unit_id'', uint8_type), (''start_address'', uint16_type), (''value'', bool_type)],
      cd_constructors = [[], [uint8_type, uint16_type, bool_type], [const_buffer_iterator_type]],
      cd_methods =
       [\<lparr>md_name = ''function_code'', md_static = True, md_const = False, md_args = [], md_ret = function_code_type\<rparr>,
        \<lparr>md_name = ''type'', md_static = True, md_const = False, md_args = [], md_ret = message_type_type\<rparr>,
        \<lparr>md_name = ''size'', md_static = True, md_const = False, md_args = [], md_ret = size_type\<rparr>,
        \<lparr>md_name = ''serialize'', md_static = False, md_const = True, md_args = [buffer_iterator_type], md_ret = buffer_iterator_type\<rparr>]\<rparr>"

definition write_single_register_response_class :: class_decl where
  "write_single_register_response_class =
     \<lparr>cd_name = ''write_single_register_response'',
      cd_fields = [(''unit_id'', uint8_type), (''start_address'', uint16_type), (''value'', uint16_type)],
      cd_constructors = [[], [uint8_type, uint16_type, uint16_type], [const_buffer_iterator_type]],
      cd_methods =
       [\<lparr>md_name = ''function_code'', md_static = True, md_const = False, md_args = [], md_ret = function_code_type\<rparr>,
        \<lparr>md_name = ''type'', md_static = True, md_const = False, md_args = [], md_ret = message_type_type\<rparr>,
        \<lparr>md_name = ''size'', md_static = True, md_const = False, md_args = [], md_ret = size_type\<rparr>,
        \<lparr>md_name = ''serialize'', md_static = False, md_const = True, md_args = [buffer_iterator_type], md_ret = buffer_iterator_type\<rparr>]\<rparr>"

text \<open>Every class that is put in a data unit.\<close>

definition message_classes :: "class_decl list" where
  "message_classes =
     [mask_write_register_request_class, read_coils_request_class, read_discrete_inputs_request_class,
      read_holding_registers_request_class, read_input_registers_request_class,
      read_write_registers_request_class, write_multiple_coils_request_class,
      write_multiple_registers_request_class, write_single_coil_request_class,
      write_single_register_request_class, exception_response_class, mask_write_register_response_class,
      read_coils_response_class, read_discrete_inputs_response_class, read_holding_registers_response_class,
      read_input_registers_response_class, read_write_registers_response_class,
      write_multiple_coils_response_class, write_multiple_registers_response_class,
      write_single_coil_response_class, write_single_register_response_class]"

lemmas class_defs =
  mask_write_register_request_class_def read_coils_request_class_def read_discrete_inputs_request_class_def
  read_holding_registers_request_class_def read_input_registers_request_class_def
  read_write_registers_request_class_def write_multiple_coils_request_class_def
  write_multiple_registers_request_class_def write_single_coil_request_class_def
  write_single_register_request_class_def exception_response_class_def mask_write_register_response_class_def
  read_coils_response_class_def read_discrete_inputs_response_class_def
  read_holding_registers_response_class_def read_input_registers_response_class_def
  read_write_registers_response_class_def write_multiple_coils_response_class_def
  write_multiple_registers_response_class_def write_single_coil_response_class_def
  write_single_register_response_class_def

lemmas trait_defs = is_message_def has_size_def has_serialize_def detect_def member_size_t_def
  member_serialize_t_def member_call_def static_call_def constructible_def converts_def
  data_unit_constructor_compiles_def pdu_call_compiles_def pdu_enabled_def pdu_body_compiles_def
  pdu_exception_enabled_def pdu_exception_body_compiles_def

subsection \<open>Properties\<close>

text \<open>What \<open>is_message\<close> tests: a member function \<open>size\<close> without parameters and a member function
  \<open>serialize\<close> that takes an iterator, both callable with the qualification of the type. It does not look at
  their return types.\<close>

lemma detect_member_call:
  "detect T (\<lambda>T. member_call T name args) \<longleftrightarrow>
     (\<exists>m \<in> set (cd_methods (fst T)). md_name m = name \<and> list_all2 converts args (md_args m)
        \<and> (md_static m \<or> md_const m \<or> \<not> snd T))"
  by (auto simp: detect_def member_call_def find_None_iff find_Some_iff split: option.splits)

lemma converts_iterator:
  "list_all2 converts [buffer_iterator_type] ps \<longleftrightarrow>
     ps = [buffer_iterator_type] \<or> ps = [const_buffer_iterator_type]"
  by (auto simp: converts_def list_all2_Cons1)

lemma is_message_iff:
  "is_message T \<longleftrightarrow>
     (\<exists>m \<in> set (cd_methods (fst T)). md_name m = ''size'' \<and> md_args m = []
        \<and> (md_static m \<or> md_const m \<or> \<not> snd T))
     \<and> (\<exists>m \<in> set (cd_methods (fst T)). md_name m = ''serialize''
        \<and> md_args m \<in> {[buffer_iterator_type], [const_buffer_iterator_type]}
        \<and> (md_static m \<or> md_const m \<or> \<not> snd T))"
proof -
  have members: "member_size_t = (\<lambda>T. member_call T ''size'' [])"
    "member_serialize_t = (\<lambda>T. member_call T ''serialize'' [buffer_iterator_type])"
    by (simp_all add: fun_eq_iff member_size_t_def member_serialize_t_def)
  show ?thesis
    unfolding is_message_def has_size_def has_serialize_def members detect_member_call converts_iterator
    by simp
qed

text \<open>Every message class compiles with the templates of the data unit. Each of the twenty-one classes
  satisfies \<open>is_message\<close>, the constructor from a message compiles for it, and a call of \<open>pdu<T>()\<close> finds
  exactly one overload whose body compiles. The general overload would not compile for
  \<open>exception_response\<close>, whose \<open>function_code()\<close> is not static; and the const-qualified classes that are
  still messages are exactly the 10 with a static \<open>size()\<close>.\<close>

lemma message_classes_compile:
  "length message_classes = 21 \<and> distinct (map cd_name message_classes)
   \<and> list_all (\<lambda>c. is_message (c, False) \<and> data_unit_constructor_compiles (c, False)
        \<and> pdu_call_compiles (c, False)) message_classes
   \<and> filter (\<lambda>c. \<not> pdu_body_compiles (c, False)) message_classes = [exception_response_class]
   \<and> filter (\<lambda>c. is_message (c, True)) message_classes =
      [mask_write_register_request_class, read_coils_request_class, read_discrete_inputs_request_class,
       read_holding_registers_request_class, read_input_registers_request_class,
       write_single_coil_request_class, write_single_register_request_class,
       mask_write_register_response_class, write_single_coil_response_class,
       write_single_register_response_class]"
  by (intro conjI) (simp_all add: message_classes_def class_defs trait_defs)

text \<open>A class without \<open>size()\<close> or without \<open>serialize\<close> of an iterator stops the compilation of the
  constructor.\<close>

lemma constructor_needs_members:
  assumes "data_unit_constructor_compiles (c, False)"
  shows "''size'' \<in> md_name ` set (cd_methods c)" "''serialize'' \<in> md_name ` set (cd_methods c)"
  using assms unfolding data_unit_constructor_compiles_def is_message_iff by force+

end
