(* ===== verification/Message_Interface.thy ===== *)
theory Message_Interface
  imports Modbus_Types
begin

text \<open>
  Vector iterators as the message classes use them, and the interface every message class offers
  to \<open>tcp_data_unit\<close> (core/messages/is_message.hpp: \<open>size()\<close> and \<open>serialize(buffer_iterator)\<close>,
  with the constructor from a \<open>const_buffer_iterator\<close> that \<open>tcp_data_unit::pdu<T>\<close> calls).

  An iterator is the vector with a position. Reading, writing or moving past the end is undefined
  behaviour in C++ and \<^const>\<open>None\<close> here. The wire image of a message, \<open>encode\<close>, is the
  specification the serialisers are proved against.

  Locales: \<open>message\<close> (serialiser, size and wire image), \<open>pdu_message\<close> (a fixed function code and a
  parser that inverts the serialiser), \<open>comparable_pdu\<close> (with \<open>operator==\<close> and \<open>operator!=\<close>),
  \<open>fixed_pdu\<close> (a parser that reads a fixed number of bytes) and \<open>counted_pdu\<close> (a parser that reads as many bytes as a count byte in the buffer says).
\<close>

subsection \<open>Iterators\<close>

type_synonym buffer_iterator = "buffer_t \<times> nat"
type_synonym const_buffer_iterator = "buffer_t \<times> nat"

text \<open>\<open>*it++\<close> as a value, \<open>it++\<close> alone, \<open>*it\<close> alone, \<open>it += n\<close>, and \<open>*it++ = v\<close>.\<close>

fun deref_inc :: "const_buffer_iterator \<Rightarrow> (uint8 \<times> const_buffer_iterator) option" where
  "deref_inc (b, p) = (if p < length b then Some (b ! p, (b, Suc p)) else None)"

fun inc :: "const_buffer_iterator \<Rightarrow> const_buffer_iterator option" where
  "inc (b, p) = (if p < length b then Some (b, Suc p) else None)"

fun deref :: "const_buffer_iterator \<Rightarrow> uint8 option" where
  "deref (b, p) = (if p < length b then Some (b ! p) else None)"

fun advance :: "const_buffer_iterator \<Rightarrow> nat \<Rightarrow> const_buffer_iterator option" where
  "advance (b, p) n = (if p + n \<le> length b then Some (b, p + n) else None)"

fun put :: "uint8 \<Rightarrow> buffer_iterator \<Rightarrow> buffer_iterator option" where
  "put v (b, p) = (if p < length b then Some (b[p := v], Suc p) else None)"

text \<open>\<open>x = *it++ << 8; x += *it++;\<close> for a \<open>uint16_t\<close>, and the two writes that mirror it.\<close>

definition get_u16 :: "const_buffer_iterator \<Rightarrow> (uint16 \<times> const_buffer_iterator) option" where
  "get_u16 it = do {
     (h, it) \<leftarrow> deref_inc it;
     (l, it) \<leftarrow> deref_inc it;
     Some (be16 h l, it) }"

definition put_u16 :: "uint16 \<Rightarrow> buffer_iterator \<Rightarrow> buffer_iterator option" where
  "put_u16 w it = do {
     it \<leftarrow> put (hi8 w) it;
     put (lo8 w) it }"

text \<open>The loops \<open>for (i < n) values[i] = *it++\<close> and \<open>for (auto byte : values) *it++ = byte\<close>, and
  the same two loops over 16-bit values.\<close>

fun get_bytes :: "nat \<Rightarrow> const_buffer_iterator \<Rightarrow> (uint8 list \<times> const_buffer_iterator) option" where
  "get_bytes 0 it = Some ([], it)"
| "get_bytes (Suc n) it = do {
     (x, it) \<leftarrow> deref_inc it;
     (xs, it) \<leftarrow> get_bytes n it;
     Some (x # xs, it) }"

fun put_bytes :: "uint8 list \<Rightarrow> buffer_iterator \<Rightarrow> buffer_iterator option" where
  "put_bytes [] it = Some it"
| "put_bytes (x # xs) it = put x it \<bind> put_bytes xs"

fun get_words :: "nat \<Rightarrow> const_buffer_iterator \<Rightarrow> (uint16 list \<times> const_buffer_iterator) option" where
  "get_words 0 it = Some ([], it)"
| "get_words (Suc n) it = do {
     (x, it) \<leftarrow> get_u16 it;
     (xs, it) \<leftarrow> get_words n it;
     Some (x # xs, it) }"

fun put_words :: "uint16 list \<Rightarrow> buffer_iterator \<Rightarrow> buffer_iterator option" where
  "put_words [] it = Some it"
| "put_words (x # xs) it = put_u16 x it \<bind> put_words xs"

subsection \<open>The effect of a serialiser\<close>

text \<open>Writing a run of bytes over a buffer: the net effect of a serialiser.\<close>

definition overwrite :: "buffer_t \<Rightarrow> nat \<Rightarrow> uint8 list \<Rightarrow> buffer_t" where
  "overwrite b p xs = take p b @ xs @ drop (p + length xs) b"

subsection \<open>Lemmas on iterators\<close>

lemma take_overwrite [simp]: "take (length bs) (overwrite buf 0 bs) = bs"
  by (simp add: overwrite_def)

lemma put_bytes_Nil_eq [simp]: "put_bytes [] = Some"
  by (simp add: fun_eq_iff)

lemma put_u16_bytes [wire_simps]: "put_u16 w it = put_bytes (enc_u16 w) it"
  by (cases "put (hi8 w) it") (simp_all add: put_u16_def enc_u16_def)

lemma put_bytes_append [wire_simps]: "put_bytes xs it \<bind> put_bytes ys = put_bytes (xs @ ys) it"
  by (induction xs arbitrary: it) (auto simp: bind_assoc split: bind_splits)

lemma put_byte_then [wire_simps]: "put x it \<bind> put_bytes ys = put_bytes (x # ys) it"
  by simp

lemma put_byte_last [wire_simps]: "put x it = put_bytes [x] it"
  by simp

declare put_bytes.simps(2) [simp del]

lemma put_words_bytes [wire_simps]: "put_words ws it = put_bytes (enc_words ws) it"
proof (induction ws arbitrary: it)
  case (Cons w ws)
  then have "put_words ws = put_bytes (enc_words ws)" by (simp add: fun_eq_iff)
  then show ?case
    by (simp add: put_u16_bytes put_bytes_append) (simp add: enc_u16_def)
qed simp

lemma put_bytes_spec:
  "put_bytes xs (b, p) =
     (if p + length xs \<le> length b \<or> xs = [] then Some (overwrite b p xs, p + length xs) else None)"
proof (induction xs arbitrary: b p)
  case Nil
  then show ?case by (simp add: overwrite_def)
next
  case (Cons x xs)
  show ?case
  proof (cases "p < length b")
    case True
    then have "overwrite (b[p := x]) (Suc p) xs = overwrite b p (x # xs)"
      by (simp add: overwrite_def take_Suc_conv_app_nth drop_update_cancel)
    with True Cons.IH [of "b[p := x]" "Suc p"] show ?thesis by (auto simp: put_bytes.simps(2))
  qed (simp add: put_bytes.simps(2))
qed

lemma length_overwrite [simp]: "p + length xs \<le> length b \<Longrightarrow> length (overwrite b p xs) = length b"
  by (simp add: overwrite_def)

lemma overwrite_all: "length xs = length b - p \<Longrightarrow> p \<le> length b \<Longrightarrow> overwrite b p xs = take p b @ xs"
  by (simp add: overwrite_def)

lemma deref_inc_nth [wire_simps]: "p < length b \<Longrightarrow> deref_inc (b, p) = Some (b ! p, b, Suc p)"
  by simp

lemma get_u16_nth [wire_simps]:
  "get_u16 (b, p) =
     (if Suc p < length b then Some (be16 (b ! p) (b ! Suc p), b, Suc (Suc p)) else None)"
  by (auto simp: get_u16_def)

lemma get_bytes_spec [wire_simps]:
  "get_bytes n (b, p) =
     (if p + n \<le> length b \<or> n = 0 then Some (take n (drop p b), b, p + n) else None)"
proof (induction n arbitrary: p)
  case (Suc n)
  show ?case
  proof (cases "p < length b")
    case True
    then have "drop p b = b ! p # drop (Suc p) b" by (simp add: Cons_nth_drop_Suc)
    with True Suc.IH [of "Suc p"] show ?thesis by auto
  qed simp
qed simp

lemma get_words_spec [wire_simps]:
  "get_words n (b, p) =
     (if p + 2 * n \<le> length b \<or> n = 0
      then Some (dec_words (take (2 * n) (drop p b)), b, p + 2 * n) else None)"
proof (induction n arbitrary: p)
  case (Suc n)
  show ?case
  proof (cases "Suc p < length b")
    case True
    then have "drop p b = b ! p # b ! Suc p # drop (Suc (Suc p)) b"
      by (simp add: Cons_nth_drop_Suc)
    with True Suc.IH [of "Suc (Suc p)"] show ?thesis
      by (auto simp: get_u16_nth)
  qed (auto simp: get_u16_nth)
qed simp

text \<open>Evaluating a parser on a buffer \<open>pre @ encode m @ post\<close>.\<close>

lemma unat_count_byte: "n < 256 \<Longrightarrow> unat (of_nat n :: uint8) = n"
  by (simp add: unat_of_nat)

lemma unat_count_words: "n < 128 \<Longrightarrow> unat (of_nat n * 2 :: uint8) = n * 2"
  using unat_count_byte [of "n * 2"] by simp

lemma be16_coil: "be16 0xFF 0 = 0xFF00" "be16 0 0 = 0"
  by (simp_all add: be16_def push_bit_eq_mult)

lemmas image_simps = enc_u16_def nth_append unat_count_byte unat_count_words be16_coil

subsection \<open>The message interface\<close>

text \<open>What \<open>is_message\<close> asks for, with its contract: the serialiser writes exactly the wire
  image, whose length is \<open>size()\<close> and which starts with the unit id and the function code byte.\<close>

locale message =
  fixes serialize :: "'m \<Rightarrow> buffer_iterator \<Rightarrow> buffer_iterator option"
    and size_of :: "'m \<Rightarrow> nat"
    and encode :: "'m \<Rightarrow> uint8 list"
  assumes serialize_encode: "serialize m it = put_bytes (encode m) it"
    and length_encode: "length (encode m) = size_of m"
    and size_min: "3 \<le> size_of m"
begin

lemma serialize_spec:
  "serialize m (b, p) =
     (if p + size_of m \<le> length b then Some (overwrite b p (encode m), p + size_of m) else None)"
  using size_min [of m] length_encode [of m] by (auto simp: serialize_encode put_bytes_spec)

lemma serialize_exact_fit:
  assumes "length b = p + size_of m"
  shows "serialize m (b, p) = Some (take p b @ encode m, length b)"
  using assms by (simp add: serialize_spec overwrite_all length_encode)

lemma serialize_keeps_length:
  "serialize m (b, p) = Some (b', p') \<Longrightarrow> length b' = length b \<and> p' = p + size_of m"
  by (auto simp: serialize_spec length_encode split: if_splits)

end

text \<open>A message class with a fixed function code: the parser returns what was serialised, from
  any buffer that holds the wire image at the iterator, for well-formed messages.\<close>

locale pdu_message = message serialize size_of encode
  for serialize :: "'m \<Rightarrow> buffer_iterator \<Rightarrow> buffer_iterator option"
    and size_of :: "'m \<Rightarrow> nat"
    and encode :: "'m \<Rightarrow> uint8 list" +
  fixes of_iterator :: "const_buffer_iterator \<Rightarrow> 'm option"
    and fcode :: function_code_t
    and wf :: "'m \<Rightarrow> bool"
  assumes of_iterator_encode: "wf m \<Longrightarrow> of_iterator (pre @ encode m @ post, length pre) = Some m"
    and encode_fcode: "encode m ! 1 = fcode"
    and fcode_msb: "\<not> bit fcode 7"
    and size_max: "wf m \<Longrightarrow> size_of m < 65536"
begin

lemma of_iterator_serialize:
  assumes "wf m" and "serialize m (b, p) = Some (b', p')"
  shows "of_iterator (b', p) = Some m"
proof -
  from assms(2) have "p + size_of m \<le> length b" and b': "b' = overwrite b p (encode m)"
    by (auto simp: serialize_spec split: if_splits)
  then have "length (take p b) = p" by simp
  with b' of_iterator_encode [OF assms(1), of "take p b" "drop (p + length (encode m)) b"]
  show ?thesis by (simp add: overwrite_def)
qed

end

text \<open>A message class with its \<open>operator==\<close> and \<open>operator!=\<close>: well-formed messages are equal when their
  wire images are.\<close>

locale comparable_pdu = pdu_message serialize size_of encode of_iterator fcode wf
  for serialize :: "'m \<Rightarrow> buffer_iterator \<Rightarrow> buffer_iterator option"
    and size_of :: "'m \<Rightarrow> nat"
    and encode :: "'m \<Rightarrow> uint8 list"
    and of_iterator :: "const_buffer_iterator \<Rightarrow> 'm option"
    and fcode :: function_code_t
    and wf :: "'m \<Rightarrow> bool" +
  fixes eq ne :: "'m \<Rightarrow> 'm \<Rightarrow> bool"
  assumes eq_iff: "eq x y \<longleftrightarrow> x = y"
    and ne_iff_not_eq: "ne x y \<longleftrightarrow> \<not> eq x y"
begin

lemma encode_inject: "wf x \<Longrightarrow> wf y \<Longrightarrow> encode x = encode y \<longleftrightarrow> x = y"
  by (metis of_iterator_encode option.inject)

lemma eq_iff_encode: "wf x \<Longrightarrow> wf y \<Longrightarrow> eq x y \<longleftrightarrow> encode x = encode y"
  by (simp add: eq_iff encode_inject)

end

text \<open>Where the parsers read. A \<open>fixed_pdu\<close> reads \<open>width\<close> bytes; a \<open>counted_pdu\<close> reads \<open>header\<close>
  bytes, then a count byte, then \<open>payload\<close> of that count.\<close>

locale fixed_pdu =
  fixes of_iterator :: "const_buffer_iterator \<Rightarrow> 'm option"
    and width :: nat
  assumes of_iterator_width: "of_iterator (b, p) \<noteq> None \<longleftrightarrow> p + width \<le> length b"

locale counted_pdu =
  fixes of_iterator :: "const_buffer_iterator \<Rightarrow> 'm option"
    and header :: nat
    and payload :: "uint8 \<Rightarrow> nat"
  assumes of_iterator_counted: "of_iterator (b, p) \<noteq> None \<longleftrightarrow>
      p + header < length b \<and> p + header + 1 + payload (b ! (p + header)) \<le> length b"
    and payload_le: "payload n \<le> unat n"
begin

lemma of_iterator_none:
  "of_iterator (b, p) = None \<longleftrightarrow>
     length b \<le> p + header \<or> length b < p + header + 1 + payload (b ! (p + header))"
  using of_iterator_counted [of b p] by (meson not_less)

lemma of_iterator_in_bounds:
  assumes "p + header < length b" and "p + header + 1 + unat (b ! (p + header)) \<le> length b"
  shows "of_iterator (b, p) \<noteq> None"
  using assms payload_le [of "b ! (p + header)"] unfolding of_iterator_counted by linarith

end

end
