(* ===== verification/Tcp_Data_Unit.thy ===== *)
theory Tcp_Data_Unit
  imports Message_Interface
begin

text \<open>
  core/tcp_data_unit.hpp and core/tcp_data_unit.cpp: the application data unit, a six byte header
  (transaction id, protocol id, length) followed by the unit id and the PDU.

  The object is the record of its two fields; \<open>m_buffer\<close> (\<open>buffer_\<close>) is the vector the \<open>shared_ptr\<close> points to.
  Constructors that throw return a \<open>result\<close>; the template constructor and \<open>pdu<T>\<close> take the
  operations of the message class \<open>T\<close> as arguments. \<open>pdu\<close> catches every C++ exception
  (\<open>catch (...)\<close>) and returns \<^const>\<open>None\<close>; undefined behaviour of the parser is not an
  exception and stays \<open>Inl undefined_behaviour\<close>.

  The lemmas hold for any message class through the locales of \<open>Message_Interface\<close>.
\<close>

subsection \<open>State and constructors\<close>

record tcp_data_unit =
  m_buffer :: buffer_t
  m_type :: message_type

definition tcp_data_unit_empty :: tcp_data_unit where
  "tcp_data_unit_empty = \<lparr>m_buffer = [], m_type = invalid_pdu_type\<rparr>"

definition tcp_data_unit_of_pdu ::
  "('m \<Rightarrow> nat) \<Rightarrow> ('m \<Rightarrow> buffer_iterator \<Rightarrow> buffer_iterator option) \<Rightarrow> message_type \<Rightarrow>
   uint16 \<Rightarrow> 'm \<Rightarrow> tcp_data_unit option" where
  "tcp_data_unit_of_pdu size_of serialize ty transactionId pdu =
     (let len = (of_nat (size_of pdu) :: size_t);
          buf = vec_resize [] (TCP_HEADER_SIZE + size_of pdu)
      in do {
        it \<leftarrow> put (ucast (drop_bit 8 transactionId)) (buf, 0);
        it \<leftarrow> put (ucast transactionId) it;
        it \<leftarrow> put (ucast (drop_bit 8 PROTOCOL_ID)) it;
        it \<leftarrow> put (ucast PROTOCOL_ID) it;
        it \<leftarrow> put (ucast (drop_bit 8 len)) it;
        it \<leftarrow> put (ucast len) it;
        (buf, _) \<leftarrow> serialize pdu it;
        Some \<lparr>m_buffer = buf, m_type = ty\<rparr> })"

definition tcp_data_unit_of_buffer ::
  "buffer_t \<Rightarrow> size_t \<Rightarrow> message_type \<Rightarrow> tcp_data_unit result" where
  "tcp_data_unit_of_buffer buf bytesRead ty =
     res_bind (vec_at buf 4) (\<lambda>h.
     res_bind (vec_at buf 5) (\<lambda>l.
       let messageLength = push_bit 8 (uint h) + uint l;
           dataLength = sint (ucast (bytesRead - of_nat TCP_HEADER_SIZE) :: uint32)
       in if dataLength \<le> 0 \<or> dataLength < messageLength then Inl out_of_range
          else Inr \<lparr>m_buffer = buf, m_type = ty\<rparr>))"

definition tcp_data_unit_of_header_payload ::
  "buffer_t \<Rightarrow> buffer_t \<Rightarrow> size_t \<Rightarrow> message_type \<Rightarrow> tcp_data_unit result" where
  "tcp_data_unit_of_header_payload header payload bytesRead ty =
     res_bind (vec_at header 2) (\<lambda>p1.
     res_bind (if p1 \<noteq> 0 then Inr True else res_bind (vec_at header 3) (\<lambda>p2. Inr (p2 \<noteq> 0))) (\<lambda>bad.
     if bad then Inl invalid_argument
     else
     res_bind (vec_at header 4) (\<lambda>h.
     res_bind (vec_at header 5) (\<lambda>l.
       let messageLength = push_bit 8 (uint h) + uint l
       in if bytesRead \<le> 0 \<or> bytesRead < word_of_int messageLength then Inl out_of_range
          else Inr \<lparr>m_buffer = header @ payload, m_type = ty\<rparr>))))"

subsection \<open>Accessors\<close>

text \<open>Two checked writes: when the second throws, the first has been done. The result is the
  object afterwards and the exception, if any.\<close>

definition set_transaction_id :: "uint16 \<Rightarrow> tcp_data_unit \<Rightarrow> tcp_data_unit \<times> cpp_error option" where
  "set_transaction_id transactionId du =
     (case vec_set (m_buffer du) 0 (ucast (drop_bit 8 transactionId)) of
        None \<Rightarrow> (du, Some out_of_range)
      | Some b \<Rightarrow> (case vec_set b 1 (ucast (transactionId AND 0x00FF)) of
            None \<Rightarrow> (du\<lparr>m_buffer := b\<rparr>, Some out_of_range)
          | Some b' \<Rightarrow> (du\<lparr>m_buffer := b'\<rparr>, None)))"

definition transaction_id :: "tcp_data_unit \<Rightarrow> uint16 result" where
  "transaction_id du =
     res_bind (vec_at (m_buffer du) 0) (\<lambda>h.
     res_bind (vec_at (m_buffer du) 1) (\<lambda>l. Inr (be16 h l)))"

definition message_length :: "tcp_data_unit \<Rightarrow> uint16 result" where
  "message_length du =
     res_bind (vec_at (m_buffer du) 4) (\<lambda>h.
     res_bind (vec_at (m_buffer du) 5) (\<lambda>l. Inr (be16 h l)))"

definition unit_id_of :: "tcp_data_unit \<Rightarrow> uint8 result" where
  "unit_id_of du = vec_at (m_buffer du) 6"

definition function_code :: "tcp_data_unit \<Rightarrow> function_code_t result" where
  "function_code du = res_bind (vec_at (m_buffer du) 7) (\<lambda>b. Inr (b AND 0x7F))"

definition is_exception :: "tcp_data_unit \<Rightarrow> bool result" where
  "is_exception du = res_bind (vec_at (m_buffer du) 7) (\<lambda>b. Inr (b AND 0x80 \<noteq> 0))"

definition exception_code_of :: "tcp_data_unit \<Rightarrow> exception_code_t result" where
  "exception_code_of du =
     res_bind (is_exception du) (\<lambda>ex.
       if \<not> ex then Inr (exception_code_value no_exception) else vec_at (m_buffer du) 8)"

definition du_type :: "tcp_data_unit \<Rightarrow> message_type" where
  "du_type du = m_type du"

definition du_buffer :: "tcp_data_unit \<Rightarrow> buffer_t" where
  "du_buffer du = m_buffer du"

subsection \<open>The PDU\<close>

text \<open>\<open>try { ... } catch (...) { return std::nullopt; }\<close>\<close>

definition catch_all :: "'a option result \<Rightarrow> 'a option result" where
  "catch_all m = (case m of
      Inl undefined_behaviour \<Rightarrow> Inl undefined_behaviour
    | Inl _ \<Rightarrow> Inr None
    | Inr x \<Rightarrow> Inr x)"

text \<open>\<open>T pdu(it)\<close> with \<open>it\<close> six bytes into the buffer.\<close>

definition parse_pdu :: "(const_buffer_iterator \<Rightarrow> 'm option) \<Rightarrow> tcp_data_unit \<Rightarrow> 'm option result" where
  "parse_pdu of_iterator du =
     ub (do { it \<leftarrow> advance (m_buffer du, 0) TCP_HEADER_SIZE;
              m \<leftarrow> of_iterator it;
              Some (Some m) })"

definition pdu ::
  "function_code_t \<Rightarrow> message_type \<Rightarrow> (const_buffer_iterator \<Rightarrow> 'm option) \<Rightarrow> tcp_data_unit \<Rightarrow>
   'm option result" where
  "pdu fcode ty of_iterator du = catch_all (
     res_bind (is_exception du) (\<lambda>ex.
     if ex then Inr None
     else res_bind (function_code du) (\<lambda>fc.
     if fc \<noteq> fcode then Inr None
     else if m_type du \<noteq> ty then Inr None
     else if m_buffer du = [] then Inr None
     else parse_pdu of_iterator du)))"

definition pdu_exception ::
  "message_type \<Rightarrow> (const_buffer_iterator \<Rightarrow> 'm option) \<Rightarrow> tcp_data_unit \<Rightarrow> 'm option result" where
  "pdu_exception ty of_iterator du = catch_all (
     res_bind (is_exception du) (\<lambda>ex.
     if \<not> ex then Inr None
     else if m_type du \<noteq> ty then Inr None
     else if m_buffer du = [] then Inr None
     else parse_pdu of_iterator du))"

subsection \<open>The wire image of a data unit\<close>

text \<open>The MBAP header as the MODBUS standard lays it out; a length that does not fit 16 bits is
  taken modulo \<open>2 ^ 16\<close>, as the constructor does.\<close>

definition mbap :: "uint16 \<Rightarrow> nat \<Rightarrow> uint8 list" where
  "mbap tid n = enc_u16 tid @ [0, 0] @ enc_u16 (of_nat n)"

text \<open>A data unit carries a message: it can be built from it, its accessors report the transaction,
  the length and the function code, \<open>pdu<T>\<close> gives the message back, and so it does after the bytes
  have been read into a larger buffer (the server session and the client both read into a vector of
  \<open>MAX_APU_SIZE\<close> bytes and pass it whole with the number of bytes read).\<close>

definition carries ::
  "('m \<Rightarrow> nat) \<Rightarrow> ('m \<Rightarrow> buffer_iterator \<Rightarrow> buffer_iterator option) \<Rightarrow>
   (const_buffer_iterator \<Rightarrow> 'm option) \<Rightarrow> function_code_t \<Rightarrow> message_type \<Rightarrow> uint16 \<Rightarrow> 'm \<Rightarrow> bool" where
  "carries size_of serialize of_iterator fcode ty tid m \<longleftrightarrow>
     (\<exists>du. tcp_data_unit_of_pdu size_of serialize ty tid m = Some du
       \<and> transaction_id du = Inr tid
       \<and> message_length du = Inr (of_nat (size_of m))
       \<and> length (du_buffer du) = TCP_HEADER_SIZE + size_of m
       \<and> function_code du = Inr fcode \<and> is_exception du = Inr False
       \<and> pdu fcode ty of_iterator du = Inr (Some m)
       \<and> (\<forall>rest. \<exists>du'.
             tcp_data_unit_of_buffer (du_buffer du @ rest) (of_nat (length (du_buffer du))) ty = Inr du'
             \<and> transaction_id du' = Inr tid \<and> pdu fcode ty of_iterator du' = Inr (Some m)))"

text \<open>The data unit of a message answers no other question: asked for a message with another function
  code or of the other direction, \<open>pdu<T>\<close> returns nothing, whatever \<open>T\<close> parses.\<close>

definition answers_only ::
  "('m \<Rightarrow> nat) \<Rightarrow> ('m \<Rightarrow> buffer_iterator \<Rightarrow> buffer_iterator option) \<Rightarrow> function_code_t \<Rightarrow>
   message_type \<Rightarrow> uint16 \<Rightarrow> 'm \<Rightarrow> (const_buffer_iterator \<Rightarrow> 'n option) \<Rightarrow> bool" where
  "answers_only size_of serialize fcode ty tid m parser \<longleftrightarrow>
     (\<forall>du fc ty'. tcp_data_unit_of_pdu size_of serialize ty tid m = Some du \<longrightarrow>
        fc \<noteq> fcode \<or> ty' \<noteq> ty \<longrightarrow> pdu fc ty' parser du = Inr None)"

text \<open>Two messages are compared by what they put on the wire: \<open>==\<close> holds exactly when their data units are
  the same, and \<open>!=\<close> exactly when these differ.\<close>

definition compared_by_wire ::
  "('m \<Rightarrow> nat) \<Rightarrow> ('m \<Rightarrow> buffer_iterator \<Rightarrow> buffer_iterator option) \<Rightarrow> message_type \<Rightarrow>
   ('m \<Rightarrow> 'm \<Rightarrow> bool) \<Rightarrow> ('m \<Rightarrow> 'm \<Rightarrow> bool) \<Rightarrow> uint16 \<Rightarrow> 'm \<Rightarrow> 'm \<Rightarrow> bool" where
  "compared_by_wire size_of serialize ty eq ne tid x y \<longleftrightarrow>
     (eq x y \<longleftrightarrow> tcp_data_unit_of_pdu size_of serialize ty tid x = tcp_data_unit_of_pdu size_of serialize ty tid y)
     \<and> (ne x y \<longleftrightarrow> tcp_data_unit_of_pdu size_of serialize ty tid x \<noteq> tcp_data_unit_of_pdu size_of serialize ty tid y)"

lemmas du_defs = transaction_id_def message_length_def unit_id_of_def function_code_def
  is_exception_def exception_code_of_def

lemma lo8_ucast: "lo8 w = ucast w"
  unfolding lo8_def byte_mask by (rule bit_word_eqI) (auto simp: bit_simps)

lemma length_mbap [simp]: "length (mbap tid n) = 6"
  by (simp add: mbap_def)

lemma vec_resize_Nil: "vec_resize [] n = replicate n 0"
  by (simp add: vec_resize_def)

lemma hi_byte_size: "(ucast (drop_bit 8 (of_nat n :: size_t)) :: uint8) = hi8 (of_nat n)"
  unfolding hi8_def by (rule bit_word_eqI) (auto simp: bit_simps bit_of_nat_iff)

lemma lo_byte_size: "(ucast (of_nat n :: size_t) :: uint8) = lo8 (of_nat n)"
  unfolding lo8_ucast by (rule bit_word_eqI) (auto simp: bit_simps bit_of_nat_iff)

lemma bit_0x80: "(b AND 0x80 = 0) \<longleftrightarrow> \<not> bit (b :: uint8) 7"
  using and_exp_eq_0_iff_not_bit [of b 7] by simp

lemma and_0x7F: "\<not> bit (b :: uint8) 7 \<Longrightarrow> b AND 0x7F = b"
proof (rule bit_word_eqI)
  fix n assume b: "\<not> bit b 7" and n: "n < LENGTH(8)"
  have m: "(0x7F :: uint8) = mask 7" by (simp add: mask_eq_exp_minus_1)
  show "bit (b AND 0x7F) n = bit b n"
    using b n unfolding m by (cases "n = 7") (auto simp: bit_simps)
qed

lemma put_header:
  "do { it \<leftarrow> put a (replicate (6 + n) 0, 0);
        it \<leftarrow> put b it;
        it \<leftarrow> put c it;
        it \<leftarrow> put d it;
        it \<leftarrow> put e it;
        it \<leftarrow> put f it;
        g it } = g ([a, b, c, d, e, f] @ replicate n 0, 6)"
  by (simp add: numeral_eq_Suc)

lemma mbap_nth [simp]:
  "(mbap tid n @ xs) ! 0 = hi8 tid" "(mbap tid n @ xs) ! Suc 0 = lo8 tid"
  "(mbap tid n @ xs) ! 4 = hi8 (of_nat n)" "(mbap tid n @ xs) ! 5 = lo8 (of_nat n)"
  "(mbap tid n @ xs) ! 6 = xs ! 0" "(mbap tid n @ xs) ! 7 = xs ! 1"
  by (simp_all add: mbap_def enc_u16_def numeral_eq_Suc)

lemma mbap_transaction_id [simp]:
  "transaction_id \<lparr>m_buffer = mbap tid n @ xs, m_type = ty\<rparr> = Inr tid"
  by (simp add: transaction_id_def vec_simps)

lemma mbap_message_length [simp]:
  "message_length \<lparr>m_buffer = mbap tid n @ xs, m_type = ty\<rparr> = Inr (of_nat n)"
  by (simp add: message_length_def vec_simps)

lemma mbap_unit_id [simp]:
  "xs \<noteq> [] \<Longrightarrow> unit_id_of \<lparr>m_buffer = mbap tid n @ xs, m_type = ty\<rparr> = Inr (xs ! 0)"
  by (simp add: unit_id_of_def vec_simps)

lemma mbap_function_code [simp]:
  "1 < length xs \<Longrightarrow>
     function_code \<lparr>m_buffer = mbap tid n @ xs, m_type = ty\<rparr> = Inr (xs ! 1 AND 0x7F)"
  by (simp add: function_code_def vec_simps)

lemma mbap_is_exception [simp]:
  "1 < length xs \<Longrightarrow>
     is_exception \<lparr>m_buffer = mbap tid n @ xs, m_type = ty\<rparr> = Inr (bit (xs ! 1) 7)"
  by (simp add: is_exception_def vec_simps bit_0x80)

lemma mbap_parse_pdu [simp]:
  "parse_pdu of_iterator \<lparr>m_buffer = mbap tid n @ xs, m_type = ty\<rparr> =
     ub (map_option Some (of_iterator (mbap tid n @ xs, 6)))"
  by (cases "of_iterator (mbap tid n @ xs, 6)") (simp_all add: parse_pdu_def)

lemma catch_all_simps [simp]: "catch_all (Inr x) = Inr x"
  by (simp add: catch_all_def)

lemma data_length_read:
  assumes "n < 65536"
  shows "sint (ucast (of_nat (6 + n) - 6 :: size_t) :: uint32) = int n"
proof -
  have "(ucast (of_nat n :: size_t) :: uint32) = of_nat n"
    using assms by (simp add: unsigned_of_nat take_bit_nat_eq_self)
  moreover have "sint (of_nat n :: uint32) = int n"
    using assms by (simp add: signed_of_nat signed_take_bit_int_eq_self)
  ultimately show ?thesis by simp
qed

lemma mbap_length_int:
  assumes "n < 65536"
  shows "push_bit 8 (uint (hi8 (of_nat n))) + uint (lo8 (of_nat n)) = int n"
proof -
  have "uint (hi8 (of_nat n)) = int (n div 256)" "uint (lo8 (of_nat n)) = int (n mod 256)"
    using assms by (simp_all add: uint_nat unat_hi8 unat_lo8 unat_of_nat)
  moreover have "int (n div 256) * 256 + int (n mod 256) = int n"
    unfolding zdiv_int zmod_int by simp
  ultimately show ?thesis by (simp add: push_bit_eq_mult)
qed

lemma of_buffer_mbap:
  assumes "0 < n" "n < 65536"
  shows "tcp_data_unit_of_buffer (mbap tid n @ xs) (of_nat (TCP_HEADER_SIZE + n)) ty =
    Inr \<lparr>m_buffer = mbap tid n @ xs, m_type = ty\<rparr>"
  using assms data_length_read [OF assms(2)]
  by (simp add: tcp_data_unit_of_buffer_def vec_simps mbap_length_int Let_def del: of_nat_add)

subsection \<open>Data units built from a message\<close>

context message
begin

lemma tcp_data_unit_of_pdu_image:
  "tcp_data_unit_of_pdu size_of serialize ty tid m =
     Some \<lparr>m_buffer = mbap tid (size_of m) @ encode m, m_type = ty\<rparr>"
  unfolding tcp_data_unit_of_pdu_def Let_def vec_resize_Nil TCP_HEADER_SIZE_def put_header
  by (simp add: serialize_exact_fit mbap_def enc_u16_def hi_byte_size lo_byte_size lo8_ucast
      hi8_def)

end

context pdu_message
begin

lemma encode_length_gt_1 [simp]: "1 < length (encode m)" "Suc 0 < length (encode m)"
  using size_min [of m] by (simp_all add: length_encode)

lemma data_unit_code:
  "function_code \<lparr>m_buffer = mbap tid (size_of m) @ encode m, m_type = ty\<rparr> = Inr fcode"
  "is_exception \<lparr>m_buffer = mbap tid (size_of m) @ encode m, m_type = ty\<rparr> = Inr False"
  using encode_fcode [of m] fcode_msb by (simp_all add: and_0x7F)

lemma pdu_image:
  assumes "wf m"
  shows "pdu fcode ty of_iterator \<lparr>m_buffer = mbap tid (size_of m) @ encode m, m_type = ty\<rparr> =
    Inr (Some m)"
  using of_iterator_encode [OF assms, of "mbap tid (size_of m)" "[]"]
  by (simp add: pdu_def data_unit_code res_bind_def ub_def del: mbap_function_code mbap_is_exception)
    (simp add: mbap_def)

lemma pdu_mismatch:
  assumes "fc \<noteq> fcode \<or> ty \<noteq> ty'"
  shows "pdu fc ty' parser \<lparr>m_buffer = mbap tid (size_of m) @ encode m, m_type = ty\<rparr> = Inr None"
  using assms
  by (auto simp: pdu_def data_unit_code res_bind_def simp del: mbap_function_code mbap_is_exception)

text \<open>A message put in a data unit and taken out again is the same message; asking the data unit
  for a message with another function code or direction gives nothing.\<close>

lemma data_unit_roundtrip:
  assumes "wf m"
  shows "\<exists>du. tcp_data_unit_of_pdu size_of serialize ty tid m = Some du
    \<and> pdu fcode ty of_iterator du = Inr (Some m)
    \<and> transaction_id du = Inr tid \<and> function_code du = Inr fcode \<and> is_exception du = Inr False
    \<and> message_length du = Inr (of_nat (size_of m))"
  using pdu_image [OF assms] data_unit_code
  by (simp add: tcp_data_unit_of_pdu_image del: mbap_function_code mbap_is_exception)

lemma received_not_exception:
  "is_exception \<lparr>m_buffer = mbap tid n @ encode m @ rest, m_type = ty\<rparr> = Inr False"
  "function_code \<lparr>m_buffer = mbap tid n @ encode m @ rest, m_type = ty\<rparr> = Inr fcode"
proof -
  have "1 < length (encode m @ rest)" "(encode m @ rest) ! 1 = fcode"
    using size_min [of m] encode_fcode [of m] by (simp_all add: nth_append length_encode)
  then show "is_exception \<lparr>m_buffer = mbap tid n @ encode m @ rest, m_type = ty\<rparr> = Inr False"
    "function_code \<lparr>m_buffer = mbap tid n @ encode m @ rest, m_type = ty\<rparr> = Inr fcode"
    using fcode_msb and_0x7F [OF fcode_msb] by (simp_all only: mbap_is_exception mbap_function_code)
qed

text \<open>The message at the front of a received data unit is found whatever the length field says.\<close>

lemma pdu_received:
  assumes "wf m"
  shows "pdu fcode ty of_iterator \<lparr>m_buffer = mbap tid n @ encode m @ rest, m_type = ty\<rparr> = Inr (Some m)"
  using of_iterator_encode [OF assms, of "mbap tid n" rest] received_not_exception [of tid n m rest ty]
  by (simp add: pdu_def res_bind_def ub_def del: mbap_function_code mbap_is_exception)
    (simp add: mbap_def)

lemma carries_wf:
  assumes "wf m"
  shows "carries size_of serialize of_iterator fcode ty tid m"
proof -
  let ?b = "mbap tid (size_of m) @ encode m"
  have "tcp_data_unit_of_buffer (?b @ rest) (of_nat (length ?b)) ty =
      Inr \<lparr>m_buffer = mbap tid (size_of m) @ encode m @ rest, m_type = ty\<rparr>" for rest
    using of_buffer_mbap [of "size_of m" tid "encode m @ rest" ty] size_max [OF assms] size_min [of m]
    by (simp add: length_encode TCP_HEADER_SIZE_def)
  then show ?thesis
    unfolding carries_def using pdu_image [OF assms] pdu_received [OF assms] data_unit_code
    by (simp add: tcp_data_unit_of_pdu_image du_buffer_def length_encode TCP_HEADER_SIZE_def
        del: mbap_function_code mbap_is_exception)
qed

lemma answers_only_own: "answers_only size_of serialize fcode ty tid m parser"
  unfolding answers_only_def tcp_data_unit_of_pdu_image by (auto simp: pdu_mismatch)

end

context comparable_pdu
begin

lemma compared:
  assumes "wf x" "wf y"
  shows "compared_by_wire size_of serialize ty eq ne tid x y"
  using eq_iff_encode [OF assms] ne_iff_not_eq [of x y]
  by (auto simp: compared_by_wire_def tcp_data_unit_of_pdu_image simp flip: length_encode)

end

subsection \<open>Properties\<close>

lemma data_length_int:
  assumes "n < 2 ^ 31"
  shows "sint (ucast (of_nat n - 6 :: size_t) :: uint32) = int n - 6"
proof -
  have "(ucast (of_int (int n - 6) :: size_t) :: uint32) = of_int (int n - 6)"
    by transfer simp
  then have "(ucast (of_nat n - 6 :: size_t) :: uint32) = of_int (int n - 6)" by simp
  moreover have "sint (of_int (int n - 6) :: uint32) = int n - 6"
    using assms by (simp only: signed_of_int) (simp add: signed_take_bit_int_eq_self)
  ultimately show ?thesis by simp
qed

lemma length_field_int: "push_bit 8 (uint (h :: uint8)) + uint (l :: uint8) = int (256 * unat h + unat l)"
  by (simp add: push_bit_eq_mult)



text \<open>The constructor from a header and a payload throws \<open>std::invalid_argument\<close> exactly on a
  protocol id other than 0, \<open>std::out_of_range\<close> when less was read than the length field announces,
  and otherwise holds the header followed by the payload.\<close>

lemma data_unit_of_header_payload_cases:
  assumes "6 \<le> length header" "n < 2 ^ 64"
  shows "tcp_data_unit_of_header_payload header payload (of_nat n) ty =
    (if header ! 2 \<noteq> 0 \<or> header ! 3 \<noteq> 0 then Inl invalid_argument
     else if n = 0 \<or> n < 256 * unat (header ! 4) + unat (header ! 5) then Inl out_of_range
     else Inr \<lparr>m_buffer = header @ payload, m_type = ty\<rparr>)"
proof -
  let ?l = "256 * unat (header ! 4) + unat (header ! 5)"
  have "?l < 65536" using unat_byte [of "header ! 4"] unat_byte [of "header ! 5"] by linarith
  then have "?l < 2 ^ 64" by simp
  then have "((of_nat n :: size_t) < of_nat ?l) = (n < ?l)" "((of_nat n :: size_t) \<le> 0) = (n = 0)"
    using assms(2) size_t_less_iff [of n ?l] size_t_eq_iff [of n 0] by simp_all
  then show ?thesis
    using assms(1) unfolding tcp_data_unit_of_header_payload_def length_field_int of_int_of_nat_eq
    by (simp add: vec_simps Let_def del: of_nat_add of_nat_mult)
qed

text \<open>\<open>set_transaction_id\<close> then \<open>transaction_id\<close> gives the id back, and nothing but the first two
  bytes changes; on a buffer of fewer than two bytes it throws \<open>std::out_of_range\<close>.\<close>

lemma set_transaction_id_get:
  "(2 \<le> length (m_buffer du) \<longrightarrow>
      (\<exists>du'. set_transaction_id t du = (du', None) \<and> transaction_id du' = Inr t
        \<and> drop 2 (m_buffer du') = drop 2 (m_buffer du)
        \<and> length (m_buffer du') = length (m_buffer du) \<and> m_type du' = m_type du))
   \<and> (length (m_buffer du) < 2 \<longrightarrow> snd (set_transaction_id t du) = Some out_of_range)"
proof (intro conjI impI)
  assume l: "2 \<le> length (m_buffer du)"
  then have l2: "0 < length (m_buffer du)" "1 < length (m_buffer du)" by linarith+
  let ?b = "(m_buffer du)[0 := hi8 t, Suc 0 := lo8 t]"
  have "set_transaction_id t du = (du\<lparr>m_buffer := ?b\<rparr>, None)"
    using l2 by (simp add: set_transaction_id_def hi8_def lo8_def)
  moreover have "transaction_id (du\<lparr>m_buffer := ?b\<rparr>) = Inr t"
    using l2 by (simp add: transaction_id_def vec_simps)
  ultimately show "\<exists>du'. set_transaction_id t du = (du', None) \<and> transaction_id du' = Inr t
      \<and> drop 2 (m_buffer du') = drop 2 (m_buffer du)
      \<and> length (m_buffer du') = length (m_buffer du) \<and> m_type du' = m_type du"
    by (intro exI [of _ "du\<lparr>m_buffer := ?b\<rparr>"]) simp
next
  assume "length (m_buffer du) < 2"
  then show "snd (set_transaction_id t du) = Some out_of_range"
    by (cases "m_buffer du") (simp_all add: set_transaction_id_def vec_set_def)
qed

text \<open>\<open>pdu<T>\<close> never throws, whatever the buffer holds: a buffer too short for a function code, an
  exception, another code or another direction gives \<open>std::nullopt\<close>, and the only way left to fail is
  a parser that reads outside the buffer.\<close>

lemma pdu_never_throws:
  "(pdu fcode ty parser du = Inl e \<longrightarrow>
      e = undefined_behaviour \<and> parser (m_buffer du, TCP_HEADER_SIZE) = None)
   \<and> (length (m_buffer du) < 8 \<longrightarrow> pdu fcode ty parser du = Inr None)"
  by (cases e)
    (auto simp: pdu_def catch_all_def parse_pdu_def du_defs vec_simps
      split: if_splits sum.splits option.splits cpp_error.splits bind_splits)

end
