(* ===== verification/Shared_Buffers.thy ===== *)
theory Shared_Buffers
  imports Tcp_Data_Unit
begin

text \<open>
  The objects behind \<open>tcp_data_unit\<close>: \<open>buffer_\<close> is a \<open>std::shared_ptr\<close>, and the copy and move operations of
  core/tcp_data_unit.hpp are defaulted, so a copy shares the bytes of the original and a moved-from object
  holds a null pointer. The other theories treat a data unit as a value; this one shows when that is right.

  The store has the buffers with their use counts and the objects by name. A constructor makes its buffer at
  an address that is not in use; releasing the last pointer to a buffer frees it. \<open>unit_value\<close> is the value
  of an object, and \<open>value_step\<close> what an operation does to values.
\<close>

subsection \<open>Shared pointers\<close>

type_synonym buffer_ptr = nat
type_synonym buffer_heap = "buffer_ptr \<rightharpoonup> nat \<times> buffer_t"

text \<open>One pointer more, one pointer less; a null pointer counts nowhere.\<close>

fun retain :: "buffer_ptr option \<Rightarrow> buffer_heap \<Rightarrow> buffer_heap" where
  "retain None h = h"
| "retain (Some a) h = (case h a of None \<Rightarrow> h | Some (n, b) \<Rightarrow> h(a \<mapsto> (Suc n, b)))"

fun release :: "buffer_ptr option \<Rightarrow> buffer_heap \<Rightarrow> buffer_heap" where
  "release None h = h"
| "release (Some a) h = (case h a of
     None \<Rightarrow> h
   | Some (n, b) \<Rightarrow> if n \<le> 1 then h(a := None) else h(a \<mapsto> (n - 1, b)))"

subsection \<open>Objects\<close>

record unit_object =
  uo_buffer :: "buffer_ptr option"
  uo_type :: message_type

type_synonym unit_name = nat

record unit_store =
  us_heap :: buffer_heap
  us_objects :: "unit_name \<rightharpoonup> unit_object"

definition empty_store :: unit_store where
  "empty_store = \<lparr>us_heap = Map.empty, us_objects = Map.empty\<rparr>"

definition pointer_of :: "unit_store \<Rightarrow> unit_name \<Rightarrow> buffer_ptr option" where
  "pointer_of st x = us_objects st x \<bind> uo_buffer"

definition object_value :: "buffer_heap \<Rightarrow> unit_object \<Rightarrow> tcp_data_unit option" where
  "object_value h ob = do {
     a \<leftarrow> uo_buffer ob;
     (_, b) \<leftarrow> h a;
     Some \<lparr>m_buffer = b, m_type = uo_type ob\<rparr> }"

definition unit_value :: "unit_store \<Rightarrow> unit_name \<Rightarrow> tcp_data_unit option" where
  "unit_value st x = us_objects st x \<bind> object_value (us_heap st)"

text \<open>A constructor that computes the data unit \<open>du\<close> puts its bytes in a new buffer.\<close>

definition unit_construct :: "unit_name \<Rightarrow> buffer_ptr \<Rightarrow> tcp_data_unit \<Rightarrow> unit_store \<Rightarrow> unit_store" where
  "unit_construct x a du st =
     st\<lparr>us_heap := (us_heap st)(a \<mapsto> (1, m_buffer du)),
        us_objects := (us_objects st)(x \<mapsto> \<lparr>uo_buffer = Some a, uo_type = m_type du\<rparr>)\<rparr>"

text \<open>\<open>x\<close> is made from the object \<open>y\<close> (\<open>ob\<close>): by copy, and by move.\<close>

definition unit_copy_construct :: "unit_name \<Rightarrow> unit_object \<Rightarrow> unit_store \<Rightarrow> unit_store" where
  "unit_copy_construct x ob st =
     st\<lparr>us_heap := retain (uo_buffer ob) (us_heap st), us_objects := (us_objects st)(x \<mapsto> ob)\<rparr>"

definition unit_move_construct :: "unit_name \<Rightarrow> unit_name \<Rightarrow> unit_object \<Rightarrow> unit_store \<Rightarrow> unit_store" where
  "unit_move_construct x y ob st =
     st\<lparr>us_objects := (us_objects st)(y \<mapsto> ob\<lparr>uo_buffer := None\<rparr>, x \<mapsto> ob)\<rparr>"

text \<open>\<open>x = y\<close> and \<open>x = std::move(y)\<close> for objects that exist: the new pointer is taken before the old one is
  released.\<close>

definition unit_copy_assign :: "unit_name \<Rightarrow> unit_object \<Rightarrow> unit_store \<Rightarrow> unit_store" where
  "unit_copy_assign x ob st =
     st\<lparr>us_heap := release (pointer_of st x) (retain (uo_buffer ob) (us_heap st)),
        us_objects := (us_objects st)(x \<mapsto> ob)\<rparr>"

definition unit_move_assign :: "unit_name \<Rightarrow> unit_name \<Rightarrow> unit_object \<Rightarrow> unit_store \<Rightarrow> unit_store" where
  "unit_move_assign x y ob st =
     (let st = st\<lparr>us_objects := (us_objects st)(y \<mapsto> ob\<lparr>uo_buffer := None\<rparr>)\<rparr>
      in st\<lparr>us_heap := release (pointer_of st x) (us_heap st), us_objects := (us_objects st)(x \<mapsto> ob)\<rparr>)"

definition unit_destroy :: "unit_name \<Rightarrow> unit_store \<Rightarrow> unit_store" where
  "unit_destroy x st =
     st\<lparr>us_heap := release (pointer_of st x) (us_heap st), us_objects := (us_objects st)(x := None)\<rparr>"

text \<open>\<open>set_transaction_id\<close> writes through the pointer; through a null pointer it is undefined.\<close>

definition unit_set_transaction_id :: "uint16 \<Rightarrow> unit_name \<Rightarrow> unit_store \<Rightarrow> unit_store \<times> cpp_error option" where
  "unit_set_transaction_id t x st =
     (case (pointer_of st x, unit_value st x) of
        (Some a, Some du) \<Rightarrow>
          (case set_transaction_id t du of (du', e) \<Rightarrow>
             (st\<lparr>us_heap := (us_heap st)(a := map_option (\<lambda>(n, b). (n, m_buffer du')) (us_heap st a))\<rparr>, e))
      | _ \<Rightarrow> (st, Some undefined_behaviour))"

subsection \<open>Runs\<close>

datatype unit_op =
    Construct unit_name buffer_ptr tcp_data_unit
  | Copy_construct unit_name unit_name
  | Move_construct unit_name unit_name
  | Copy_assign unit_name unit_name
  | Move_assign unit_name unit_name
  | Destroy unit_name
  | Set_transaction_id unit_name uint16

text \<open>An operation is executed on objects that exist, a constructor makes one that does not, and a write
  through a null pointer has no successor.\<close>

fun unit_exec :: "unit_op \<Rightarrow> unit_store \<Rightarrow> unit_store option" where
  "unit_exec (Construct x a du) st =
     (if us_objects st x = None \<and> us_heap st a = None then Some (unit_construct x a du st) else None)"
| "unit_exec (Copy_construct x y) st = (case us_objects st y of
     None \<Rightarrow> None
   | Some ob \<Rightarrow> if us_objects st x = None then Some (unit_copy_construct x ob st) else None)"
| "unit_exec (Move_construct x y) st = (case us_objects st y of
     None \<Rightarrow> None
   | Some ob \<Rightarrow> if us_objects st x = None then Some (unit_move_construct x y ob st) else None)"
| "unit_exec (Copy_assign x y) st = (case us_objects st y of
     None \<Rightarrow> None
   | Some ob \<Rightarrow> if us_objects st x \<noteq> None then Some (unit_copy_assign x ob st) else None)"
| "unit_exec (Move_assign x y) st = (case us_objects st y of
     None \<Rightarrow> None
   | Some ob \<Rightarrow> if us_objects st x \<noteq> None then Some (unit_move_assign x y ob st) else None)"
| "unit_exec (Destroy x) st = (if us_objects st x \<noteq> None then Some (unit_destroy x st) else None)"
| "unit_exec (Set_transaction_id x t) st = (case unit_set_transaction_id t x st of (st', e) \<Rightarrow>
     if e = Some undefined_behaviour then None else Some st')"

definition unit_run :: "unit_op list \<Rightarrow> unit_store \<Rightarrow> unit_store option" where
  "unit_run = run_all unit_exec"

subsection \<open>The use counts\<close>

definition holders :: "unit_store \<Rightarrow> buffer_ptr \<Rightarrow> unit_name set" where
  "holders st a = {x. pointer_of st x = Some a}"

text \<open>A buffer is in the heap exactly as long as an object points to it, with the number of these objects as
  its count.\<close>

definition store_inv :: "unit_store \<Rightarrow> bool" where
  "store_inv st \<longleftrightarrow> finite (dom (us_objects st))
     \<and> (\<forall>a. us_heap st a = None \<longrightarrow> holders st a = {})
     \<and> (\<forall>a n b. us_heap st a = Some (n, b) \<longrightarrow> 0 < n \<and> n = card (holders st a))"

subsection \<open>What an operation does to the values\<close>

definition shares :: "unit_store \<Rightarrow> unit_name \<Rightarrow> unit_name \<Rightarrow> bool" where
  "shares st x y \<longleftrightarrow> pointer_of st x \<noteq> None \<and> pointer_of st x = pointer_of st y"

fun value_step :: "(unit_name \<Rightarrow> unit_name \<Rightarrow> bool) \<Rightarrow> unit_op \<Rightarrow>
    (unit_name \<rightharpoonup> tcp_data_unit) \<Rightarrow> (unit_name \<rightharpoonup> tcp_data_unit)" where
  "value_step sh (Construct x a du) v = v(x \<mapsto> du)"
| "value_step sh (Copy_construct x y) v = v(x := v y)"
| "value_step sh (Move_construct x y) v = v(y := None, x := v y)"
| "value_step sh (Copy_assign x y) v = v(x := v y)"
| "value_step sh (Move_assign x y) v = v(y := None, x := v y)"
| "value_step sh (Destroy x) v = v(x := None)"
| "value_step sh (Set_transaction_id x t) v =
     (\<lambda>z. if sh x z then map_option (\<lambda>du. fst (set_transaction_id t du)) (v z) else v z)"

subsection \<open>Lemmas\<close>

lemma pointer_of_update [simp]:
  "pointer_of (st\<lparr>us_objects := (us_objects st)(x := ob)\<rparr>) z = (if z = x then ob \<bind> uo_buffer else pointer_of st z)"
  "pointer_of (st\<lparr>us_heap := h\<rparr>) z = pointer_of st z"
  "pointer_of (st\<lparr>us_heap := h, us_objects := (us_objects st)(x := ob)\<rparr>) z =
     (if z = x then ob \<bind> uo_buffer else pointer_of st z)"
  by (simp_all add: pointer_of_def)

lemma retain_apply:
  "retain p h a = (if p = Some a then map_option (\<lambda>(n, b). (Suc n, b)) (h a) else h a)"
  by (cases p) (auto split: option.splits)

lemma release_apply:
  "release p h a =
     (if p = Some a then (case h a of None \<Rightarrow> None | Some (n, b) \<Rightarrow> if n \<le> 1 then None else Some (n - 1, b))
      else h a)"
  by (cases p) (auto split: option.splits)

declare retain.simps [simp del] release.simps [simp del]

lemma store_invD:
  "store_inv st \<Longrightarrow> us_heap st a = Some (n, b) \<Longrightarrow> 0 < n \<and> n = card (holders st a)"
  unfolding store_inv_def by blast

lemma finite_holders: "finite (dom (us_objects st)) \<Longrightarrow> finite (holders st a)"
  by (rule finite_subset [of _ "dom (us_objects st)"]) (auto simp: holders_def pointer_of_def bind_eq_Some_conv)

text \<open>The step all operations but \<open>set_transaction_id\<close> are made of: \<open>x\<close> lets go of its pointer and takes
  another.\<close>

definition repoint :: "unit_name \<Rightarrow> unit_object option \<Rightarrow> unit_store \<Rightarrow> unit_store" where
  "repoint x ob st =
     st\<lparr>us_heap := release (pointer_of st x) (retain (ob \<bind> uo_buffer) (us_heap st)),
        us_objects := (us_objects st)(x := ob)\<rparr>"

lemma holders_repoint:
  "holders (repoint x ob st) a = (if ob \<bind> uo_buffer = Some a then insert x (holders st a) else holders st a - {x})"
  by (auto simp: holders_def repoint_def)

lemma repoint_heap:
  assumes "store_inv st" "\<forall>a. ob \<bind> uo_buffer = Some a \<longrightarrow> us_heap st a \<noteq> None"
  shows "us_heap (repoint x ob st) a =
    (case us_heap st a of None \<Rightarrow> None
     | Some (n, b) \<Rightarrow> if holders (repoint x ob st) a = {} then None else Some (card (holders (repoint x ob st) a), b))"
proof (cases "us_heap st a")
  case None
  with assms show ?thesis by (auto simp: repoint_def release_apply retain_apply)
next
  case (Some nb)
  then obtain n b where h: "us_heap st a = Some (n, b)" by (cases nb) simp
  have fin: "finite (holders st a)" and n: "n = card (holders st a)" "0 < n"
    using store_invD [OF assms(1) h] assms(1) finite_holders by (simp_all add: store_inv_def)
  have x: "pointer_of st x = Some a \<longleftrightarrow> x \<in> holders st a" by (simp add: holders_def)
  show ?thesis
    unfolding holders_repoint
    using h n fin x card_Suc_Diff1 [OF fin, of x] card_gt_0_iff [of "holders st a - {x}"]
    by (auto simp: repoint_def release_apply retain_apply card_insert_if)
qed

lemma inv_repoint:
  assumes "store_inv st" "\<forall>a. ob \<bind> uo_buffer = Some a \<longrightarrow> us_heap st a \<noteq> None"
  shows "store_inv (repoint x ob st)"
proof -
  have dom: "finite (dom (us_objects (repoint x ob st)))"
    using assms(1) by (auto simp: store_inv_def repoint_def intro: finite_subset [of _ "insert x (dom (us_objects st))"])
  have "holders (repoint x ob st) a = {}" if "us_heap st a = None" for a
    using that assms unfolding holders_repoint store_inv_def by auto
  then show ?thesis
    using dom finite_holders [OF dom] repoint_heap [OF assms, of x]
    unfolding store_inv_def by (auto split: option.splits if_splits simp: card_gt_0_iff)
qed

lemma object_value_cong:
  assumes "\<forall>a. uo_buffer ob = Some a \<longrightarrow> map_option snd (h a) = map_option snd (h' a)"
  shows "object_value h ob = object_value h' ob"
proof (cases "uo_buffer ob")
  case (Some a)
  with assms have "map_option snd (h a) = map_option snd (h' a)" by simp
  with Some show ?thesis by (cases "h a"; cases "h' a") (auto simp: object_value_def split: prod.splits)
qed (simp add: object_value_def)

lemma value_repoint:
  assumes "store_inv st" "\<forall>a. ob \<bind> uo_buffer = Some a \<longrightarrow> us_heap st a \<noteq> None"
  shows "unit_value (repoint x ob st) = (unit_value st)(x := ob \<bind> object_value (us_heap st))"
proof (rule ext)
  fix z
  let ?st = "repoint x ob st"
  have objects: "us_objects ?st = (us_objects st)(x := ob)" by (simp add: repoint_def)
  have "object_value (us_heap ?st) w = object_value (us_heap st) w" if "us_objects ?st z = Some w" for w
  proof (intro object_value_cong allI impI)
    fix a assume "uo_buffer w = Some a"
    with that have "z \<in> holders ?st a" by (simp add: holders_def pointer_of_def)
    with repoint_heap [OF assms, of x a]
    show "map_option snd (us_heap ?st a) = map_option snd (us_heap st a)"
      by (auto split: option.splits)
  qed
  then show "unit_value ?st z = ((unit_value st)(x := ob \<bind> object_value (us_heap st))) z"
    unfolding unit_value_def objects by (cases "us_objects ?st z") (auto simp: objects split: if_splits)
qed

text \<open>The operations as such steps. A pointer held by an object is in the heap.\<close>

lemma pointer_allocated:
  assumes "store_inv st" "us_objects st y = Some ob" "uo_buffer ob = Some a"
  shows "us_heap st a \<noteq> None"
proof
  assume "us_heap st a = None"
  then have "holders st a = {}" using assms(1) by (simp add: store_inv_def)
  moreover have "y \<in> holders st a" using assms(2,3) by (simp add: holders_def pointer_of_def)
  ultimately show False by simp
qed

lemma copy_construct_repoint:
  "us_objects st x = None \<Longrightarrow> unit_copy_construct x ob st = repoint x (Some ob) st"
  by (simp add: unit_copy_construct_def repoint_def pointer_of_def release.simps)

lemma copy_assign_repoint: "unit_copy_assign x ob st = repoint x (Some ob) st"
  by (simp add: unit_copy_assign_def repoint_def)

lemma destroy_repoint: "unit_destroy x st = repoint x None st"
  by (simp add: unit_destroy_def repoint_def retain.simps)

lemma release_after_retain:
  assumes "\<forall>a. p = Some a \<longrightarrow> (\<exists>n b. h a = Some (n, b) \<and> 0 < n)"
  shows "release p (release q (retain p h)) = release q h"
  using assms by (intro ext) (auto simp: release_apply retain_apply split: option.splits)

lemma move_assign_repoint:
  assumes "store_inv st" "us_objects st y = Some ob" "x \<noteq> y"
  shows "unit_move_assign x y ob st = repoint y (Some (ob\<lparr>uo_buffer := None\<rparr>)) (repoint x (Some ob) st)"
proof -
  have "\<forall>a. uo_buffer ob = Some a \<longrightarrow> (\<exists>n b. us_heap st a = Some (n, b) \<and> 0 < n)"
    using pointer_allocated [OF assms(1,2)] store_invD [OF assms(1)] by fastforce
  from release_after_retain [OF this, of "pointer_of st x"] assms(2,3) show ?thesis
    by (simp add: unit_move_assign_def Let_def repoint_def pointer_of_def retain.simps fun_upd_twist)
qed

lemma move_assign_self: "us_objects st y = Some ob \<Longrightarrow> unit_move_assign y y ob st = st"
  by (simp add: unit_move_assign_def release.simps fun_upd_idem)

lemma move_construct_repoint:
  assumes "store_inv st" "us_objects st y = Some ob" "us_objects st x = None"
  shows "unit_move_construct x y ob st = repoint y (Some (ob\<lparr>uo_buffer := None\<rparr>)) (repoint x (Some ob) st)"
proof -
  have "x \<noteq> y" using assms(2,3) by auto
  moreover have "unit_move_construct x y ob st = unit_move_assign x y ob st"
    using assms(2,3) \<open>x \<noteq> y\<close>
    by (simp add: unit_move_construct_def unit_move_assign_def pointer_of_def release.simps)
  ultimately show ?thesis using move_assign_repoint [OF assms(1,2)] by simp
qed

lemma inv_moved:
  assumes "store_inv st" "us_objects st y = Some ob" "x \<noteq> y"
  shows "store_inv (repoint y (Some (ob\<lparr>uo_buffer := None\<rparr>)) (repoint x (Some ob) st))"
    and "unit_value (repoint y (Some (ob\<lparr>uo_buffer := None\<rparr>)) (repoint x (Some ob) st)) =
      (unit_value st)(y := None, x := unit_value st y)"
proof -
  have p: "\<forall>a. Some ob \<bind> uo_buffer = Some a \<longrightarrow> us_heap st a \<noteq> None"
    using pointer_allocated [OF assms(1,2)] by simp
  note inv = inv_repoint [OF assms(1) p, of x]
  have null: "\<forall>a. Some (ob\<lparr>uo_buffer := None\<rparr>) \<bind> uo_buffer = Some a \<longrightarrow> us_heap (repoint x (Some ob) st) a \<noteq> None"
    by simp
  show "store_inv (repoint y (Some (ob\<lparr>uo_buffer := None\<rparr>)) (repoint x (Some ob) st))"
    by (rule inv_repoint [OF inv null])
  show "unit_value (repoint y (Some (ob\<lparr>uo_buffer := None\<rparr>)) (repoint x (Some ob) st)) =
      (unit_value st)(y := None, x := unit_value st y)"
    using value_repoint [OF inv null, of y] value_repoint [OF assms(1) p, of x] assms(2,3)
    by (simp add: unit_value_def object_value_def fun_upd_twist)
qed

lemma inv_construct:
  assumes "store_inv st" "us_objects st x = None" "us_heap st a = None"
  shows "store_inv (unit_construct x a du st)"
    and "unit_value (unit_construct x a du st) = (unit_value st)(x \<mapsto> du)"
proof -
  let ?st = "unit_construct x a du st"
  have hold: "holders ?st c = (if c = a then {x} else holders st c)" for c
    using assms by (auto simp: holders_def unit_construct_def pointer_of_def store_inv_def)
  have "finite (dom (us_objects ?st))" using assms(1) by (simp add: store_inv_def unit_construct_def)
  moreover have "us_heap ?st = (us_heap st)(a \<mapsto> (1, m_buffer du))" by (simp add: unit_construct_def)
  ultimately show "store_inv ?st" using assms(1) hold by (auto simp: store_inv_def)
  have "object_value (us_heap ?st) w = object_value (us_heap st) w" if "us_objects st z = Some w" for z w
    using pointer_allocated [OF assms(1) that] assms(3)
    by (intro object_value_cong) (auto simp: unit_construct_def)
  then have "unit_value ?st z = unit_value st z" if "z \<noteq> x" for z
    using that by (cases "us_objects st z") (simp_all add: unit_value_def unit_construct_def)
  moreover have "unit_value ?st x = Some du"
    by (simp add: unit_value_def unit_construct_def object_value_def)
  ultimately show "unit_value ?st = (unit_value st)(x \<mapsto> du)" by (intro ext) simp
qed

text \<open>The bytes \<open>set_transaction_id\<close> leaves depend on the bytes only.\<close>

lemma set_transaction_id_bytes:
  "m_buffer du = m_buffer du' \<Longrightarrow>
     fst (set_transaction_id t du') = du'\<lparr>m_buffer := m_buffer (fst (set_transaction_id t du))\<rparr>"
  by (auto simp: set_transaction_id_def split: option.splits)

lemma set_transaction_id_defined: "snd (set_transaction_id t du) \<noteq> Some undefined_behaviour"
  by (auto simp: set_transaction_id_def split: option.splits)

lemma set_transaction_id_step:
  assumes "store_inv st" "unit_exec (Set_transaction_id x t) st = Some st'"
  shows "store_inv st'"
    and "unit_value st' = value_step (shares st) (Set_transaction_id x t) (unit_value st)"
proof -
  obtain a du where a: "pointer_of st x = Some a" "unit_value st x = Some du"
    and st': "st' = st\<lparr>us_heap := (us_heap st)(a := map_option (\<lambda>(n, b).
        (n, m_buffer (fst (set_transaction_id t du)))) (us_heap st a))\<rparr>"
    using assms(2) by (auto simp: unit_set_transaction_id_def split: option.splits prod.splits if_splits)
  have "holders st' = holders st" unfolding st' by (simp add: holders_def fun_eq_iff)
  then show "store_inv st'" using assms(1) unfolding st' by (auto simp: store_inv_def split: if_splits)
  have other: "unit_value st' z = unit_value st z" if "pointer_of st z \<noteq> Some a" for z
    using that unfolding st'
    by (cases "us_objects st z") (auto simp: unit_value_def pointer_of_def intro!: object_value_cong)
  obtain n where n: "us_heap st a = Some (n, m_buffer du)"
    using a by (auto simp: unit_value_def pointer_of_def object_value_def bind_eq_Some_conv)
  have same: "unit_value st' z = map_option (\<lambda>du. fst (set_transaction_id t du)) (unit_value st z)"
    if z: "pointer_of st z = Some a" for z
  proof -
    obtain w where w: "us_objects st z = Some w" "uo_buffer w = Some a"
      using z by (auto simp: pointer_of_def bind_eq_Some_conv)
    let ?v = "\<lparr>m_buffer = m_buffer du, m_type = uo_type w\<rparr>"
    have "unit_value st z = Some ?v" "unit_value st' z =
        Some (?v\<lparr>m_buffer := m_buffer (fst (set_transaction_id t du))\<rparr>)"
      using w n unfolding st' by (simp_all add: unit_value_def object_value_def)
    with set_transaction_id_bytes [of du ?v t] show ?thesis by simp
  qed
  show "unit_value st' = value_step (shares st) (Set_transaction_id x t) (unit_value st)"
    using a(1) other same by (auto simp: shares_def fun_eq_iff)
qed

lemma inv_copied:
  assumes "store_inv st" "us_objects st y = Some ob"
  shows "store_inv (repoint x (Some ob) st) \<and> unit_value (repoint x (Some ob) st) = (unit_value st)(x := unit_value st y)"
proof -
  have p: "\<forall>a. Some ob \<bind> uo_buffer = Some a \<longrightarrow> us_heap st a \<noteq> None"
    using pointer_allocated [OF assms] by simp
  from inv_repoint [OF assms(1) p, of x] value_repoint [OF assms(1) p, of x] assms(2) show ?thesis
    by (simp add: unit_value_def)
qed

lemma unit_exec_step:
  assumes "store_inv st" "unit_exec c st = Some st'"
  shows "store_inv st' \<and> unit_value st' = value_step (shares st) c (unit_value st)"
proof (cases c)
  case (Construct x a du)
  with assms inv_construct [OF assms(1), of x a du] show ?thesis by (auto split: if_splits)
next
  case (Copy_construct x y)
  with assms(2) obtain ob where ob: "us_objects st y = Some ob" "us_objects st x = None"
      "st' = repoint x (Some ob) st"
    by (auto simp: copy_construct_repoint split: option.splits if_splits)
  with inv_copied [OF assms(1) ob(1), of x] Copy_construct show ?thesis by simp
next
  case (Move_construct x y)
  with assms(2) obtain ob where ob: "us_objects st y = Some ob" "us_objects st x = None"
      "st' = unit_move_construct x y ob st"
    by (auto split: option.splits if_splits)
  then have "x \<noteq> y" by auto
  from inv_moved [OF assms(1) ob(1) this] show ?thesis
    using move_construct_repoint [OF assms(1) ob(1,2)] ob(3) Move_construct by simp
next
  case (Copy_assign x y)
  with assms(2) obtain ob where ob: "us_objects st y = Some ob" "st' = repoint x (Some ob) st"
    by (auto simp: copy_assign_repoint split: option.splits if_splits)
  with inv_copied [OF assms(1) ob(1), of x] Copy_assign show ?thesis by simp
next
  case (Move_assign x y)
  with assms(2) obtain ob where ob: "us_objects st y = Some ob" "st' = unit_move_assign x y ob st"
    by (auto split: option.splits if_splits)
  show ?thesis
  proof (cases "x = y")
    case True
    then show ?thesis using ob move_assign_self assms(1) Move_assign by simp
  next
    case False
    from inv_moved [OF assms(1) ob(1) this] show ?thesis
      using move_assign_repoint [OF assms(1) ob(1) False] ob(2) Move_assign by simp
  qed
next
  case (Destroy x)
  with assms inv_repoint [OF assms(1), of None x] value_repoint [OF assms(1), of None x] show ?thesis
    by (auto simp: destroy_repoint split: if_splits)
next
  case (Set_transaction_id x t)
  with assms set_transaction_id_step [of st x t st'] show ?thesis by blast
qed

subsection \<open>Properties\<close>

interpretation units: transition_system unit_exec store_inv
  by unfold_locales (simp add: unit_exec_step)

lemma inv_empty_store: "store_inv empty_store"
  by (simp add: store_inv_def empty_store_def holders_def pointer_of_def)

lemma unit_run_inv: "unit_run cs empty_store = Some st \<Longrightarrow> store_inv st"
  unfolding unit_run_def by (rule units.run_inv [OF inv_empty_store])

text \<open>C14: data units behave as values, but for \<open>set_transaction_id\<close>. After any sequence of constructions, copies,
  moves, assignments, destructions and changes of a transaction id, a further operation does to the values of
  all objects exactly what \<open>value_step\<close> says: a copy or an assignment gives the target the value of the source,
  a move leaves the source without one, and \<open>set_transaction_id\<close> changes every object that shares the
  buffer.\<close>

theorem shared_units_refine_values:
  assumes "unit_run cs empty_store = Some st" "unit_exec c st = Some st'"
  shows "unit_value st' = value_step (shares st) c (unit_value st)"
  using unit_exec_step [OF unit_run_inv [OF assms(1)] assms(2)] by simp

theorem shared_units_refine_values_witness:
  "\<exists>st st'. unit_run [Construct 1 0 \<lparr>m_buffer = [0, 1, 0], m_type = request\<rparr>, Copy_construct 2 1] empty_store = Some st
    \<and> unit_exec (Move_assign 1 2) st = Some st'
    \<and> unit_value st' = value_step (shares st) (Move_assign 1 2) (unit_value st)"
proof -
  let ?r = "unit_run [Construct 1 0 \<lparr>m_buffer = [0, 1, 0], m_type = request\<rparr>, Copy_construct 2 1] empty_store"
  have "case ?r of None \<Rightarrow> False | Some st \<Rightarrow> unit_exec (Move_assign 1 2) st \<noteq> None"
    by (simp add: unit_run_def empty_store_def unit_construct_def unit_copy_construct_def)
  then obtain st st' where "?r = Some st" "unit_exec (Move_assign 1 2) st = Some st'"
    by (auto elim!: case_option_trueE)
  with shared_units_refine_values [OF this] show ?thesis by blast
qed

text \<open>A buffer lives exactly as long as it is used. After any sequence of operations the heap holds the
  buffers some object points to and no others, and the use count of each is the number of its objects.\<close>

lemma buffers_live_while_used:
  assumes "unit_run cs empty_store = Some st"
  shows "dom (us_heap st) = {a. \<exists>x. pointer_of st x = Some a}
    \<and> (\<forall>a n b. us_heap st a = Some (n, b) \<longrightarrow> n = card {x. pointer_of st x = Some a})"
proof
  note inv = unit_run_inv [OF assms]
  show "\<forall>a n b. us_heap st a = Some (n, b) \<longrightarrow> n = card {x. pointer_of st x = Some a}"
    using store_invD [OF inv] by (simp add: holders_def)
  have "\<exists>x. pointer_of st x = Some a" if "us_heap st a = Some (n, b)" for a n b
    using store_invD [OF inv that] card_gt_0_iff [of "holders st a"] by (auto simp: holders_def)
  moreover have "us_heap st a \<noteq> None" if "pointer_of st x = Some a" for a x
    using that pointer_allocated [OF inv] by (auto simp: pointer_of_def bind_eq_Some_conv)
  ultimately show "dom (us_heap st) = {a. \<exists>x. pointer_of st x = Some a}" by fast
qed

text \<open>A change of the transaction id of a copy is a change of the original: the two share their buffer until
  one of them is assigned to.\<close>

lemma copy_changes_original:
  assumes "unit_run cs empty_store = Some st" "unit_value st x = Some du" "2 \<le> length (m_buffer du)"
    and "us_objects st y = None"
  shows "\<exists>st' du'. unit_run [Copy_construct y x, Set_transaction_id y t] st = Some st'
    \<and> unit_value st' x = Some du' \<and> unit_value st' y = Some du' \<and> transaction_id du' = Inr t"
proof -
  obtain ob where ob: "us_objects st x = Some ob" "object_value (us_heap st) ob = Some du"
    using assms(2) by (auto simp: unit_value_def bind_eq_Some_conv)
  then obtain a n where a: "uo_buffer ob = Some a" "us_heap st a = Some (n, m_buffer du)" "uo_type ob = m_type du"
    by (auto simp: object_value_def bind_eq_Some_conv)
  let ?st1 = "unit_copy_construct y ob st"
  have st1: "unit_exec (Copy_construct y x) st = Some ?st1" using ob assms(4) by simp
  obtain du' where du': "set_transaction_id t du = (du', None)" "transaction_id du' = Inr t"
    using set_transaction_id_get [of du t] assms(3) by blast
  have xy: "x \<noteq> y" using ob(1) assms(4) by auto
  have v1: "unit_value ?st1 = (unit_value st)(y := unit_value st x)"
    using unit_exec_step [OF unit_run_inv [OF assms(1)] st1] by simp
  have "pointer_of ?st1 y = Some a" "pointer_of ?st1 x = Some a"
    using ob a xy by (simp_all add: unit_copy_construct_def pointer_of_def)
  then have sh: "shares ?st1 y x" "shares ?st1 y y" by (simp_all add: shares_def)
  obtain st' where st': "unit_exec (Set_transaction_id y t) ?st1 = Some st'"
    using v1 assms(2) du' \<open>pointer_of ?st1 y = Some a\<close> by (simp add: unit_set_transaction_id_def)
  have "store_inv ?st1" using unit_exec_step [OF unit_run_inv [OF assms(1)] st1] by simp
  from set_transaction_id_step(2) [OF this st'] v1 sh du' assms(2) xy
  have "unit_value st' x = Some du'" "unit_value st' y = Some du'" by simp_all
  with st1 st' du'(2) show ?thesis by (auto simp: unit_run_def)
qed

end
