(* ===== verification/Server_Helper.thy ===== *)
theory Server_Helper
  imports Modbus_Prelude
begin

text \<open>
  server/server_helper.hpp: the free functions a request handler uses on its memory. Coils and
  discrete inputs are bit arrays packed eight to a byte (\<open>get_bit\<close>), registers are byte pairs.

  Every \<open>operator[]\<close> of the source is \<open>vec_get\<close>/\<open>vec_set\<close> (\<open>vec_geti\<close>/\<open>vec_seti\<close> where the
  index is a C++ \<open>int\<close> that can be negative), so an access outside a vector is
  \<open>Inl undefined_behaviour\<close>; so are a shift by a negative amount and a signed overflow. The
  in-place loops are \<open>for_up\<close> over the vector they update.

  The lemmas give each function its meaning on the bit array, the exact condition under which
  the request bitmap is the requested range, and what happens outside it.
\<close>

subsection \<open>Unchecked accesses and shifts\<close>

definition vec_geti :: "'a list \<Rightarrow> int \<Rightarrow> 'a option" where
  "vec_geti xs i = (if i < 0 then None else vec_get xs (nat i))"

definition vec_seti :: "'a list \<Rightarrow> int \<Rightarrow> 'a \<Rightarrow> 'a list option" where
  "vec_seti xs i v = (if i < 0 then None else vec_set xs (nat i) v)"

text \<open>\<open>x << s\<close> and \<open>x >> s\<close> on a promoted byte, stored back in a \<open>uint8_t\<close>.\<close>

definition shl :: "uint8 \<Rightarrow> int \<Rightarrow> uint8 option" where
  "shl x s = (if 0 \<le> s \<and> s < 32 then Some (push_bit (nat s) x) else None)"

definition shr :: "uint8 \<Rightarrow> int \<Rightarrow> uint8 option" where
  "shr x s = (if 0 \<le> s \<and> s < 32 then Some (drop_bit (nat s) x) else None)"

subsection \<open>Request bitmaps\<close>

definition bitMasks :: "uint8 list" where
  "bitMasks = [0b00000000, 0b00000001, 0b00000011,
               0b00000111, 0b00001111, 0b00011111,
               0b00111111, 0b01111111, 0b11111111]"

definition create_request_bit_map :: "int \<Rightarrow> int \<Rightarrow> buffer_t result" where
  "create_request_bit_map startAddress numRegisters =
     (if numRegisters = 0 then Inr []
      else
        let startBit = startAddress smod 8
        in if \<not> int_ok (numRegisters + startBit) then Inl undefined_behaviour
        else
          let numBytes = (numRegisters + startBit) sdiv 8 + 1;
              numHighBits =
                (if numBytes = 1 then numRegisters else numRegisters smod 8 + startBit)
          in if numBytes < 0 then Inl length_error
          else ub (do {
            bm \<leftarrow> for_up 0 (nat (numBytes - 1)) (\<lambda>i bm. vec_set bm i 0xFF)
                    (vec_resize [] (nat numBytes));
            high \<leftarrow> vec_geti bitMasks numHighBits;
            bm \<leftarrow> vec_seti bm (numBytes - 1) high;
            x \<leftarrow> vec_get bm 0;
            x \<leftarrow> shl x startBit;
            vec_set bm 0 x }))"

text \<open>The comparison loop returns at the first byte that asks for a bit that is not accessible.\<close>

function legal_address_loop :: "buffer_t \<Rightarrow> buffer_t \<Rightarrow> int \<Rightarrow> nat \<Rightarrow> bool option" where
  "legal_address_loop accessBitMask requestBitmap startByte i =
     (if i < length requestBitmap
      then do {
        r \<leftarrow> vec_get requestBitmap i;
        a \<leftarrow> vec_geti accessBitMask (int i + startByte);
        if r AND a \<noteq> r then Some False
        else legal_address_loop accessBitMask requestBitmap startByte (Suc i) }
      else Some True)"
  by pat_completeness auto
termination
  by (relation "measure (\<lambda>(a, r, s, i). length r - i)") auto

definition legal_address :: "buffer_t \<Rightarrow> buffer_t \<Rightarrow> int \<Rightarrow> bool result" where
  "legal_address accessBitMask requestBitmap startAddress =
     (if length requestBitmap = 0 then Inr False
      else
        let startByte = startAddress sdiv 8;
            numBytes = int (length requestBitmap)
        in if (word_of_int (startByte + numBytes) :: size_t) > of_nat (length accessBitMask)
           then Inr False
           else ub (legal_address_loop accessBitMask requestBitmap startByte 0))"

subsection \<open>Coils and discrete inputs\<close>

definition copy_data_bits :: "buffer_t \<Rightarrow> buffer_t \<Rightarrow> int \<Rightarrow> int \<Rightarrow> buffer_t result" where
  "copy_data_bits from requestBitmap startAddress numRegisters =
     (let startByte = startAddress sdiv 8;
          startBit = startAddress smod 8;
          numBytes = length requestBitmap
      in ub (do {
        dst \<leftarrow> for_up 0 numBytes (\<lambda>i dst. do {
                f \<leftarrow> vec_geti from (int i + startByte);
                r \<leftarrow> vec_get requestBitmap i;
                vec_set dst i (f AND r) }) (replicate numBytes 0);
        dst \<leftarrow> for_up 0 (numBytes - 1) (\<lambda>i dst. do {
                x \<leftarrow> vec_get dst i;
                y \<leftarrow> vec_get dst (i + 1);
                x \<leftarrow> shr x startBit;
                y \<leftarrow> shl y (8 - startBit);
                vec_set dst i (x OR y) }) dst;
        x \<leftarrow> vec_geti dst (int numBytes - 1);
        x \<leftarrow> shr x startBit;
        dst \<leftarrow> vec_seti dst (int numBytes - 1) x;
        if \<not> int_ok (numRegisters - 1) then None
        else
          let numDataBytes = (numRegisters - 1) sdiv 8 + 1
          in if (word_of_int numDataBytes :: size_t) \<noteq> of_nat (length dst)
             then Some (butlast dst)
             else Some dst }))"

definition write_coil :: "buffer_t \<Rightarrow> bool \<Rightarrow> int \<Rightarrow> buffer_t result" where
  "write_coil data coilStatus coilAddress =
     (let startByte = coilAddress sdiv 8;
          startBit = coilAddress smod 8
      in ub (do {
        byte \<leftarrow> shl 1 startBit;
        x \<leftarrow> vec_geti data startByte;
        vec_seti data startByte (if coilStatus then x OR byte else x AND NOT byte) }))"

definition write_coils :: "buffer_t \<Rightarrow> buffer_t \<Rightarrow> buffer_t \<Rightarrow> int \<Rightarrow> buffer_t result" where
  "write_coils data requestBitmap coilStatuses startAddress =
     (let startByte = startAddress sdiv 8;
          startBit = startAddress smod 8;
          numBytes = length requestBitmap
      in ub (do {
        cs \<leftarrow> for_up 1 numBytes (\<lambda>i cs. do {
               x \<leftarrow> vec_get cs i;
               y \<leftarrow> vec_get cs (i - 1);
               x \<leftarrow> shl x startBit;
               y \<leftarrow> shr y (8 - startBit);
               vec_set cs i (x OR y) }) coilStatuses;
        x \<leftarrow> vec_get cs 0;
        x \<leftarrow> shl x startBit;
        cs \<leftarrow> vec_set cs 0 x;
        for_up 0 numBytes (\<lambda>i data. do {
          c \<leftarrow> vec_get cs i;
          r \<leftarrow> vec_get requestBitmap i;
          d \<leftarrow> vec_geti data (int i + startByte);
          data \<leftarrow> vec_seti data (int i + startByte) (d AND (c OR NOT r));
          d \<leftarrow> vec_geti data (int i + startByte);
          vec_seti data (int i + startByte) (d OR (c AND r)) }) data }))"

subsection \<open>Registers\<close>

definition copy_data_registers :: "buffer_t \<Rightarrow> int \<Rightarrow> int \<Rightarrow> buffer_t result" where
  "copy_data_registers from startAddress numRegisters =
     (let startByte = startAddress * 2;
          numBytes = numRegisters * 2
      in if \<not> (int_ok startByte \<and> int_ok numBytes) then Inl undefined_behaviour
      else if numBytes < 0 then Inl length_error
      else ub (for_up 0 (nat numBytes) (\<lambda>i dst. do {
             f \<leftarrow> vec_geti from (int i + startByte);
             vec_set dst i f }) (replicate (nat numBytes) 0)))"

definition write_register :: "uint16 \<Rightarrow> buffer_t \<Rightarrow> int \<Rightarrow> buffer_t result" where
  "write_register v dst startAddress =
     (let startByte = startAddress * 2
      in if \<not> int_ok startByte then Inl undefined_behaviour
      else ub (do {
        dst \<leftarrow> vec_seti dst startByte (ucast (drop_bit 8 v));
        vec_seti dst (startByte + 1) (ucast (v AND 0xFF)) }))"

definition write_registers :: "uint16 list \<Rightarrow> buffer_t \<Rightarrow> int \<Rightarrow> int \<Rightarrow> buffer_t result" where
  "write_registers from dst startAddress numRegisters =
     (let startByte = startAddress * 2
      in if \<not> int_ok startByte then Inl undefined_behaviour
      else ub (for_up 0 (nat numRegisters) (\<lambda>i dst. do {
             f \<leftarrow> vec_get from i;
             dst \<leftarrow> vec_seti dst (2 * int i + startByte) (ucast (drop_bit 8 f));
             f \<leftarrow> vec_get from i;
             vec_seti dst (2 * int i + startByte + 1) (ucast (f AND 0x00FF)) }) dst))"

declare legal_address_loop.simps [simp del]

subsection \<open>What the functions compute\<close>

text \<open>The request bitmap as a value: \<open>N\<close> bytes, all ones but for \<open>s\<close> low bits of the first and all
  but \<open>h\<close> low bits of the last; \<open>h\<close> is what the source calls \<open>numHighBits\<close>.\<close>

definition range_bitmap :: "nat \<Rightarrow> nat \<Rightarrow> nat \<Rightarrow> buffer_t" where
  "range_bitmap N h s =
     (let b = replicate (N - 1) 0xFF @ [mask h] in b[0 := push_bit s (b ! 0)])"

definition high_bits :: "nat \<Rightarrow> nat \<Rightarrow> nat" where
  "high_bits s n = (if n + s < 8 then n else n mod 8 + s)"

text \<open>The bytes after the two formatting steps: the bit array shifted down by \<open>s\<close>.\<close>

definition shifted_down :: "nat \<Rightarrow> buffer_t \<Rightarrow> buffer_t" where
  "shifted_down s xs =
     (upd_range (\<lambda>i. drop_bit s (xs ! i) OR push_bit (8 - s) (xs ! (i + 1))) 0 (length xs - 1) xs)
       [length xs - 1 := drop_bit s (last xs)]"

text \<open>The bytes of \<open>write_coils\<close>'s local copy after its formatting loop: each byte takes its low bits
  from the byte before it, which the ascending loop has already overwritten.\<close>

fun cs_byte :: "nat \<Rightarrow> buffer_t \<Rightarrow> nat \<Rightarrow> uint8" where
  "cs_byte s cs 0 = cs ! 0"
| "cs_byte s cs (Suc i) = push_bit s (cs ! Suc i) OR drop_bit (8 - s) (cs_byte s cs i)"

definition shifted_up :: "nat \<Rightarrow> nat \<Rightarrow> buffer_t \<Rightarrow> buffer_t" where
  "shifted_up s N cs = (upd_range (cs_byte s cs) 1 N cs)[0 := push_bit s (cs ! 0)]"

text \<open>Register \<open>i\<close> of a memory space.\<close>

definition get_reg :: "buffer_t \<Rightarrow> nat \<Rightarrow> uint16" where
  "get_reg b i = be16 (b ! (2 * i)) (b ! (2 * i + 1))"

subsection \<open>Evaluating the model on natural numbers\<close>

lemma int_sdiv_nat [simp]: "int a sdiv 8 = int (a div 8)"
  by (cases "a = 0") (simp_all add: signed_divide_int_def zdiv_int)

lemma int_smod_nat [simp]: "int a smod 8 = int (a mod 8)"
  by (cases "a = 0") (simp_all add: signed_modulo_int_def zmod_int minus_div_mult_eq_mod)

lemma vec_geti_int [simp]: "vec_geti xs (int i) = vec_get xs i"
  by (simp add: vec_geti_def)

lemma vec_seti_int [simp]: "vec_seti xs (int i) v = vec_set xs i v"
  by (simp add: vec_seti_def)

lemma shl_int [simp]: "s < 8 \<Longrightarrow> shl x (int s) = Some (push_bit s x)"
  by (simp add: shl_def)
lemma shr_int [simp]: "s < 8 \<Longrightarrow> shr x (int s) = Some (drop_bit s x)"
  by (simp add: shr_def)
lemma shl_8_int [simp]: "s < 8 \<Longrightarrow> shl x (8 - int s) = Some (push_bit (8 - s) x)"
  by (simp add: shl_def nat_diff_distrib)
lemma shr_8_int [simp]: "s < 8 \<Longrightarrow> shr x (8 - int s) = Some (drop_bit (8 - s) x)"
  by (simp add: shr_def nat_diff_distrib)

lemma bitMasks_nth:
  assumes "h \<le> 8"
  shows "vec_get bitMasks h = Some (mask h)"
proof -
  from assms have "h \<in> {0, 1, 2, 3, 4, 5, 6, 7, 8}" by auto
  then show ?thesis
    by (auto simp: bitMasks_def vec_get_def mask_eq_exp_minus_1 numeral_eq_Suc)
qed

lemma bitMasks_beyond: "8 < h \<Longrightarrow> vec_get bitMasks h = None"
  by (simp add: bitMasks_def vec_get_def)

lemma length_range_bitmap [simp]: "0 < N \<Longrightarrow> length (range_bitmap N h s) = N"
  by (simp add: range_bitmap_def Let_def)

lemma bit_0xFF: "bit (0xFF :: uint8) j \<longleftrightarrow> j < 8"
proof -
  have "(0xFF :: uint8) = mask 8" by (simp add: mask_eq_exp_minus_1)
  then show ?thesis by (simp only: bit_mask_iff) simp
qed

lemma get_bit_range_bitmap:
  assumes "0 < N" "h \<le> 8" "s < 8"
  shows "get_bit (range_bitmap N h s) k \<longleftrightarrow>
    s \<le> k \<and> k < 8 * N \<and> (if N = 1 then k < s + h else k < 8 * (N - 1) + h)"
proof -
  obtain i j where k: "k = 8 * i + j" "j < 8"
    by (metis mult_div_mod_eq mod_less_divisor zero_less_numeral)
  show ?thesis
    using assms k(2) bit_0xFF [of j] bit_0xFF [of "j - s"]
    unfolding k(1) get_bit_at [OF k(2)]
    by (cases "i = 0"; cases "i = N - 1")
      (auto simp: range_bitmap_def Let_def nth_append bit_simps nth_list_update)
qed

lemma fill_loop:
  "for_up 0 k (\<lambda>i bm. vec_set bm i c) (z # replicate k z) = Some (replicate k c @ [z])"
proof -
  have "for_up 0 k (\<lambda>i bm. vec_set bm i c) (z # replicate k z) =
      Some (upd_range (\<lambda>_. c) (0 + 0) (0 + k) (z # replicate k z))"
    by (rule for_up_update) (auto simp: vec_set_def)
  also have "upd_range (\<lambda>_. c) (0 + 0) (0 + k) (z # replicate k z) = replicate k c @ [z]"
    by (rule nth_equalityI) (auto simp: nth_append nth_Cons split: nat.splits)
  finally show ?thesis .
qed

lemma create_request_bit_map_nat:
  assumes "0 < n" "n \<le> 2147483640"
  shows "create_request_bit_map (int a) (int n) =
    (if 8 < high_bits (a mod 8) n then Inl undefined_behaviour
     else Inr (range_bitmap ((n + a mod 8) div 8 + 1) (high_bits (a mod 8) n) (a mod 8)))"
proof -
  let ?s = "a mod 8" let ?q = "(n + ?s) div 8" let ?h = "high_bits ?s n"
  have sum: "int n + int ?s = int (n + ?s)" by simp
  have upd: "(replicate q x @ [z])[q := m] = replicate q x @ [m]" for q and x z m :: uint8
    by (simp add: list_update_append)
  have N: "nat (int ?q + 1) = Suc ?q" "nat (int ?q + 1 - 1) = ?q" "int ?q + 1 - 1 = int ?q"
    by simp_all
  have ok: "int_ok (int (n + ?s))" using assms(2) by (simp add: int_ok_def)
  have hb: "(if int ?q + 1 = 1 then int n else int n smod 8 + int ?s) = int ?h"
    by (auto simp: high_bits_def)
  show ?thesis
    unfolding create_request_bit_map_def Let_def int_smod_nat [of a] sum int_sdiv_nat hb N

    using assms(1) ok
    by (cases "8 < ?h")
      (auto simp: bitMasks_nth bitMasks_beyond range_bitmap_def Let_def vec_resize_def fill_loop
        upd         simp del: of_nat_add)
qed

subsection \<open>Bitmaps and access checks on the bit array\<close>

lemma get_bit_exact_range:
  assumes "0 < n" "n mod 8 + s < 8"
  shows "get_bit (range_bitmap ((n + s) div 8 + 1) (high_bits s n) s) k \<longleftrightarrow> s \<le> k \<and> k < s + n"
proof -
  have h: "high_bits s n \<le> 8" using assms(2) by (auto simp: high_bits_def)
  have q: "8 * ((n + s) div 8) + (n mod 8 + s) = n + s"
  proof -
    have "(n + s) mod 8 = n mod 8 + s" using assms(2) by (metis mod_add_left_eq mod_less)
    then show ?thesis by (metis mult_div_mod_eq)
  qed
  have "k < 8 * ((n + s) div 8 + 1)" if "k < n + s"
    using that by simp
  moreover have "n + s < 8 \<longleftrightarrow> (n + s) div 8 = 0" by auto
  ultimately show ?thesis
    using assms(2) h q by (auto simp: get_bit_range_bitmap high_bits_def)
qed

lemma word_and_eq_iff: "(x :: uint8) AND y = x \<longleftrightarrow> (\<forall>j<8. bit x j \<longrightarrow> bit y j)"
  by (auto simp: bit_eq_iff bit_simps)

lemma subset_bytes_iff:
  assumes "sb + length r \<le> length acc"
  shows "(\<forall>j<length r. r ! j AND acc ! (j + sb) = r ! j) \<longleftrightarrow>
    (\<forall>k. get_bit r k \<longrightarrow> get_bit acc (8 * sb + k))"
proof
  assume *: "\<forall>j<length r. r ! j AND acc ! (j + sb) = r ! j"
  show "\<forall>k. get_bit r k \<longrightarrow> get_bit acc (8 * sb + k)"
  proof (intro allI impI)
    fix k assume k: "get_bit r k"
    then have "k div 8 < length r" by (auto simp: get_bit_def)
    with * k assms show "get_bit acc (8 * sb + k)"
      by (auto simp: get_bit_def word_and_eq_iff add.commute)
  qed
next
  assume *: "\<forall>k. get_bit r k \<longrightarrow> get_bit acc (8 * sb + k)"
  show "\<forall>j<length r. r ! j AND acc ! (j + sb) = r ! j"
  proof (intro allI impI)
    fix j assume j: "j < length r"
    have "bit (acc ! (j + sb)) i" if "i < 8" "bit (r ! j) i" for i
    proof -
      have "get_bit r (8 * j + i)" using that j by (simp add: get_bit_at)
      with * have "get_bit acc (8 * sb + (8 * j + i))" by blast
      moreover have "8 * sb + (8 * j + i) = 8 * (sb + j) + i" by simp
      ultimately have "get_bit acc (8 * (sb + j) + i)" by simp
      then show ?thesis by (metis add.commute get_bit_at that(1))
    qed
    then show "r ! j AND acc ! (j + sb) = r ! j" by (simp add: word_and_eq_iff)
  qed
qed

lemma legal_address_loop_nat:
  assumes "sb + length r \<le> length acc"
  shows "legal_address_loop acc r (int sb) i =
    Some (\<forall>j<length r. i \<le> j \<longrightarrow> r ! j AND acc ! (j + sb) = r ! j)"
proof (induction "length r - i" arbitrary: i)
  case 0
  then show ?case by (subst legal_address_loop.simps) auto
next
  case (Suc d)
  then have i: "i < length r" by simp
  have "vec_geti acc (int i + int sb) = Some (acc ! (i + sb))"
    using i assms by (simp flip: of_nat_add)
  with i Suc.hyps(1) [of "Suc i"] Suc.hyps(2) show ?case
    by (subst legal_address_loop.simps) (auto simp: Suc_le_eq le_less)
qed

lemma legal_address_nat:
  assumes "r \<noteq> []" "a < 2 ^ 31" "length r < 2 ^ 31" "length acc < 2 ^ 64"
  shows "legal_address acc r (int a) =
    Inr (a div 8 + length r \<le> length acc \<and> (\<forall>k. get_bit r k \<longrightarrow> get_bit acc (8 * (a div 8) + k)))"
proof -
  let ?m = "a div 8 + length r"
  have sum: "int (a div 8) + int (length r) = int ?m" by simp
  have "?m < 2 ^ 64" using assms(2,3) by simp
  with assms(4) have cmp: "(word_of_int (int ?m) > (of_nat (length acc) :: size_t)) \<longleftrightarrow> length acc < ?m"
    unfolding of_int_of_nat_eq by (rule size_t_less_iff)
  show ?thesis
    using assms(1) unfolding legal_address_def Let_def int_sdiv_nat sum cmp
    by (auto simp: legal_address_loop_nat subset_bytes_iff [symmetric])
qed

lemma masked_copy_loop:
  assumes "sb + length r \<le> length from"
  shows "for_up 0 (length r) (\<lambda>i dst. do {
           f \<leftarrow> vec_geti from (int i + int sb);
           x \<leftarrow> vec_get r i;
           vec_set dst i (f AND x) }) (replicate (length r) 0) =
         Some (map (\<lambda>i. from ! (i + sb) AND r ! i) [0..<length r])"
    (is "for_up 0 _ ?body ?xs = Some ?ys")
proof -
  have "for_up 0 (length r) ?body ?xs = Some (upd_range (\<lambda>i. from ! (i + sb) AND r ! i) (0 + 0) (0 + length r) ?xs)"
    by (rule for_up_update) (use assms in \<open>simp_all flip: of_nat_add\<close>)
  also have "upd_range (\<lambda>i. from ! (i + sb) AND r ! i) (0 + 0) (0 + length r) ?xs = ?ys"
    by (rule nth_equalityI) simp_all
  finally show ?thesis .
qed

lemma shift_down_loop:
  assumes "s < 8"
  shows "for_up 0 (length xs - 1) (\<lambda>i dst. do {
           x \<leftarrow> vec_get dst i;
           y \<leftarrow> vec_get dst (i + 1);
           x \<leftarrow> shr x (int s);
           y \<leftarrow> shl y (8 - int s);
           vec_set dst i (x OR y) }) xs =
         Some (upd_range (\<lambda>i. drop_bit s (xs ! i) OR push_bit (8 - s) (xs ! (i + 1))) 0 (length xs - 1) xs)"
    (is "for_up 0 _ ?body xs = Some ?ys")
proof -
  have "for_up 0 (length xs - 1) ?body xs =
      Some (upd_range (\<lambda>i. drop_bit s (xs ! i) OR push_bit (8 - s) (xs ! (i + 1))) (0 + 0) (0 + (length xs - 1)) xs)"
    by (rule for_up_update) (use assms in auto)
  then show ?thesis by simp
qed

lemma get_bit_shifted_down:
  assumes "s < 8" "xs \<noteq> []"
  shows "get_bit (shifted_down s xs) k \<longleftrightarrow> get_bit xs (k + s)"
proof -
  obtain i j where k: "k = 8 * i + j" "j < 8"
    by (metis mult_div_mod_eq mod_less_divisor zero_less_numeral)
  show ?thesis
  proof (cases "j + s < 8")
    case True
    then have "get_bit xs (k + s) \<longleftrightarrow> i < length xs \<and> bit (xs ! i) (j + s)"
      using get_bit_at [of "j + s" xs i] by (simp add: k(1) add.assoc)
    with True assms k(2) show ?thesis
      unfolding k(1) get_bit_at [OF k(2)]
      by (auto simp: shifted_down_def nth_list_update bit_simps last_conv_nth add.commute split: if_splits)
  next
    case False
    then have "k + s = 8 * (i + 1) + (j + s - 8)" using k(1) by simp
    moreover have "j + s - 8 < 8" using k(2) assms(1) by simp
    ultimately have "get_bit xs (k + s) \<longleftrightarrow> i + 1 < length xs \<and> bit (xs ! (i + 1)) (j + s - 8)"
      using get_bit_at [of "j + s - 8" xs "i + 1"] by simp
    moreover have "j - (8 - s) = j + s - 8" using assms(1) by simp
    ultimately show ?thesis
      using False assms k(2)
      unfolding k(1) get_bit_at [OF k(2)]
      by (auto simp: shifted_down_def nth_list_update bit_simps last_conv_nth add.commute split: if_splits)
  qed
qed

lemma get_bit_masked:
  assumes "sb + length r \<le> length from"
  shows "get_bit (map (\<lambda>i. from ! (i + sb) AND r ! i) [0..<length r]) k \<longleftrightarrow>
    get_bit r k \<and> get_bit from (8 * sb + k)"
proof (cases "k < 8 * length r")
  case True
  then have "k div 8 < length r" by linarith
  with True assms show ?thesis by (auto simp: get_bit_def bit_simps add.commute)
qed (simp add: get_bit_def)

lemma copy_data_bits_nat:
  assumes "r \<noteq> []" "a div 8 + length r \<le> length from" "0 < n" "n < 2 ^ 31" "length r < 2 ^ 31"
  shows "copy_data_bits from r (int a) (int n) =
    Inr (let ys = shifted_down (a mod 8) (map (\<lambda>i. from ! (i + a div 8) AND r ! i) [0..<length r])
         in if (n - 1) div 8 + 1 \<noteq> length r then butlast ys else ys)"
proof -
  let ?xs = "map (\<lambda>i. from ! (i + a div 8) AND r ! i) [0..<length r]" 
  let ?d = "(n - 1) div 8 + 1"
  let ?g = "\<lambda>i. drop_bit (a mod 8) (?xs ! i) OR push_bit (8 - a mod 8) (?xs ! (i + 1))"
  have last: "int (length r) - 1 = int (length r - 1)" using assms(1) by (cases r) auto
  have down: "for_up 0 (length r - 1) (\<lambda>i dst. do {
           x \<leftarrow> vec_get dst i;
           y \<leftarrow> vec_get dst (i + 1);
           x \<leftarrow> shr x (int (a mod 8));
           y \<leftarrow> shl y (8 - int (a mod 8));
           vec_set dst i (x OR y) }) ?xs = Some (upd_range ?g 0 (length r - 1) ?xs)"
    using shift_down_loop [of "a mod 8" ?xs] by simp
  have n1: "int n - 1 = int (n - 1)" using assms(3) by simp
  have ok: "int_ok (int (n - 1))" using assms(4) by (simp add: int_ok_def)
  have "?d < 2 ^ 64" "length r < 2 ^ 64" using assms(4,5) by simp_all
  then have cmp: "(word_of_int (int ?d) \<noteq> (of_nat (length r) :: size_t)) \<longleftrightarrow> ?d \<noteq> length r"
    unfolding of_int_of_nat_eq by (simp only: size_t_eq_iff)
  have d: "int ((n - 1) div 8) + 1 = int ?d" by simp
  have last': "last ?xs = ?xs ! (length r - 1)" using assms(1) by (simp add: last_conv_nth)
  show ?thesis
    unfolding copy_data_bits_def Let_def int_smod_nat int_sdiv_nat masked_copy_loop [OF assms(2)]
      Option.bind.bind_lunit down n1 last d
    using assms(1) ok cmp last' by (simp add: shifted_down_def del: of_nat_add of_int_of_nat_eq)
qed

subsection \<open>Copying and writing bits\<close>

lemma range_bytes_offset: "a div 8 + (n + a mod 8) div 8 = (a + n) div (8 :: nat)"
proof -
  have "a + n = 8 * (a div 8) + (n + a mod 8)" by simp
  then show ?thesis by (metis div_mult_self4 zero_neq_numeral add.commute)
qed

lemma create_exact:
  assumes "0 < n" "n \<le> 2147483640" "n mod 8 + a mod 8 < 8"
  shows "create_request_bit_map (int a) (int n) =
    Inr (range_bitmap ((n + a mod 8) div 8 + 1) (high_bits (a mod 8) n) (a mod 8))"
  using assms(3) by (simp add: create_request_bit_map_nat [OF assms(1,2)] high_bits_def)

lemma copy_exact:
  assumes "0 < n" "n \<le> 2147483640" "n mod 8 + a mod 8 < 8" "(a + n) div 8 < length from"
  shows "\<exists>out. copy_data_bits from
      (range_bitmap ((n + a mod 8) div 8 + 1) (high_bits (a mod 8) n) (a mod 8)) (int a) (int n) = Inr out
    \<and> length out = (n - 1) div 8 + 1 \<and> (\<forall>k. get_bit out k \<longleftrightarrow> k < n \<and> get_bit from (a + k))"
proof -
  let ?s = "a mod 8" let ?N = "(n + ?s) div 8 + 1" let ?D = "(n - 1) div 8 + 1"
  define r where "r = range_bitmap ?N (high_bits ?s n) ?s"
  define ys where "ys = shifted_down ?s (map (\<lambda>i. from ! (i + a div 8) AND r ! i) [0..<length r])"
  have len: "length r = ?N" by (simp add: r_def)
  have ne: "r \<noteq> []" using len by (metis add_is_0 list.size(3) zero_neq_one)
  have fit: "a div 8 + length r \<le> length from"
    using assms(4) range_bytes_offset [of a n] len by simp
  have bits: "get_bit ys k \<longleftrightarrow> k < n \<and> get_bit from (a + k)" for k
  proof -
    have "8 * (a div 8) + (k + ?s) = a + k" by simp
    then show ?thesis
      using get_bit_masked [OF fit, of "k + ?s"] get_bit_exact_range [OF assms(1,3), of "k + ?s"] ne
      by (simp add: get_bit_shifted_down ys_def r_def)
  qed
  have lys: "length ys = ?N" using len by (simp add: shifted_down_def ys_def)
  have d: "?N = ?D \<or> ?N = ?D + 1" using assms(1) by linarith
  have bound: "k < 8 * ?D" if "k < n" for k using that by presburger
  have "copy_data_bits from r (int a) (int n) = Inr (if ?D \<noteq> ?N then butlast ys else ys)"
    using copy_data_bits_nat [OF ne fit assms(1)] assms(2) len by (simp add: Let_def ys_def)
  moreover have "length (butlast ys) = ?D" if "?D \<noteq> ?N" using that d lys by simp
  moreover have "get_bit (butlast ys) k = get_bit ys k" if "?D \<noteq> ?N" for k
    using that d lys bits [of k] bound [of k] by (auto simp: get_bit_butlast)
  ultimately show ?thesis
    unfolding r_def [symmetric] using bits lys by (cases "?D = ?N") simp_all
qed

lemma shift_up_loop:
  assumes "s < 8" "N \<le> length cs" "0 < N"
  shows "for_up 1 N (\<lambda>i cs. do {
               x \<leftarrow> vec_get cs i;
               y \<leftarrow> vec_get cs (i - 1);
               x \<leftarrow> shl x (int s);
               y \<leftarrow> shr y (8 - int s);
               vec_set cs i (x OR y) }) cs = Some (upd_range (cs_byte s cs) 1 N cs)"
    (is "for_up 1 N ?body cs = _")
proof -
  have ne: "cs \<noteq> []" using assms(2,3) by auto
  have "for_up 1 N ?body cs = Some (upd_range (cs_byte s cs) (0 + 1) (0 + N) cs)"
  proof (rule for_up_update)
    fix j assume "1 \<le> j" "j < N"
    moreover from this obtain i where "j = Suc i" by (cases j) auto
    ultimately show "?body j (upd_range (cs_byte s cs) (0 + 1) (0 + j) cs) =
        Some ((upd_range (cs_byte s cs) (0 + 1) (0 + j) cs)[0 + j := cs_byte s cs (0 + j)])"
      using assms ne by (cases i) simp_all
  qed (use assms in simp)
  then show ?thesis by simp
qed

text \<open>The carry is the one meant where nothing is shifted or only the second byte takes one.\<close>

lemma cs_byte_carry:
  assumes "0 < i" "s = 0 \<or> i < 2"
  shows "cs_byte s cs i = push_bit s (cs ! i) OR drop_bit (8 - s) (cs ! (i - 1))"
proof -
  obtain i' where i': "i = Suc i'" using assms(1) by (cases i) auto
  show ?thesis
  proof (cases "s = 0")
    case True
    have "drop_bit 8 w = 0" for w :: uint8 by (rule bit_word_eqI) (auto simp: bit_simps)
    with True i' show ?thesis by simp
  next
    case False
    with assms(2) i' have "i' = 0" by simp
    with i' show ?thesis by simp
  qed
qed

lemma get_bit_shifted_up:
  assumes "s < 8" "N \<le> length cs" "0 < N" "s = 0 \<or> N \<le> 2" "k < 8 * N"
  shows "get_bit (shifted_up s N cs) k \<longleftrightarrow> s \<le> k \<and> get_bit cs (k - s)"
proof -
  obtain i j where k: "k = 8 * i + j" "j < 8"
    by (metis mult_div_mod_eq mod_less_divisor zero_less_numeral)
  have i: "i < N" using assms(5) k by linarith
  have byte: "cs_byte s cs i = push_bit s (cs ! i) OR drop_bit (8 - s) (cs ! (i - 1))" if "0 < i"
    by (rule cs_byte_carry [OF that]) (use assms(4) i in linarith)
  show ?thesis
  proof (cases "s \<le> j")
    case True
    then have "get_bit cs (k - s) \<longleftrightarrow> i < length cs \<and> bit (cs ! i) (j - s)"
      using get_bit_at [of "j - s" cs i] k by (simp add: add_diff_assoc)
    with True i byte assms k(2) show ?thesis
      unfolding k(1) get_bit_at [OF k(2)]
      by (cases "i = 0") (auto simp: shifted_up_def bit_simps)
  next
    case False
    show ?thesis
    proof (cases "i = 0")
      case True
      with False k assms(1) show ?thesis
        unfolding k(1) get_bit_at [OF k(2)] by (auto simp: shifted_up_def bit_simps)
    next
      case i0: False
      then have "k - s = 8 * (i - 1) + (8 + j - s)" using k assms(1) False by (cases i) auto
      moreover have "8 + j - s < 8" using False by simp
      ultimately have "get_bit cs (k - s) \<longleftrightarrow> i - 1 < length cs \<and> bit (cs ! (i - 1)) (8 + j - s)"
        using get_bit_at by metis
      moreover have "8 - s + j = 8 + j - s" using assms(1) by simp
      ultimately show ?thesis
        using False i0 i byte assms k(2)
        unfolding k(1) get_bit_at [OF k(2)]
        by (auto simp: shifted_up_def bit_simps)
    qed
  qed
qed

lemma bit_merge:
  "bit ((d AND (c OR NOT r)) OR (c AND r)) j \<longleftrightarrow> (if bit r j then bit c j else bit d j)"
    if "j < 8" for d c r :: uint8
  using that by (auto simp: bit_simps)

lemma merge_loop:
  assumes "sb + N \<le> length data" "N \<le> length cs" "N = length r"
  shows "for_up 0 N (\<lambda>i data. do {
          c \<leftarrow> vec_get cs i;
          x \<leftarrow> vec_get r i;
          d \<leftarrow> vec_geti data (int i + int sb);
          data \<leftarrow> vec_seti data (int i + int sb) (d AND (c OR NOT x));
          d \<leftarrow> vec_geti data (int i + int sb);
          vec_seti data (int i + int sb) (d OR (c AND x)) }) data =
     Some (upd_range (\<lambda>k. (data ! k AND (cs ! (k - sb) OR NOT (r ! (k - sb)))) OR (cs ! (k - sb) AND r ! (k - sb)))
       sb (sb + N) data)" (is "for_up 0 N ?body data = Some (upd_range ?g _ _ _)")
proof -
  have "for_up 0 N ?body data = Some (upd_range ?g (sb + 0) (sb + N) data)"
  proof (rule for_up_update)
    fix j assume "0 \<le> j" "j < N"
    then show "?body j (upd_range ?g (sb + 0) (sb + j) data) =
        Some ((upd_range ?g (sb + 0) (sb + j) data)[sb + j := ?g (sb + j)])"
      using assms by (simp add: add.commute [of j sb] flip: of_nat_add)
  qed simp
  then show ?thesis by simp
qed

lemma write_coils_nat:
  assumes "r \<noteq> []" "length r \<le> length cs" "a div 8 + length r \<le> length data"
  shows "\<exists>out. write_coils data r cs (int a) = Inr out \<and> length out = length data
    \<and> (\<forall>k. get_bit out (8 * (a div 8) + k) \<longleftrightarrow>
          (if get_bit r k then get_bit (shifted_up (a mod 8) (length r) cs) k
           else get_bit data (8 * (a div 8) + k)))
    \<and> (\<forall>k < 8 * (a div 8). get_bit out k = get_bit data k)"
proof -
  let ?s = "a mod 8" let ?sb = "a div 8" let ?c = "shifted_up ?s (length r) cs"
  let ?out = "upd_range (\<lambda>k. (data ! k AND (?c ! (k - ?sb) OR NOT (r ! (k - ?sb)))) OR (?c ! (k - ?sb) AND r ! (k - ?sb)))
       ?sb (?sb + length r) data"
  have ne: "cs \<noteq> []" using assms(1,2) by auto
  have lc: "length r \<le> length ?c" using assms(2) by (simp add: shifted_up_def)
  have "write_coils data r cs (int a) = Inr ?out"
    using shift_up_loop [of ?s "length r" cs] merge_loop [OF assms(3) lc refl] assms(1,2) ne
    by (simp add: write_coils_def Let_def shifted_up_def)
  moreover have "get_bit ?out (8 * ?sb + k) \<longleftrightarrow>
      (if get_bit r k then get_bit ?c k else get_bit data (8 * ?sb + k))" for k
  proof -
    obtain i j where k: "k = 8 * i + j" "j < 8"
      by (metis mult_div_mod_eq mod_less_divisor zero_less_numeral)
    then show ?thesis
      using k(2) assms(3) lc unfolding k(1)
      by (cases "?sb + i < length data") (simp_all add: get_bit_at get_bit_at_offset bit_merge)
  qed
  moreover have "get_bit ?out k = get_bit data k" if "k < 8 * ?sb" for k
  proof -
    have "k div 8 < ?sb" using that by linarith
    then show ?thesis by (auto simp: get_bit_def)
  qed
  ultimately show ?thesis by (auto simp del: int_sdiv_nat)
qed

lemma write_exact:
  assumes "0 < n" "n mod 8 + a mod 8 < 8" "(a + n) div 8 < length data"
    and "(n + a mod 8) div 8 < length cs" "a mod 8 = 0 \<or> n + a mod 8 < 16"
  shows "\<exists>out. write_coils data
      (range_bitmap ((n + a mod 8) div 8 + 1) (high_bits (a mod 8) n) (a mod 8)) cs (int a) = Inr out
    \<and> length out = length data
    \<and> (\<forall>k. get_bit out k \<longleftrightarrow>
          (if a \<le> k \<and> k < a + n then get_bit cs (k - a) else get_bit data k))"
proof -
  let ?s = "a mod 8" let ?sb = "a div 8" let ?N = "(n + ?s) div 8 + 1"
  let ?r = "range_bitmap ?N (high_bits ?s n) ?s"
  have len: "length ?r = ?N" by simp
  have ne: "?r \<noteq> []" using len by (metis add_is_0 list.size(3) zero_neq_one)
  have fit: "?sb + length ?r \<le> length data"
    using assms(3) range_bytes_offset [of a n] by simp
  have lcs: "length ?r \<le> length cs" using assms(4) len by simp
  obtain out where out: "write_coils data ?r cs (int a) = Inr out" "length out = length data"
    and bits: "\<And>k. get_bit out (8 * ?sb + k) \<longleftrightarrow>
          (if get_bit ?r k then get_bit (shifted_up ?s (length ?r) cs) k
           else get_bit data (8 * ?sb + k))"
    and low: "\<And>k. k < 8 * ?sb \<Longrightarrow> get_bit out k = get_bit data k"
    using write_coils_nat [OF ne lcs fit] by blast
  have "get_bit out k \<longleftrightarrow> (if a \<le> k \<and> k < a + n then get_bit cs (k - a) else get_bit data k)" for k
  proof (cases "k < 8 * ?sb")
    case True
    then have "k < a" by linarith
    with True low show ?thesis by simp
  next
    case False
    define m where "m = k - 8 * ?sb"
    have k: "k = 8 * ?sb + m" using False by (simp add: m_def)
    have r: "get_bit ?r m \<longleftrightarrow> a \<le> k \<and> k < a + n"
      unfolding get_bit_exact_range [OF assms(1,2)] k by presburger
    show ?thesis
    proof (cases "get_bit ?r m")
      case True
      then have "m < 8 * length ?r" by (rule get_bit_bound)
      then have "get_bit (shifted_up ?s (length ?r) cs) m \<longleftrightarrow> ?s \<le> m \<and> get_bit cs (m - ?s)"
        using lcs len assms(5) by (intro get_bit_shifted_up) auto
      moreover have "m - ?s = k - a" "?s \<le> m \<longleftrightarrow> a \<le> k" unfolding k by presburger+
      ultimately show ?thesis using True r bits [of m] k by simp
    qed (use r bits [of m] k in auto)
  qed
  with out show ?thesis by blast
qed

lemma write_coil_nat:
  assumes "a < 8 * length data"
  shows "\<exists>out. write_coil data v (int a) = Inr out \<and> length out = length data
    \<and> (\<forall>k. get_bit out k \<longleftrightarrow> (if k = a then v else get_bit data k))"
proof -
  let ?i = "a div 8" let ?j = "a mod 8"
  let ?x = "if v then data ! ?i OR push_bit ?j 1 else data ! ?i AND NOT (push_bit ?j 1)"
  have i: "?i < length data" using assms by linarith
  have "write_coil data v (int a) = Inr (data[?i := ?x])"
    using i by (simp add: write_coil_def Let_def)
  moreover have "get_bit (data[?i := ?x]) k \<longleftrightarrow> (if k = a then v else get_bit data k)" for k
  proof (cases "k div 8 = ?i")
    case True
    have "k mod 8 = ?j \<longleftrightarrow> k = a" using True by (metis mult_div_mod_eq)
    moreover have "k mod 8 < 8" by simp
    moreover have "k < 8 * length data" using True i by linarith
    ultimately show ?thesis
      using True i by (auto simp: get_bit_def bit_simps)
  next
    case False
    then show ?thesis using i by (auto simp: get_bit_def nth_list_update)
  qed
  ultimately show ?thesis by auto
qed

subsection \<open>Registers as byte pairs\<close>

lemma vec_seti_eq: "i = int k \<Longrightarrow> vec_seti xs i v = vec_set xs k v"
  by simp

lemma lo8_of_ucast: "ucast ((w :: uint16) AND 0xFF) = lo8 w" "ucast (drop_bit 8 (w :: uint16)) = hi8 w"
  by (simp_all add: lo8_def hi8_def)

lemma copy_data_registers_nat:
  assumes "2 * (a + n) \<le> length from" "a < 2 ^ 30" "n < 2 ^ 30"
  shows "copy_data_registers from (int a) (int n) = Inr (take (2 * n) (drop (2 * a) from))"
proof -
  have e: "int a * 2 = int (2 * a)" "int n * 2 = int (2 * n)" by simp_all
  have ok: "int_ok (int (2 * a))" "int_ok (int (2 * n))" using assms(2,3) by (simp_all add: int_ok_def)
  let ?body = "\<lambda>i dst. do { f \<leftarrow> vec_geti from (int i + int (2 * a)); vec_set dst i f }"
  have "for_up 0 (2 * n) ?body (replicate (2 * n) 0) =
      Some (upd_range (\<lambda>i. from ! (i + 2 * a)) (0 + 0) (0 + 2 * n) (replicate (2 * n) 0))"
    by (rule for_up_update) (use assms(1) in \<open>simp_all flip: of_nat_add of_nat_mult\<close>)
  also have "upd_range (\<lambda>i. from ! (i + 2 * a)) (0 + 0) (0 + 2 * n) (replicate (2 * n) 0) =
      take (2 * n) (drop (2 * a) from)"
    using assms(1) by (intro nth_equalityI) (simp_all add: add.commute)
  finally show ?thesis
    unfolding copy_data_registers_def Let_def e using ok by (simp del: of_nat_mult)
qed

lemma enc_regs:
  assumes "2 * (a + n) \<le> length b"
  shows "take (2 * n) (drop (2 * a) b) = enc_words (map (get_reg b) [a..<a + n])"
  using assms
proof (induction n)
  case (Suc n)
  have "take (2 * Suc n) (drop (2 * a) b) =
      take (2 * n) (drop (2 * a) b) @ [b ! (2 * (a + n)), b ! (2 * (a + n) + 1)]"
    using Suc.prems by (simp add: take_Suc_conv_app_nth)
  with Suc show ?case by (simp add: get_reg_def enc_words_def enc_u16_def)
qed (simp add: enc_words_def)

lemma write_register_nat:
  assumes "2 * a + 1 < length dst" "a < 2 ^ 30"
  shows "write_register w dst (int a) = Inr (dst[2 * a := hi8 w, 2 * a + 1 := lo8 w])"
proof -
  have e: "int a * 2 = int (2 * a)" by simp
  have s: "vec_seti t (int (2 * a) + 1) v = vec_set t (2 * a + 1) v" for t and v :: uint8
    by (rule vec_seti_eq) simp
  have ok: "int_ok (int (2 * a))" using assms(2) by (simp_all add: int_ok_def)
  show ?thesis
    unfolding write_register_def Let_def e s lo8_of_ucast
    using ok assms(1) by (simp del: of_nat_mult)
qed

lemma get_reg_update:
  assumes "2 * a + 1 < length b"
  shows "get_reg (b[2 * a := hi8 w, 2 * a + 1 := lo8 w]) k = (if k = a then w else get_reg b k)"
  using assms by (auto simp: get_reg_def nth_list_update)

lemma write_registers_nat:
  assumes "n \<le> length ws" "2 * (a + n) \<le> length dst" "a < 2 ^ 30" "n < 2 ^ 29"
  shows "\<exists>out. write_registers ws dst (int a) (int n) = Inr out \<and> length out = length dst
    \<and> (\<forall>k. get_reg out k = (if a \<le> k \<and> k < a + n then ws ! (k - a) else get_reg dst k))"
proof -
  let ?body = "\<lambda>i dst. do {
             f \<leftarrow> vec_get ws i;
             dst \<leftarrow> vec_seti dst (2 * int i + int (2 * a)) (hi8 f);
             f \<leftarrow> vec_get ws i;
             vec_seti dst (2 * int i + int (2 * a) + 1) (lo8 f) }"
  have "\<exists>t. for_up 0 n ?body dst = Some t \<and> (length t = length dst
    \<and> (\<forall>k. get_reg t k = (if a \<le> k \<and> k < a + n then ws ! (k - a) else get_reg dst k)))"
  proof (rule for_up_rule)
    fix j t assume j: "0 \<le> j" "j < n"
      and t: "length t = length dst \<and>
        (\<forall>k. get_reg t k = (if a \<le> k \<and> k < a + j then ws ! (k - a) else get_reg dst k))"
    have s: "vec_seti t (2 * int j + int (2 * a)) v = vec_set t (2 * (a + j)) v"
      "vec_seti t (2 * int j + int (2 * a) + 1) v = vec_set t (2 * (a + j) + 1) v" for t and v :: uint8
      by (rule vec_seti_eq, simp)+
    have "?body j t = Some (t[2 * (a + j) := hi8 (ws ! j), 2 * (a + j) + 1 := lo8 (ws ! j)])"
      unfolding s using j t assms(1,2) by simp
    then show "\<exists>t'. ?body j t = Some t' \<and> (length t' = length dst \<and>
        (\<forall>k. get_reg t' k = (if a \<le> k \<and> k < a + Suc j then ws ! (k - a) else get_reg dst k)))"
      using j t assms get_reg_update [of "a + j" t "ws ! j"] by (auto simp: less_Suc_eq)
  qed auto
  moreover have e: "int a * 2 = int (2 * a)" by simp
  moreover have ok: "int_ok (int (2 * a))" using assms(3) by (simp_all add: int_ok_def)
  ultimately show ?thesis
    unfolding write_registers_def Let_def e lo8_of_ucast by auto
qed

subsection \<open>Bitmaps the source does build, exact or not\<close>

lemma range_bitmap_ne [simp]: "range_bitmap N h s \<noteq> []"
  by (simp add: range_bitmap_def Let_def)

lemma create_defined_length:
  assumes "0 < n" "n \<le> 2147483640" "create_request_bit_map (int a) (int n) = Inr bm"
  shows "length bm = (n + a mod 8) div 8 + 1" "bm \<noteq> []"
  using assms(3) unfolding create_request_bit_map_nat [OF assms(1,2)]
  by (auto split: if_splits)

lemma create_defined_covers:
  assumes "0 < n" "n \<le> 2147483640" "create_request_bit_map (int a) (int n) = Inr bm"
    and "a \<le> k" "k < a + n"
  shows "get_bit bm (k - 8 * (a div 8))"
proof -
  let ?s = "a mod 8" let ?q = "(n + ?s) div 8"
  have bm: "bm = range_bitmap (?q + 1) (high_bits ?s n) ?s" and h: "high_bits ?s n \<le> 8"
    using assms(3) unfolding create_request_bit_map_nat [OF assms(1,2)] by (auto split: if_splits)
  have m: "?s \<le> k - 8 * (a div 8)" "k - 8 * (a div 8) < n + ?s" using assms(4,5) by presburger+
  moreover have "n + ?s < 8 * (?q + 1)" by simp
  moreover have "n + ?s \<le> 8 * ?q + (n mod 8 + ?s)"
  proof -
    have "(n + ?s) mod 8 \<le> n mod 8 + ?s" by (metis mod_add_left_eq mod_less_eq_dividend)
    then show ?thesis using mult_div_mod_eq [of 8 "n + ?s"] by linarith
  qed
  moreover have "?q = 0 \<longleftrightarrow> n + ?s < 8" by auto
  ultimately show ?thesis
    using get_bit_range_bitmap [of "?q + 1" "high_bits ?s n" ?s "k - 8 * (a div 8)"] h
    unfolding bm by (auto simp: high_bits_def)
qed

lemma write_coils_short:
  assumes "0 < length cs" "length cs < length bm"
  shows "write_coils data bm cs (int a) = Inl undefined_behaviour"
proof -
  let ?body = "\<lambda>i cs. do {
               x \<leftarrow> vec_get cs i;
               y \<leftarrow> vec_get cs (i - 1);
               x \<leftarrow> shl x (int (a mod 8));
               y \<leftarrow> shr y (8 - int (a mod 8));
               vec_set cs i (x OR y) }"
  have "for_up 1 (length bm) ?body cs = None"
  proof (rule for_up_fails [where P = "\<lambda>t. length t = length cs" and j = "length cs"])
    show "?body (length cs) t = None" if "length t = length cs" for t
      using that by (simp add: vec_get_def)
  qed (use assms in \<open>auto simp: vec_simps Suc_le_eq split: if_splits bind_splits\<close>)
  then show ?thesis by (simp add: write_coils_def Let_def)
qed

subsection \<open>The memory contract\<close>

text \<open>What a request handler relies on when it writes a range of coils or registers: a write that is
  supported (\<open>ok\<close>) and inside the memory (\<open>fits\<close>) succeeds, stores the source values in the range
  and leaves everything else alone.\<close>

locale memory_bank =
  fixes get :: "'mem \<Rightarrow> nat \<Rightarrow> 'v"
    and store :: "'src \<Rightarrow> 'mem \<Rightarrow> nat \<Rightarrow> nat \<Rightarrow> 'mem result"
    and src :: "'src \<Rightarrow> nat \<Rightarrow> 'v"
    and fits :: "'mem \<Rightarrow> nat \<Rightarrow> nat \<Rightarrow> bool"
    and ok :: "'src \<Rightarrow> nat \<Rightarrow> nat \<Rightarrow> bool"
  assumes store_get: "ok vs a n \<Longrightarrow> fits m a n \<Longrightarrow>
    \<exists>m'. store vs m a n = Inr m' \<and> (\<forall>b k. fits m' b k = fits m b k)
      \<and> (\<forall>k. get m' k = (if a \<le> k \<and> k < a + n then src vs (k - a) else get m k))"
begin

lemma last_store_wins:
  assumes "ok vs a n" "ok ws a n" "fits m a n"
  shows "\<exists>m1 m2. store vs m a n = Inr m1 \<and> store ws m1 a n = Inr m2
    \<and> (\<forall>k. get m2 k = (if a \<le> k \<and> k < a + n then src ws (k - a) else get m k))"
proof -
  obtain m1 where m1: "store vs m a n = Inr m1" "fits m1 a n"
    "\<And>k. get m1 k = (if a \<le> k \<and> k < a + n then src vs (k - a) else get m k)"
    using store_get [OF assms(1,3)] assms(3) by auto
  obtain m2 where "store ws m1 a n = Inr m2"
    "\<And>k. get m2 k = (if a \<le> k \<and> k < a + n then src ws (k - a) else get m1 k)"
    using store_get [OF assms(2) m1(2)] by auto
  with m1 show ?thesis by auto
qed

lemma disjoint_stores_commute:
  assumes "ok vs a n" "ok ws b k" "fits m a n" "fits m b k" "a + n \<le> b \<or> b + k \<le> a"
  shows "\<exists>m1 m12 m2 m21. store vs m a n = Inr m1 \<and> store ws m1 b k = Inr m12
    \<and> store ws m b k = Inr m2 \<and> store vs m2 a n = Inr m21 \<and> (\<forall>i. get m12 i = get m21 i)"
proof -
  obtain m1 where m1: "store vs m a n = Inr m1" "fits m1 b k"
    "\<And>i. get m1 i = (if a \<le> i \<and> i < a + n then src vs (i - a) else get m i)"
    using store_get [OF assms(1,3)] assms(4) by auto
  obtain m2 where m2: "store ws m b k = Inr m2" "fits m2 a n"
    "\<And>i. get m2 i = (if b \<le> i \<and> i < b + k then src ws (i - b) else get m i)"
    using store_get [OF assms(2,4)] assms(3) by auto
  obtain m12 where m12: "store ws m1 b k = Inr m12"
    "\<And>i. get m12 i = (if b \<le> i \<and> i < b + k then src ws (i - b) else get m1 i)"
    using store_get [OF assms(2) m1(2)] by auto
  obtain m21 where m21: "store vs m2 a n = Inr m21"
    "\<And>i. get m21 i = (if a \<le> i \<and> i < a + n then src vs (i - a) else get m2 i)"
    using store_get [OF assms(1) m2(2)] by auto
  have "get m12 i = get m21 i" for i
    using assms(5) by (auto simp: m1(3) m2(3) m12(2) m21(2))
  with m1(1) m2(1) m12(1) m21(1) show ?thesis by blast
qed

end

text \<open>Writing coils as the request handlers do: build the bitmap of the request, then write.\<close>

abbreviation store_coils :: "buffer_t \<Rightarrow> buffer_t \<Rightarrow> nat \<Rightarrow> nat \<Rightarrow> buffer_t result" where
  "store_coils cs data a n \<equiv>
     res_bind (create_request_bit_map (int a) (int n)) (\<lambda>bm. write_coils data bm cs (int a))"

abbreviation load_bits :: "buffer_t \<Rightarrow> nat \<Rightarrow> nat \<Rightarrow> buffer_t result" where
  "load_bits from a n \<equiv>
     res_bind (create_request_bit_map (int a) (int n))
       (\<lambda>bm. copy_data_bits from bm (int a) (int n))"

abbreviation coils_ok :: "buffer_t \<Rightarrow> nat \<Rightarrow> nat \<Rightarrow> bool" where
  "coils_ok cs a n \<equiv> 0 < n \<and> n \<le> 65535 \<and> n mod 8 + a mod 8 < 8
     \<and> (n + a mod 8) div 8 < length cs \<and> (a mod 8 = 0 \<or> n + a mod 8 < 16)"

text \<open>The bytes of a packed vector of coils cover the bytes of its range.\<close>

lemma coil_bytes_cover:
  assumes "n mod 8 \<noteq> 0" "n mod 8 + s mod 8 < (8 :: nat)"
  shows "(n + s mod 8) div 8 < (n + 7) div 8"
proof -
  define q r where "q = n div 8" and "r = n mod 8"
  then have n: "n = 8 * q + r" by simp
  have "(8 * q + (r + s mod 8)) div 8 = q" using assms(2) r_def by simp
  moreover have "(8 * q + (r + 7)) div 8 = q + (r + 7) div 8" by simp
  moreover have "1 \<le> (r + 7) div 8" using assms(1) r_def div_le_mono [of 8 "r + 7" 8] by simp
  ultimately show ?thesis unfolding n by (simp add: add.assoc)
qed

lemma store_coils_spec:
  assumes "coils_ok cs a n" "a + n < 8 * length data"
  shows "\<exists>out. store_coils cs data a n = Inr out \<and> length out = length data
    \<and> (\<forall>k. get_bit out k = (if a \<le> k \<and> k < a + n then get_bit cs (k - a) else get_bit data k))"
proof -
  have "(a + n) div 8 < length data" using assms(2) by linarith
  with write_exact [of n a data cs] create_exact [of n a] assms(1) show ?thesis
    by (simp add: res_bind_def)
qed

lemma load_bits_spec:
  assumes "0 < n" "n \<le> 65535" "n mod 8 + a mod 8 < 8" "a + n < 8 * length from"
  shows "\<exists>out. load_bits from a n = Inr out \<and> length out = (n - 1) div 8 + 1
    \<and> (\<forall>k. get_bit out k \<longleftrightarrow> k < n \<and> get_bit from (a + k))"
proof -
  have "(a + n) div 8 < length from" using assms(4) by linarith
  with copy_exact [of n a "from"] create_exact [of n a] assms show ?thesis
    by (simp add: res_bind_def)
qed

interpretation coils: memory_bank get_bit store_coils get_bit
  "\<lambda>m a n. a + n < 8 * length m" coils_ok
proof unfold_locales
  fix cs a n and m :: buffer_t
  assume "coils_ok cs a n" "a + n < 8 * length m"
  from store_coils_spec [OF this] obtain out where
    "store_coils cs m a n = Inr out" "length out = length m"
    "\<forall>k. get_bit out k = (if a \<le> k \<and> k < a + n then get_bit cs (k - a) else get_bit m k)"
    by blast
  then show "\<exists>m'. store_coils cs m a n = Inr m'
      \<and> (\<forall>b k. (b + k < 8 * length m') = (b + k < 8 * length m))
      \<and> (\<forall>k. get_bit m' k = (if a \<le> k \<and> k < a + n then get_bit cs (k - a) else get_bit m k))"
    by (intro exI [of _ out]) simp
qed

abbreviation store_registers :: "uint16 list \<Rightarrow> buffer_t \<Rightarrow> nat \<Rightarrow> nat \<Rightarrow> buffer_t result" where
  "store_registers ws m a n \<equiv> write_registers ws m (int a) (int n)"

interpretation registers: memory_bank get_reg store_registers "\<lambda>ws i. ws ! i"
  "\<lambda>m a n. 2 * (a + n) \<le> length m" "\<lambda>ws a n. n \<le> length ws \<and> a \<le> 65535 \<and> n \<le> 65535"
proof unfold_locales
  fix ws :: "uint16 list" and a n and m :: buffer_t
  assume "n \<le> length ws \<and> a \<le> 65535 \<and> n \<le> 65535" "2 * (a + n) \<le> length m"
  then have "n \<le> length ws" "2 * (a + n) \<le> length m" "a < 2 ^ 30" "n < 2 ^ 29" by simp_all
  from write_registers_nat [OF this]
  show "\<exists>m'. store_registers ws m a n = Inr m'
      \<and> (\<forall>b k. (2 * (b + k) \<le> length m') = (2 * (b + k) \<le> length m))
      \<and> (\<forall>k. get_reg m' k = (if a \<le> k \<and> k < a + n then ws ! (k - a) else get_reg m k))"
    by auto
qed

lemma exact_range_shift:
  assumes "0 < n" "n mod 8 + a mod 8 < 8"
  shows "(\<forall>k. get_bit (range_bitmap ((n + a mod 8) div 8 + 1) (high_bits (a mod 8) n) (a mod 8)) k
        \<longrightarrow> P (8 * (a div 8) + k)) \<longleftrightarrow> (\<forall>k. a \<le> k \<and> k < a + n \<longrightarrow> P k)" (is "?L \<longleftrightarrow> ?R")
proof
  assume L: ?L
  show ?R
  proof (intro allI impI)
    fix k assume "a \<le> k \<and> k < a + n"
    then have "8 * (a div 8) + (k - 8 * (a div 8)) = k"
      and "a mod 8 \<le> k - 8 * (a div 8)" "k - 8 * (a div 8) < a mod 8 + n"
      by presburger+
    with L get_bit_exact_range [OF assms] show "P k" by metis
  qed
next
  assume R: ?R
  have "a \<le> 8 * (a div 8) + k \<and> 8 * (a div 8) + k < a + n" if "a mod 8 \<le> k" "k < a mod 8 + n" for k
    using that by presburger
  with R show ?L unfolding get_bit_exact_range [OF assms] by blast
qed

subsection \<open>Properties\<close>

text \<open>\<open>create_request_bit_map\<close> marks exactly the requested range. For a request of \<open>n\<close> addresses
  from \<open>a\<close> whose last partial byte does not wrap (\<open>n mod 8 + a mod 8 < 8\<close>) the bitmap has
  \<open>(n + a mod 8) div 8 + 1\<close> bytes and its set bits are those of the range, counted from the byte of
  the start address.\<close>

lemma request_bitmap_exact:
  assumes "0 < n" "n \<le> 65535" "n mod 8 + a mod 8 < 8"
  shows "\<exists>bm. create_request_bit_map (int a) (int n) = Inr bm
    \<and> length bm = (n + a mod 8) div 8 + 1
    \<and> (\<forall>k. get_bit bm k \<longleftrightarrow> a mod 8 \<le> k \<and> k < a mod 8 + n)"
  using create_exact [of n a] get_bit_exact_range [of n "a mod 8"] assms by simp

text \<open>C33: \<open>create_request_bit_map\<close> reads outside its mask table, which is undefined behaviour, exactly
  for the requests with \<open>n mod 8 + a mod 8 > 8\<close>.\<close>

theorem request_bitmap_undefined_iff:
  assumes "0 < n" "n \<le> 65535"
  shows "create_request_bit_map (int a) (int n) = Inl undefined_behaviour \<longleftrightarrow> 8 < n mod 8 + a mod 8"
  using create_request_bit_map_nat [of n a] assms by (auto simp: high_bits_def)

theorem request_bitmap_undefined_iff_witness:
  "create_request_bit_map (int 7) (int 7) = Inl undefined_behaviour"
  using request_bitmap_undefined_iff [of 7 7] by simp

text \<open>For the requests with \<open>n mod 8 + a mod 8 = 8\<close> the bitmap also marks the eight addresses after
  the requested range.\<close>

lemma request_bitmap_overreach:
  assumes "0 < n" "n \<le> 65535" "n mod 8 + a mod 8 = 8"
  shows "\<exists>bm. create_request_bit_map (int a) (int n) = Inr bm
    \<and> (\<forall>k. get_bit bm k \<longleftrightarrow> a mod 8 \<le> k \<and> k < a mod 8 + n + 8)"
proof -
  let ?s = "a mod 8" let ?q = "(n + ?s) div 8"
  have "(n + ?s) mod 8 = 0" using assms(3) by (metis mod_add_left_eq mod_self)
  then have q: "8 * ?q = n + ?s" by (metis add.right_neutral mult_div_mod_eq)
  have ge: "\<not> n + ?s < 8" using q assms(1) by (cases ?q) auto
  then have h: "high_bits ?s n = 8" using assms(3) by (simp add: high_bits_def)
  have "get_bit (range_bitmap (?q + 1) 8 ?s) k \<longleftrightarrow> ?s \<le> k \<and> k < ?s + n + 8" for k
    using get_bit_range_bitmap [of "?q + 1" 8 ?s k] q ge by auto
  then show ?thesis
    using create_request_bit_map_nat [of n a] assms(1,2) h by auto
qed

text \<open>\<open>legal_address\<close> on the exact bitmap of a request: the last byte the bitmap has, the one of address
  \<open>a + n\<close>, must be in the access map.\<close>

lemma legal_exact:
  assumes "0 < n" "n \<le> 65535" "a \<le> 65535" "n mod 8 + a mod 8 < 8" "length acc < 2 ^ 64"
  shows "res_bind (create_request_bit_map (int a) (int n)) (\<lambda>bm. legal_address acc bm (int a)) =
    Inr (a + n < 8 * length acc \<and> (\<forall>k. a \<le> k \<and> k < a + n \<longrightarrow> get_bit acc k))"
proof -
  let ?s = "a mod 8" let ?sb = "a div 8" let ?q = "(n + ?s) div 8"
  let ?r = "range_bitmap (?q + 1) (high_bits ?s n) ?s"
  have "legal_address acc ?r (int a) =
      Inr (?sb + (?q + 1) \<le> length acc \<and> (\<forall>k. get_bit ?r k \<longrightarrow> get_bit acc (8 * ?sb + k)))"
    using legal_address_nat [of ?r a acc] assms(2,3,5) by simp
  moreover have "(\<forall>k. get_bit ?r k \<longrightarrow> get_bit acc (8 * ?sb + k)) \<longleftrightarrow>
      (\<forall>k. a \<le> k \<and> k < a + n \<longrightarrow> get_bit acc k)"
    by (rule exact_range_shift [OF assms(1,4)])
  moreover have "?sb + (?q + 1) \<le> length acc \<longleftrightarrow> a + n < 8 * length acc"
    using range_bytes_offset [of a n] by linarith
  ultimately show ?thesis
    using create_exact [of n a] assms(1,2,4) by (simp add: res_bind_def)
qed

text \<open>C27: \<open>legal_address\<close> on the bitmap of a request answers yes exactly when every requested address is
  marked accessible and the access map goes on behind the last of them, for the requests whose bitmap is
  exact. (A request that ends at the end of the map is refused.)\<close>

theorem legal_address_correct:
  assumes "0 < n" "n \<le> 65535" "a \<le> 65535" "n mod 8 + a mod 8 < 8" "length acc < 2 ^ 64"
  shows "res_bind (create_request_bit_map (int a) (int n)) (\<lambda>bm. legal_address acc bm (int a)) =
    Inr (a + n < 8 * length acc \<and> (\<forall>k. a \<le> k \<and> k < a + n \<longrightarrow> get_bit acc k))"
  using assms by (rule legal_exact)

theorem legal_address_correct_witness:
  "res_bind (create_request_bit_map (int 10) (int 17)) (\<lambda>bm. legal_address [0, 0xFC, 0xFF, 7] bm (int 10)) =
    Inr (\<forall>k. 10 \<le> k \<and> k < 27 \<longrightarrow> get_bit [0, 0xFC, 0xFF, 7] k)"
  using legal_address_correct [of 17 10 "[0, 0xFC, 0xFF, 7]"] by simp

text \<open>C26: whatever bitmap the source builds for a request, a positive answer of \<open>legal_address\<close> means
  that every requested address is marked accessible: no request outside the access map is let
  through.\<close>

theorem legal_address_sound:
  assumes "0 < n" "n \<le> 65535" "a \<le> 65535" "length acc < 2 ^ 64"
    and "create_request_bit_map (int a) (int n) = Inr bm"
    and "legal_address acc bm (int a) = Inr True"
    and "a \<le> k" "k < a + n"
  shows "get_bit acc k"
proof -
  have len: "length bm = (n + a mod 8) div 8 + 1" and ne: "bm \<noteq> []"
    using create_defined_length [of n a bm] assms(1,2,5) by simp_all
  then have "length bm < 2 ^ 31" using assms(2) by simp
  then have "\<forall>k. get_bit bm k \<longrightarrow> get_bit acc (8 * (a div 8) + k)"
    using legal_address_nat [OF ne] assms(3,4,6) by simp
  moreover have "get_bit bm (k - 8 * (a div 8))"
    using create_defined_covers [of n a bm k] assms by simp
  moreover have "8 * (a div 8) + (k - 8 * (a div 8)) = k" using assms(7) by presburger
  ultimately show ?thesis by metis
qed

theorem legal_address_sound_witness: "get_bit [0, 0x0C, 0, 0] 11"
proof -
  have "create_request_bit_map (int 10) (int 2) = Inr [0x0C]"
    by code_simp
  moreover have "legal_address [0, 0x0C, 0, 0] [0x0C] (int 10) = Inr True"
    by code_simp
  ultimately show ?thesis
    using legal_address_sound [of 2 10 "[0, 0x0C, 0, 0]" "[0x0C]" 11] by simp
qed

text \<open>A request that ends exactly at the end of the access map is refused, even when every address
  is marked accessible.\<close>

lemma legal_address_rejects_map_end:
  assumes "0 < n" "n \<le> 65535" "a \<le> 65535" "length acc < 2 ^ 64"
    and "a + n = 8 * length acc"
    and "create_request_bit_map (int a) (int n) = Inr bm"
  shows "legal_address acc bm (int a) = Inr False"
proof -
  have len: "length bm = (n + a mod 8) div 8 + 1" and ne: "bm \<noteq> []"
    using create_defined_length [of n a bm] assms(1,2,6) by simp_all
  have "(a + n) div 8 = length acc" using assms(5) by simp
  then have "a div 8 + length bm = length acc + 1"
    using range_bytes_offset [of a n] len by linarith
  then show ?thesis using legal_address_nat [OF ne, of a acc] assms(2-4) len by simp
qed

text \<open>\<open>legal_address\<close> guards \<open>copy_data_bits\<close>: after a positive answer on an access map no longer
  than the memory, copying the request reads inside the memory and returns.\<close>

lemma legal_address_guards_copy:
  assumes "legal_address acc bm (int a) = Inr True" "length acc \<le> length from" "length acc < 2 ^ 64"
    and "0 < n" "n \<le> 65535" "a \<le> 65535" "length bm \<le> 8193"
  shows "\<exists>out. copy_data_bits from bm (int a) (int n) = Inr out"
proof -
  have ne: "bm \<noteq> []" using assms(1) by (auto simp: legal_address_def)
  then have "a div 8 + length bm \<le> length acc"
    using legal_address_nat [OF ne, of a acc] assms(1,3,6,7) by simp
  then show ?thesis
    using copy_data_bits_nat [OF ne, of a "from" n] assms(2,4,5,7) by simp
qed

text \<open>On an overreaching bitmap the padding of the last byte is not cleared: it holds the values of the addresses after
  the range.\<close>

lemma copy_overreach:
  assumes "0 < n" "n \<le> 65535" "n mod 8 + a mod 8 = 8" "a + n < 8 * length from"
  shows "\<exists>out. load_bits from a n = Inr out \<and> length out = (n - 1) div 8 + 1
    \<and> (\<forall>k. get_bit out k \<longleftrightarrow> k < 8 * length out \<and> get_bit from (a + k))"
proof -
  let ?s = "a mod 8" let ?q = "(n + ?s) div 8"
  obtain r where r: "create_request_bit_map (int a) (int n) = Inr r"
      "\<And>k. get_bit r k \<longleftrightarrow> ?s \<le> k \<and> k < ?s + n + 8"
    using request_bitmap_overreach [OF assms(1-3)] by blast
  have len: "length r = ?q + 1"
    using r(1) create_request_bit_map_nat [of n a] assms(1,2) by (auto split: if_splits)
  define ys where "ys = shifted_down ?s (map (\<lambda>i. from ! (i + a div 8) AND r ! i) [0..<length r])"
  have ne: "r \<noteq> []" using len by auto
  have fit: "a div 8 + length r \<le> length from"
    using assms(4) range_bytes_offset [of a n] len by simp
  have bits: "get_bit ys k \<longleftrightarrow> k < n + 8 \<and> get_bit from (a + k)" for k
  proof -
    have "8 * (a div 8) + (k + ?s) = a + k" by simp
    then show ?thesis
      using get_bit_masked [OF fit, of "k + ?s"] r(2) [of "k + ?s"] ne by (simp add: get_bit_shifted_down ys_def)
  qed
  have "(n + ?s) mod 8 = 0" using assms(3) by (metis mod_add_left_eq mod_self)
  then have q: "8 * ?q = n + ?s" by (metis add.right_neutral mult_div_mod_eq)
  have s: "0 < ?s" "?s < 8" using assms(3) mod_less_divisor [of 8 n] by linarith+
  have d: "(n - 1) div 8 + 1 = ?q" using q s assms(1) by linarith
  have lys: "length ys = ?q + 1" using len by (simp add: shifted_down_def ys_def)
  have "n < 2 ^ 31" "length r < 2 ^ 31" using assms(2) q s(2) len by simp_all
  from copy_data_bits_nat [OF ne fit assms(1) this] have "load_bits from a n = Inr (butlast ys)"
    using r(1) len d by (simp add: res_bind_def Let_def ys_def)
  moreover have "get_bit (butlast ys) k \<longleftrightarrow> k < 8 * ?q \<and> get_bit from (a + k)" for k
    using bits [of k] lys q s(2) by (auto simp: get_bit_butlast)
  ultimately show ?thesis using lys d by simp
qed

text \<open>C24: what \<open>copy_data_bits\<close> returns on the bitmap of a request, for every request whose bitmap is defined and
  that ends before the end of the memory. The result has the minimal number of bytes, and the requested bits are packed
  from bit 0 on. If \<open>n mod 8 + a mod 8 < 8\<close>, every padding bit is clear. If the sum is 8, the padding of the last
  byte is not cleared but holds what the memory has after the requested range.\<close>

theorem copy_data_bits_correct:
  assumes "0 < n" "n \<le> 65535" "n mod 8 + a mod 8 \<le> 8" "a + n < 8 * length from"
  shows "\<exists>out. res_bind (create_request_bit_map (int a) (int n))
        (\<lambda>bm. copy_data_bits from bm (int a) (int n)) = Inr out
    \<and> length out = (n - 1) div 8 + 1
    \<and> (\<forall>k. get_bit out k \<longleftrightarrow>
          k < (if n mod 8 + a mod 8 < 8 then n else 8 * length out) \<and> get_bit from (a + k))"
  using load_bits_spec [OF assms(1,2) _ assms(4)] copy_overreach [OF assms(1,2) _ assms(4)] assms(3)
  by (cases "n mod 8 + a mod 8 < 8") auto

theorem copy_data_bits_correct_witness:
  "(\<exists>out. res_bind (create_request_bit_map (int 1) (int 9))
        (\<lambda>bm. copy_data_bits [0xA9, 0x9A, 6, 0] bm (int 1) (int 9)) = Inr out
    \<and> length out = 2 \<and> (\<forall>k. get_bit out k \<longleftrightarrow> k < 9 \<and> get_bit [0xA9, 0x9A, 6, 0] (1 + k)))
   \<and> (\<exists>out. res_bind (create_request_bit_map (int 2) (int 6))
        (\<lambda>bm. copy_data_bits [0xFF, 0xFF] bm (int 2) (int 6)) = Inr out
    \<and> length out = 1 \<and> (\<forall>k. get_bit out k \<longleftrightarrow> k < 8 \<and> get_bit [0xFF, 0xFF] (2 + k)))"
proof
  show "\<exists>out. res_bind (create_request_bit_map (int 1) (int 9))
        (\<lambda>bm. copy_data_bits [0xA9, 0x9A, 6, 0] bm (int 1) (int 9)) = Inr out
    \<and> length out = 2 \<and> (\<forall>k. get_bit out k \<longleftrightarrow> k < 9 \<and> get_bit [0xA9, 0x9A, 6, 0] (1 + k))"
    using copy_data_bits_correct [of 9 1 "[0xA9, 0x9A, 6, 0]"] by (simp add: numeral_2_eq_2)
  show "\<exists>out. res_bind (create_request_bit_map (int 2) (int 6))
        (\<lambda>bm. copy_data_bits [0xFF, 0xFF] bm (int 2) (int 6)) = Inr out
    \<and> length out = 1 \<and> (\<forall>k. get_bit out k \<longleftrightarrow> k < 8 \<and> get_bit [0xFF, 0xFF] (2 + k))"
    using copy_data_bits_correct [of 6 2 "[0xFF, 0xFF]"] by (auto cong: conj_cong)
qed

text \<open>So a read of the six coils from address 2 of a memory full of ones returns \<open>0xFF\<close>, with two coils that were
  not asked for, where the protocol has zeros.\<close>

lemma copy_padding_leaks:
  "res_bind (create_request_bit_map 2 6) (\<lambda>bm. copy_data_bits [0xFF, 0xFF] bm 2 6) = Inr [0xFF]"
  by code_simp

text \<open>\<open>write_coil\<close> changes the addressed bit and nothing else.\<close>

lemma write_coil_correct:
  assumes "a < 8 * length data"
  shows "\<exists>out. write_coil data v (int a) = Inr out \<and> length out = length data
    \<and> (\<forall>k. get_bit out k \<longleftrightarrow> (if k = a then v else get_bit data k))"
  using write_coil_nat [OF assms] .

text \<open>C25: where \<open>write_coils\<close> is right. On the bitmap of a request it stores the source coils in the requested range
  and leaves every other coil alone, when all of this holds: the bitmap is exact (\<open>n mod 8 + a mod 8 < 8\<close>), the source
  vector has a byte for each byte of the bitmap, which for a multiple of eight coils is one more than the
  coils need, the range starts on a byte boundary or ends before the sixteenth bit from the
  beginning of its first byte (\<open>n + a mod 8 < 16\<close>), and it ends before the last coil of the memory.\<close>

theorem write_coils_correct:
  assumes "0 < n" "n \<le> 65535" "n mod 8 + a mod 8 < 8" "a + n < 8 * length data"
    and "(n + a mod 8) div 8 < length cs" "a mod 8 = 0 \<or> n + a mod 8 < 16"
  shows "\<exists>out. res_bind (create_request_bit_map (int a) (int n))
        (\<lambda>bm. write_coils data bm cs (int a)) = Inr out
    \<and> length out = length data
    \<and> (\<forall>k. get_bit out k \<longleftrightarrow>
          (if a \<le> k \<and> k < a + n then get_bit cs (k - a) else get_bit data k))"
  using store_coils_spec [where cs = cs and a = a and n = n and data = data] assms by simp

theorem write_coils_correct_witness:
  "\<exists>out. res_bind (create_request_bit_map (int 2) (int 9))
        (\<lambda>bm. write_coils [0x9A, 0xA9, 1] bm [0xA9, 1] (int 2)) = Inr out \<and> length out = 3
    \<and> (\<forall>k. get_bit out k \<longleftrightarrow>
          (if 2 \<le> k \<and> k < 11 then get_bit [0xA9, 1] (k - 2) else get_bit [0x9A, 0xA9, 1] k))"
  using write_coils_correct [of 9 2 "[0x9A, 0xA9, 1]" "[0xA9, 1]"] by (simp add: numeral_3_eq_3)

text \<open>Coils written by \<open>write_coils\<close> are what \<open>copy_data_bits\<close> reads back from the same range.\<close>

lemma coils_write_read:
  assumes "0 < n" "n \<le> 65535" "n mod 8 + a mod 8 < 8" "a + n < 8 * length data"
    and "(n + a mod 8) div 8 < length cs" "a mod 8 = 0 \<or> n + a mod 8 < 16"
  shows "\<exists>bm mem out. create_request_bit_map (int a) (int n) = Inr bm
    \<and> write_coils data bm cs (int a) = Inr mem
    \<and> copy_data_bits mem bm (int a) (int n) = Inr out
    \<and> (\<forall>k. get_bit out k \<longleftrightarrow> k < n \<and> get_bit cs k)"
proof -
  obtain mem where mem: "store_coils cs data a n = Inr mem" "length mem = length data"
    "\<forall>k. get_bit mem k = (if a \<le> k \<and> k < a + n then get_bit cs (k - a) else get_bit data k)"
    using store_coils_spec [where cs = cs and a = a and n = n and data = data] assms by blast
  obtain out where out: "load_bits mem a n = Inr out"
    "\<forall>k. get_bit out k \<longleftrightarrow> k < n \<and> get_bit mem (a + k)"
    using load_bits_spec [of n a mem] mem(2) assms(1-4) by auto
  have "\<forall>k. get_bit out k \<longleftrightarrow> k < n \<and> get_bit cs k" using out(2) mem(3) by simp
  with mem(1) out(1) create_exact [of n a] assms(1-3) show ?thesis by (simp add: res_bind_def)
qed

text \<open>Writing a multiple of eight coils from a source vector of the packed length (\<open>n / 8\<close> bytes,
  what the request carries) always runs past the end of the source vector: the bitmap has one byte
  more.\<close>

lemma write_coils_full_bytes_undefined:
  assumes "0 < n" "n \<le> 65535" "n mod 8 = 0" "length cs = n div 8"
  shows "res_bind (create_request_bit_map (int a) (int n)) (\<lambda>bm. write_coils data bm cs (int a)) =
    Inl undefined_behaviour"
proof -
  have "create_request_bit_map (int a) (int n) =
      Inr (range_bitmap ((n + a mod 8) div 8 + 1) (high_bits (a mod 8) n) (a mod 8))"
    using create_exact [of n a] assms(1-3) by simp
  moreover have "0 < length cs" using assms(1,3,4) by auto
  moreover have "length cs < (n + a mod 8) div 8 + 1" using assms(4) div_le_mono [of n "n + a mod 8" 8] by simp
  ultimately show ?thesis by (simp add: res_bind_def write_coils_short)
qed

text \<open>On a range of three or more bytes that starts inside a byte, \<open>write_coils\<close> loses coils: here
  coil 15 of the source is on and the memory bit it belongs to, 16, is still off afterwards. The
  formatting loop carries bits out of bytes it has already shifted.\<close>

lemma write_coils_loses_carry:
  "create_request_bit_map 1 17 = Inr [0xFE, 0xFF, 0x03]
   \<and> write_coils [0, 0, 0] [0xFE, 0xFF, 0x03] [0, 0x80, 0] 1 = Inr [0, 0, 0]
   \<and> get_bit [0, 0x80, 0] 15 \<and> \<not> get_bit [0, 0, 0] 16"
proof (intro conjI)
  show "create_request_bit_map 1 17 = Inr [0xFE, 0xFF, 0x03]" by code_simp
  show "write_coils [0, 0, 0] [0xFE, 0xFF, 0x03] [0, 0x80, 0] 1 = Inr [0, 0, 0]" by code_simp
qed (simp_all add: get_bit_def)

text \<open>\<open>copy_data_registers\<close> returns the requested registers, two bytes each, high byte first.\<close>

lemma copy_data_registers_correct:
  assumes "2 * (a + n) \<le> length from" "a \<le> 65535" "n \<le> 65535"
  shows "copy_data_registers from (int a) (int n) = Inr (enc_words (map (get_reg from) [a..<a + n]))"
  using copy_data_registers_nat [of a n "from"] enc_regs [OF assms(1)] assms by simp

text \<open>C28: \<open>write_registers\<close> stores the source registers in the requested range, keeps every other
  register and the size of the memory, and \<open>copy_data_registers\<close> reads the values back.\<close>

theorem registers_write_read:
  assumes "n \<le> length ws" "2 * (a + n) \<le> length mem" "a \<le> 65535" "n \<le> 65535"
  shows "\<exists>mem'. write_registers ws mem (int a) (int n) = Inr mem' \<and> length mem' = length mem
    \<and> (\<forall>k. get_reg mem' k = (if a \<le> k \<and> k < a + n then ws ! (k - a) else get_reg mem k))
    \<and> copy_data_registers mem' (int a) (int n) = Inr (enc_words (take n ws))"
proof -
  obtain mem' where mem': "write_registers ws mem (int a) (int n) = Inr mem'" "length mem' = length mem"
    "\<forall>k. get_reg mem' k = (if a \<le> k \<and> k < a + n then ws ! (k - a) else get_reg mem k)"
    using write_registers_nat [of n ws a mem] assms by auto
  have "map (get_reg mem') [a..<a + n] = take n ws"
    using mem'(3) assms(1) by (intro nth_equalityI) auto
  then have "copy_data_registers mem' (int a) (int n) = Inr (enc_words (take n ws))"
    using copy_data_registers_nat [of a n mem'] enc_regs [of a n mem'] assms mem'(2) by simp
  with mem' show ?thesis by blast
qed

theorem registers_write_read_witness:
  "\<exists>mem'. write_registers [0xFF00, 0x00FF] [0, 0, 0, 0, 0, 0, 0, 0] (int 2) (int 2) = Inr mem'
    \<and> copy_data_registers mem' (int 2) (int 2) = Inr (enc_words [0xFF00, 0x00FF])"
  using registers_write_read [of 2 "[0xFF00, 0x00FF]" 2 "[0, 0, 0, 0, 0, 0, 0, 0]"] by auto

text \<open>\<open>write_register\<close> is \<open>write_registers\<close> of the one value.\<close>

lemma write_register_is_write_registers:
  assumes "2 * a + 1 < length mem" "a \<le> 65535"
  shows "write_register w mem (int a) = write_registers [w] mem (int a) 1"
proof -
  have s: "vec_seti mem (2 * int 0 + int a * 2) v = vec_set mem (2 * a) v"
    "vec_seti t (2 * int 0 + int a * 2 + 1) v = vec_set t (2 * a + 1) v" for t and v :: uint8
    by (rule vec_seti_eq, simp)+
  have "int_ok (int a * 2)" using assms(2) by (simp add: int_ok_def)
  then have "write_registers [w] mem (int a) 1 = Inr (mem[2 * a := hi8 w, 2 * a + 1 := lo8 w])"
    using assms(1) unfolding write_registers_def Let_def
    by (simp add: for_up_less s [simplified] lo8_of_ucast)
  then show ?thesis using write_register_nat [of a mem w] assms by simp
qed

end
