(* ===== verification/Modbus_Requests.thy ===== *)
theory Modbus_Requests
  imports Tcp_Data_Unit
begin

text \<open>
  The ten request classes of core/messages (\<open>*_request.hpp\<close>, \<open>*_request.cpp\<close>; core/requests.hpp
  includes them all). Each class is a record of its fields with its constructor (\<open>new_C\<close>), the
  constructor from an iterator (\<open>C_of_iterator\<close>), \<open>function_code()\<close>, \<open>type()\<close>, \<open>size()\<close>,
  \<open>serialize\<close>, \<open>operator==\<close> (\<open>C_eq\<close>) and \<open>operator!=\<close> (\<open>C_ne\<close>). The C++ fields \<open>length\<close>, \<open>values\<close> and
  \<open>value\<close> are called \<open>len\<close>, \<open>vals\<close>, \<open>coil_value\<close> and \<open>reg_value\<close>. \<open>C_encode\<close> is the wire image the MODBUS standard prescribes.

  Every class is an instance of \<open>pdu_message\<close>, and of \<open>fixed_pdu\<close> or \<open>counted_pdu\<close>.
\<close>

subsection \<open>The request classes\<close>

subsubsection \<open>mask_write_register_request\<close>

record mask_write_register_request =
  unit_id :: uint8
  start_address :: uint16
  and_mask :: uint16
  or_mask :: uint16

definition new_mask_write_register_request :: "uint8 \<Rightarrow> uint16 \<Rightarrow> uint16 \<Rightarrow> uint16 \<Rightarrow> mask_write_register_request" where
  "new_mask_write_register_request u a b c = mask_write_register_request.make u a b c"

definition mask_write_register_request_of_iterator ::
  "const_buffer_iterator \<Rightarrow> mask_write_register_request option" where
  "mask_write_register_request_of_iterator it = do {
     (u, it) \<leftarrow> deref_inc it;
     it \<leftarrow> inc it;
     (a, it) \<leftarrow> get_u16 it;
     (b, it) \<leftarrow> get_u16 it;
     (c, it) \<leftarrow> get_u16 it;
     Some (mask_write_register_request.make u a b c) }"

definition mask_write_register_request_function_code :: function_code_t where
  "mask_write_register_request_function_code = function_code_value mask_write_register"

definition mask_write_register_request_type :: message_type where
  "mask_write_register_request_type = request"

definition mask_write_register_request_size :: "mask_write_register_request \<Rightarrow> nat" where
  "mask_write_register_request_size m = 1 + 1 + 2 + 2 + 2"

definition mask_write_register_request_serialize ::
  "mask_write_register_request \<Rightarrow> buffer_iterator \<Rightarrow> buffer_iterator option" where
  "mask_write_register_request_serialize m it = do {
     it \<leftarrow> put (mask_write_register_request.unit_id m) it;
     it \<leftarrow> put mask_write_register_request_function_code it;
     it \<leftarrow> put_u16 (mask_write_register_request.start_address m) it;
     it \<leftarrow> put_u16 (mask_write_register_request.and_mask m) it;
     put_u16 (mask_write_register_request.or_mask m) it }"

definition mask_write_register_request_eq :: "mask_write_register_request \<Rightarrow> mask_write_register_request \<Rightarrow> bool" where
  "mask_write_register_request_eq lhs rhs \<longleftrightarrow>
     mask_write_register_request.unit_id lhs = mask_write_register_request.unit_id rhs \<and>
     mask_write_register_request.start_address lhs = mask_write_register_request.start_address rhs \<and>
     mask_write_register_request.and_mask lhs = mask_write_register_request.and_mask rhs \<and>
     mask_write_register_request.or_mask lhs = mask_write_register_request.or_mask rhs"

definition mask_write_register_request_ne :: "mask_write_register_request \<Rightarrow> mask_write_register_request \<Rightarrow> bool" where
  "mask_write_register_request_ne lhs rhs \<longleftrightarrow> \<not> mask_write_register_request_eq lhs rhs"

definition mask_write_register_request_encode :: "mask_write_register_request \<Rightarrow> uint8 list" where
  "mask_write_register_request_encode m =
     [mask_write_register_request.unit_id m, mask_write_register_request_function_code] @
     enc_u16 (mask_write_register_request.start_address m) @
     enc_u16 (mask_write_register_request.and_mask m) @
     enc_u16 (mask_write_register_request.or_mask m)"

subsubsection \<open>read_coils_request\<close>

record read_coils_request =
  unit_id :: uint8
  start_address :: uint16
  len :: uint16

definition new_read_coils_request :: "uint8 \<Rightarrow> uint16 \<Rightarrow> uint16 \<Rightarrow> read_coils_request" where
  "new_read_coils_request u a b = read_coils_request.make u a b"

definition read_coils_request_of_iterator ::
  "const_buffer_iterator \<Rightarrow> read_coils_request option" where
  "read_coils_request_of_iterator it = do {
     (u, it) \<leftarrow> deref_inc it;
     it \<leftarrow> inc it;
     (a, it) \<leftarrow> get_u16 it;
     (h, it) \<leftarrow> deref_inc it;
     l \<leftarrow> deref it;
     Some (read_coils_request.make u a (be16 h l)) }"

definition read_coils_request_function_code :: function_code_t where
  "read_coils_request_function_code = function_code_value read_coils"

definition read_coils_request_type :: message_type where
  "read_coils_request_type = request"

definition read_coils_request_size :: "read_coils_request \<Rightarrow> nat" where
  "read_coils_request_size m = 1 + 1 + 2 + 2"

definition read_coils_request_serialize ::
  "read_coils_request \<Rightarrow> buffer_iterator \<Rightarrow> buffer_iterator option" where
  "read_coils_request_serialize m it = do {
     it \<leftarrow> put (read_coils_request.unit_id m) it;
     it \<leftarrow> put read_coils_request_function_code it;
     it \<leftarrow> put_u16 (read_coils_request.start_address m) it;
     put_u16 (read_coils_request.len m) it }"

definition read_coils_request_eq :: "read_coils_request \<Rightarrow> read_coils_request \<Rightarrow> bool" where
  "read_coils_request_eq lhs rhs \<longleftrightarrow>
     read_coils_request.unit_id lhs = read_coils_request.unit_id rhs \<and>
     read_coils_request.start_address lhs = read_coils_request.start_address rhs \<and>
     read_coils_request.len lhs = read_coils_request.len rhs"

definition read_coils_request_ne :: "read_coils_request \<Rightarrow> read_coils_request \<Rightarrow> bool" where
  "read_coils_request_ne lhs rhs \<longleftrightarrow> \<not> read_coils_request_eq lhs rhs"

definition read_coils_request_encode :: "read_coils_request \<Rightarrow> uint8 list" where
  "read_coils_request_encode m =
     [read_coils_request.unit_id m, read_coils_request_function_code] @
     enc_u16 (read_coils_request.start_address m) @
     enc_u16 (read_coils_request.len m)"

subsubsection \<open>read_discrete_inputs_request\<close>

record read_discrete_inputs_request =
  unit_id :: uint8
  start_address :: uint16
  len :: uint16

definition new_read_discrete_inputs_request :: "uint8 \<Rightarrow> uint16 \<Rightarrow> uint16 \<Rightarrow> read_discrete_inputs_request" where
  "new_read_discrete_inputs_request u a b = read_discrete_inputs_request.make u a b"

definition read_discrete_inputs_request_of_iterator ::
  "const_buffer_iterator \<Rightarrow> read_discrete_inputs_request option" where
  "read_discrete_inputs_request_of_iterator it = do {
     (u, it) \<leftarrow> deref_inc it;
     it \<leftarrow> inc it;
     (a, it) \<leftarrow> get_u16 it;
     (h, it) \<leftarrow> deref_inc it;
     l \<leftarrow> deref it;
     Some (read_discrete_inputs_request.make u a (be16 h l)) }"

definition read_discrete_inputs_request_function_code :: function_code_t where
  "read_discrete_inputs_request_function_code = function_code_value read_discrete_inputs"

definition read_discrete_inputs_request_type :: message_type where
  "read_discrete_inputs_request_type = request"

definition read_discrete_inputs_request_size :: "read_discrete_inputs_request \<Rightarrow> nat" where
  "read_discrete_inputs_request_size m = 1 + 1 + 2 + 2"

definition read_discrete_inputs_request_serialize ::
  "read_discrete_inputs_request \<Rightarrow> buffer_iterator \<Rightarrow> buffer_iterator option" where
  "read_discrete_inputs_request_serialize m it = do {
     it \<leftarrow> put (read_discrete_inputs_request.unit_id m) it;
     it \<leftarrow> put read_discrete_inputs_request_function_code it;
     it \<leftarrow> put_u16 (read_discrete_inputs_request.start_address m) it;
     put_u16 (read_discrete_inputs_request.len m) it }"

definition read_discrete_inputs_request_eq :: "read_discrete_inputs_request \<Rightarrow> read_discrete_inputs_request \<Rightarrow> bool" where
  "read_discrete_inputs_request_eq lhs rhs \<longleftrightarrow>
     read_discrete_inputs_request.unit_id lhs = read_discrete_inputs_request.unit_id rhs \<and>
     read_discrete_inputs_request.start_address lhs = read_discrete_inputs_request.start_address rhs \<and>
     read_discrete_inputs_request.len lhs = read_discrete_inputs_request.len rhs"

definition read_discrete_inputs_request_ne :: "read_discrete_inputs_request \<Rightarrow> read_discrete_inputs_request \<Rightarrow> bool" where
  "read_discrete_inputs_request_ne lhs rhs \<longleftrightarrow> \<not> read_discrete_inputs_request_eq lhs rhs"

definition read_discrete_inputs_request_encode :: "read_discrete_inputs_request \<Rightarrow> uint8 list" where
  "read_discrete_inputs_request_encode m =
     [read_discrete_inputs_request.unit_id m, read_discrete_inputs_request_function_code] @
     enc_u16 (read_discrete_inputs_request.start_address m) @
     enc_u16 (read_discrete_inputs_request.len m)"

subsubsection \<open>read_holding_registers_request\<close>

record read_holding_registers_request =
  unit_id :: uint8
  start_address :: uint16
  len :: uint16

definition new_read_holding_registers_request :: "uint8 \<Rightarrow> uint16 \<Rightarrow> uint16 \<Rightarrow> read_holding_registers_request" where
  "new_read_holding_registers_request u a b = read_holding_registers_request.make u a b"

definition read_holding_registers_request_of_iterator ::
  "const_buffer_iterator \<Rightarrow> read_holding_registers_request option" where
  "read_holding_registers_request_of_iterator it = do {
     (u, it) \<leftarrow> deref_inc it;
     it \<leftarrow> inc it;
     (a, it) \<leftarrow> get_u16 it;
     (h, it) \<leftarrow> deref_inc it;
     l \<leftarrow> deref it;
     Some (read_holding_registers_request.make u a (be16 h l)) }"

definition read_holding_registers_request_function_code :: function_code_t where
  "read_holding_registers_request_function_code = function_code_value read_holding_registers"

definition read_holding_registers_request_type :: message_type where
  "read_holding_registers_request_type = request"

definition read_holding_registers_request_size :: "read_holding_registers_request \<Rightarrow> nat" where
  "read_holding_registers_request_size m = 1 + 1 + 2 + 2"

definition read_holding_registers_request_serialize ::
  "read_holding_registers_request \<Rightarrow> buffer_iterator \<Rightarrow> buffer_iterator option" where
  "read_holding_registers_request_serialize m it = do {
     it \<leftarrow> put (read_holding_registers_request.unit_id m) it;
     it \<leftarrow> put read_holding_registers_request_function_code it;
     it \<leftarrow> put_u16 (read_holding_registers_request.start_address m) it;
     put_u16 (read_holding_registers_request.len m) it }"

definition read_holding_registers_request_eq :: "read_holding_registers_request \<Rightarrow> read_holding_registers_request \<Rightarrow> bool" where
  "read_holding_registers_request_eq lhs rhs \<longleftrightarrow>
     read_holding_registers_request.unit_id lhs = read_holding_registers_request.unit_id rhs \<and>
     read_holding_registers_request.start_address lhs = read_holding_registers_request.start_address rhs \<and>
     read_holding_registers_request.len lhs = read_holding_registers_request.len rhs"

definition read_holding_registers_request_ne :: "read_holding_registers_request \<Rightarrow> read_holding_registers_request \<Rightarrow> bool" where
  "read_holding_registers_request_ne lhs rhs \<longleftrightarrow> \<not> read_holding_registers_request_eq lhs rhs"

definition read_holding_registers_request_encode :: "read_holding_registers_request \<Rightarrow> uint8 list" where
  "read_holding_registers_request_encode m =
     [read_holding_registers_request.unit_id m, read_holding_registers_request_function_code] @
     enc_u16 (read_holding_registers_request.start_address m) @
     enc_u16 (read_holding_registers_request.len m)"

subsubsection \<open>read_input_registers_request\<close>

record read_input_registers_request =
  unit_id :: uint8
  start_address :: uint16
  len :: uint16

definition new_read_input_registers_request :: "uint8 \<Rightarrow> uint16 \<Rightarrow> uint16 \<Rightarrow> read_input_registers_request" where
  "new_read_input_registers_request u a b = read_input_registers_request.make u a b"

definition read_input_registers_request_of_iterator ::
  "const_buffer_iterator \<Rightarrow> read_input_registers_request option" where
  "read_input_registers_request_of_iterator it = do {
     (u, it) \<leftarrow> deref_inc it;
     it \<leftarrow> inc it;
     (a, it) \<leftarrow> get_u16 it;
     (h, it) \<leftarrow> deref_inc it;
     l \<leftarrow> deref it;
     Some (read_input_registers_request.make u a (be16 h l)) }"

definition read_input_registers_request_function_code :: function_code_t where
  "read_input_registers_request_function_code = function_code_value read_input_registers"

definition read_input_registers_request_type :: message_type where
  "read_input_registers_request_type = request"

definition read_input_registers_request_size :: "read_input_registers_request \<Rightarrow> nat" where
  "read_input_registers_request_size m = 1 + 1 + 2 + 2"

definition read_input_registers_request_serialize ::
  "read_input_registers_request \<Rightarrow> buffer_iterator \<Rightarrow> buffer_iterator option" where
  "read_input_registers_request_serialize m it = do {
     it \<leftarrow> put (read_input_registers_request.unit_id m) it;
     it \<leftarrow> put read_input_registers_request_function_code it;
     it \<leftarrow> put_u16 (read_input_registers_request.start_address m) it;
     put_u16 (read_input_registers_request.len m) it }"

definition read_input_registers_request_eq :: "read_input_registers_request \<Rightarrow> read_input_registers_request \<Rightarrow> bool" where
  "read_input_registers_request_eq lhs rhs \<longleftrightarrow>
     read_input_registers_request.unit_id lhs = read_input_registers_request.unit_id rhs \<and>
     read_input_registers_request.start_address lhs = read_input_registers_request.start_address rhs \<and>
     read_input_registers_request.len lhs = read_input_registers_request.len rhs"

definition read_input_registers_request_ne :: "read_input_registers_request \<Rightarrow> read_input_registers_request \<Rightarrow> bool" where
  "read_input_registers_request_ne lhs rhs \<longleftrightarrow> \<not> read_input_registers_request_eq lhs rhs"

definition read_input_registers_request_encode :: "read_input_registers_request \<Rightarrow> uint8 list" where
  "read_input_registers_request_encode m =
     [read_input_registers_request.unit_id m, read_input_registers_request_function_code] @
     enc_u16 (read_input_registers_request.start_address m) @
     enc_u16 (read_input_registers_request.len m)"

subsubsection \<open>read_write_registers_request\<close>

record read_write_registers_request =
  unit_id :: uint8
  read_start_address :: uint16
  read_num_registers :: uint16
  write_start_address :: uint16
  write_num_registers :: uint16
  vals :: "uint16 list"

definition new_read_write_registers_request ::
  "uint8 \<Rightarrow> uint16 \<Rightarrow> uint16 \<Rightarrow> uint16 \<Rightarrow> uint16 list \<Rightarrow> read_write_registers_request" where
  "new_read_write_registers_request u a b c vs =
     read_write_registers_request.make u a b c (of_nat (length vs)) vs"

definition read_write_registers_request_of_iterator ::
  "const_buffer_iterator \<Rightarrow> read_write_registers_request option" where
  "read_write_registers_request_of_iterator it = do {
     (u, it) \<leftarrow> deref_inc it;
     it \<leftarrow> inc it;
     (a, it) \<leftarrow> get_u16 it;
     (b, it) \<leftarrow> get_u16 it;
     (c, it) \<leftarrow> get_u16 it;
     (d, it) \<leftarrow> get_u16 it;
     (numBytes, it) \<leftarrow> deref_inc it;
     (e, it) \<leftarrow> get_words (unat numBytes div 2) it;
     Some (read_write_registers_request.make u a b c (of_nat (length e)) e) }"

definition read_write_registers_request_function_code :: function_code_t where
  "read_write_registers_request_function_code = function_code_value read_write_multiple_registers"

definition read_write_registers_request_type :: message_type where
  "read_write_registers_request_type = request"

definition read_write_registers_request_size :: "read_write_registers_request \<Rightarrow> nat" where
  "read_write_registers_request_size m = 1 + 1 + 2 + 2 + 2 + 2 + 1 + 2 * length (read_write_registers_request.vals m)"

definition read_write_registers_request_serialize ::
  "read_write_registers_request \<Rightarrow> buffer_iterator \<Rightarrow> buffer_iterator option" where
  "read_write_registers_request_serialize m it = do {
     it \<leftarrow> put (read_write_registers_request.unit_id m) it;
     it \<leftarrow> put read_write_registers_request_function_code it;
     it \<leftarrow> put_u16 (read_write_registers_request.read_start_address m) it;
     it \<leftarrow> put_u16 (read_write_registers_request.read_num_registers m) it;
     it \<leftarrow> put_u16 (read_write_registers_request.write_start_address m) it;
     it \<leftarrow> put_u16 (read_write_registers_request.write_num_registers m) it;
     it \<leftarrow> put (of_nat (length (read_write_registers_request.vals m) * 2)) it;
     put_words (read_write_registers_request.vals m) it }"

definition read_write_registers_request_eq :: "read_write_registers_request \<Rightarrow> read_write_registers_request \<Rightarrow> bool" where
  "read_write_registers_request_eq lhs rhs \<longleftrightarrow>
     read_write_registers_request.unit_id lhs = read_write_registers_request.unit_id rhs \<and>
     read_write_registers_request.read_start_address lhs = read_write_registers_request.read_start_address rhs \<and>
     read_write_registers_request.read_num_registers lhs = read_write_registers_request.read_num_registers rhs \<and>
     read_write_registers_request.write_start_address lhs = read_write_registers_request.write_start_address rhs \<and>
     read_write_registers_request.write_num_registers lhs = read_write_registers_request.write_num_registers rhs \<and>
     read_write_registers_request.vals lhs = read_write_registers_request.vals rhs"

definition read_write_registers_request_ne :: "read_write_registers_request \<Rightarrow> read_write_registers_request \<Rightarrow> bool" where
  "read_write_registers_request_ne lhs rhs \<longleftrightarrow> \<not> read_write_registers_request_eq lhs rhs"

definition read_write_registers_request_encode :: "read_write_registers_request \<Rightarrow> uint8 list" where
  "read_write_registers_request_encode m =
     [read_write_registers_request.unit_id m, read_write_registers_request_function_code] @
     enc_u16 (read_write_registers_request.read_start_address m) @
     enc_u16 (read_write_registers_request.read_num_registers m) @
     enc_u16 (read_write_registers_request.write_start_address m) @
     enc_u16 (read_write_registers_request.write_num_registers m) @
     [of_nat (length (read_write_registers_request.vals m) * 2)] @
     enc_words (read_write_registers_request.vals m)"

subsubsection \<open>write_multiple_coils_request\<close>

record write_multiple_coils_request =
  unit_id :: uint8
  start_address :: uint16
  len :: uint16
  vals :: "uint8 list"

definition new_write_multiple_coils_request :: "uint8 \<Rightarrow> uint16 \<Rightarrow> uint16 \<Rightarrow> uint8 list \<Rightarrow> write_multiple_coils_request" where
  "new_write_multiple_coils_request u a b c = write_multiple_coils_request.make u a b c"

definition write_multiple_coils_request_of_iterator ::
  "const_buffer_iterator \<Rightarrow> write_multiple_coils_request option" where
  "write_multiple_coils_request_of_iterator it = do {
     (u, it) \<leftarrow> deref_inc it;
     it \<leftarrow> inc it;
     (a, it) \<leftarrow> get_u16 it;
     (b, it) \<leftarrow> get_u16 it;
     (numBytes, it) \<leftarrow> deref_inc it;
     (c, it) \<leftarrow> get_bytes (unat numBytes) it;
     Some (write_multiple_coils_request.make u a b c) }"

definition write_multiple_coils_request_function_code :: function_code_t where
  "write_multiple_coils_request_function_code = function_code_value write_multiple_coils"

definition write_multiple_coils_request_type :: message_type where
  "write_multiple_coils_request_type = request"

definition write_multiple_coils_request_size :: "write_multiple_coils_request \<Rightarrow> nat" where
  "write_multiple_coils_request_size m = 1 + 1 + 2 + 2 + 1 + 1 * length (write_multiple_coils_request.vals m)"

definition write_multiple_coils_request_serialize ::
  "write_multiple_coils_request \<Rightarrow> buffer_iterator \<Rightarrow> buffer_iterator option" where
  "write_multiple_coils_request_serialize m it = do {
     it \<leftarrow> put (write_multiple_coils_request.unit_id m) it;
     it \<leftarrow> put write_multiple_coils_request_function_code it;
     it \<leftarrow> put_u16 (write_multiple_coils_request.start_address m) it;
     it \<leftarrow> put_u16 (write_multiple_coils_request.len m) it;
     it \<leftarrow> put (of_nat (length (write_multiple_coils_request.vals m))) it;
     put_bytes (write_multiple_coils_request.vals m) it }"

definition write_multiple_coils_request_eq :: "write_multiple_coils_request \<Rightarrow> write_multiple_coils_request \<Rightarrow> bool" where
  "write_multiple_coils_request_eq lhs rhs \<longleftrightarrow>
     write_multiple_coils_request.unit_id lhs = write_multiple_coils_request.unit_id rhs \<and>
     write_multiple_coils_request.start_address lhs = write_multiple_coils_request.start_address rhs \<and>
     write_multiple_coils_request.len lhs = write_multiple_coils_request.len rhs \<and>
     write_multiple_coils_request.vals lhs = write_multiple_coils_request.vals rhs"

definition write_multiple_coils_request_ne :: "write_multiple_coils_request \<Rightarrow> write_multiple_coils_request \<Rightarrow> bool" where
  "write_multiple_coils_request_ne lhs rhs \<longleftrightarrow> \<not> write_multiple_coils_request_eq lhs rhs"

text \<open>The constructor from \<open>std::vector<bool>\<close>: the coils are packed eight to a byte, least
  significant bit first. The loop body writes \<open>this->values[boolNumber / 8]\<close> unchecked, and the
  vector was sized from the length truncated to 16 bits.\<close>

fun pack_bools :: "bool list \<Rightarrow> nat \<Rightarrow> uint8 list \<Rightarrow> uint8 list option" where
  "pack_bools [] boolNumber vs = Some vs"
| "pack_bools (v # bs) boolNumber vs =
     (if v then do {
        x \<leftarrow> vec_get vs (boolNumber div 8);
        vs \<leftarrow> vec_set vs (boolNumber div 8) (x OR push_bit (boolNumber mod 8) 1);
        pack_bools bs (Suc boolNumber) vs }
      else pack_bools bs (Suc boolNumber) vs)"

definition new_write_multiple_coils_request_bools ::
  "uint8 \<Rightarrow> uint16 \<Rightarrow> bool list \<Rightarrow> write_multiple_coils_request option" where
  "new_write_multiple_coils_request_bools u a bs =
     (let n = (of_nat (length bs) :: uint16);
          numBytes = n div 8;
          numBytes = (if n mod 8 \<noteq> 0 then numBytes + 1 else numBytes)
      in do {
        vs \<leftarrow> pack_bools bs 0 (vec_resize [] (unat numBytes));
        Some (write_multiple_coils_request.make u a n vs) })"

definition write_multiple_coils_request_encode :: "write_multiple_coils_request \<Rightarrow> uint8 list" where
  "write_multiple_coils_request_encode m =
     [write_multiple_coils_request.unit_id m, write_multiple_coils_request_function_code] @
     enc_u16 (write_multiple_coils_request.start_address m) @
     enc_u16 (write_multiple_coils_request.len m) @
     [of_nat (length (write_multiple_coils_request.vals m))] @
     write_multiple_coils_request.vals m"

subsubsection \<open>write_multiple_registers_request\<close>

record write_multiple_registers_request =
  unit_id :: uint8
  start_address :: uint16
  len :: uint16
  vals :: "uint16 list"

definition new_write_multiple_registers_request :: "uint8 \<Rightarrow> uint16 \<Rightarrow> uint16 \<Rightarrow> uint16 list \<Rightarrow> write_multiple_registers_request" where
  "new_write_multiple_registers_request u a b c = write_multiple_registers_request.make u a b c"

definition write_multiple_registers_request_of_iterator ::
  "const_buffer_iterator \<Rightarrow> write_multiple_registers_request option" where
  "write_multiple_registers_request_of_iterator it = do {
     (u, it) \<leftarrow> deref_inc it;
     it \<leftarrow> inc it;
     (a, it) \<leftarrow> get_u16 it;
     (b, it) \<leftarrow> get_u16 it;
     (numBytes, it) \<leftarrow> deref_inc it;
     (c, it) \<leftarrow> get_words (unat numBytes div 2) it;
     Some (write_multiple_registers_request.make u a b c) }"

definition write_multiple_registers_request_function_code :: function_code_t where
  "write_multiple_registers_request_function_code = function_code_value write_multiple_registers"

definition write_multiple_registers_request_type :: message_type where
  "write_multiple_registers_request_type = request"

definition write_multiple_registers_request_size :: "write_multiple_registers_request \<Rightarrow> nat" where
  "write_multiple_registers_request_size m = 1 + 1 + 2 + 2 + 1 + 2 * length (write_multiple_registers_request.vals m)"

definition write_multiple_registers_request_serialize ::
  "write_multiple_registers_request \<Rightarrow> buffer_iterator \<Rightarrow> buffer_iterator option" where
  "write_multiple_registers_request_serialize m it = do {
     it \<leftarrow> put (write_multiple_registers_request.unit_id m) it;
     it \<leftarrow> put write_multiple_registers_request_function_code it;
     it \<leftarrow> put_u16 (write_multiple_registers_request.start_address m) it;
     it \<leftarrow> put_u16 (write_multiple_registers_request.len m) it;
     it \<leftarrow> put (of_nat (length (write_multiple_registers_request.vals m) * 2)) it;
     put_words (write_multiple_registers_request.vals m) it }"

definition write_multiple_registers_request_eq :: "write_multiple_registers_request \<Rightarrow> write_multiple_registers_request \<Rightarrow> bool" where
  "write_multiple_registers_request_eq lhs rhs \<longleftrightarrow>
     write_multiple_registers_request.unit_id lhs = write_multiple_registers_request.unit_id rhs \<and>
     write_multiple_registers_request.start_address lhs = write_multiple_registers_request.start_address rhs \<and>
     write_multiple_registers_request.vals lhs = write_multiple_registers_request.vals rhs"

definition write_multiple_registers_request_ne :: "write_multiple_registers_request \<Rightarrow> write_multiple_registers_request \<Rightarrow> bool" where
  "write_multiple_registers_request_ne lhs rhs \<longleftrightarrow> \<not> write_multiple_registers_request_eq lhs rhs"

definition write_multiple_registers_request_encode :: "write_multiple_registers_request \<Rightarrow> uint8 list" where
  "write_multiple_registers_request_encode m =
     [write_multiple_registers_request.unit_id m, write_multiple_registers_request_function_code] @
     enc_u16 (write_multiple_registers_request.start_address m) @
     enc_u16 (write_multiple_registers_request.len m) @
     [of_nat (length (write_multiple_registers_request.vals m) * 2)] @
     enc_words (write_multiple_registers_request.vals m)"

subsubsection \<open>write_single_coil_request\<close>

record write_single_coil_request =
  unit_id :: uint8
  start_address :: uint16
  coil_value :: bool

definition new_write_single_coil_request :: "uint8 \<Rightarrow> uint16 \<Rightarrow> bool \<Rightarrow> write_single_coil_request" where
  "new_write_single_coil_request u a b = write_single_coil_request.make u a b"

definition write_single_coil_request_of_iterator ::
  "const_buffer_iterator \<Rightarrow> write_single_coil_request option" where
  "write_single_coil_request_of_iterator it = do {
     (u, it) \<leftarrow> deref_inc it;
     it \<leftarrow> inc it;
     (a, it) \<leftarrow> get_u16 it;
     (h, it) \<leftarrow> deref_inc it;
     l \<leftarrow> deref it;
     Some (write_single_coil_request.make u a (be16 h l = coil_status_value coil_on)) }"

definition write_single_coil_request_function_code :: function_code_t where
  "write_single_coil_request_function_code = function_code_value write_single_coil"

definition write_single_coil_request_type :: message_type where
  "write_single_coil_request_type = request"

definition write_single_coil_request_size :: "write_single_coil_request \<Rightarrow> nat" where
  "write_single_coil_request_size m = 1 + 1 + 2 + 2"

definition write_single_coil_request_serialize ::
  "write_single_coil_request \<Rightarrow> buffer_iterator \<Rightarrow> buffer_iterator option" where
  "write_single_coil_request_serialize m it = do {
     it \<leftarrow> put (write_single_coil_request.unit_id m) it;
     it \<leftarrow> put write_single_coil_request_function_code it;
     it \<leftarrow> put_u16 (write_single_coil_request.start_address m) it;
     it \<leftarrow> put (if write_single_coil_request.coil_value m then 0xFF else 0x00) it;
     put 0x00 it }"

definition write_single_coil_request_eq :: "write_single_coil_request \<Rightarrow> write_single_coil_request \<Rightarrow> bool" where
  "write_single_coil_request_eq lhs rhs \<longleftrightarrow>
     write_single_coil_request.unit_id lhs = write_single_coil_request.unit_id rhs \<and>
     write_single_coil_request.start_address lhs = write_single_coil_request.start_address rhs \<and>
     write_single_coil_request.coil_value lhs = write_single_coil_request.coil_value rhs"

definition write_single_coil_request_ne :: "write_single_coil_request \<Rightarrow> write_single_coil_request \<Rightarrow> bool" where
  "write_single_coil_request_ne lhs rhs \<longleftrightarrow> \<not> write_single_coil_request_eq lhs rhs"

definition write_single_coil_request_encode :: "write_single_coil_request \<Rightarrow> uint8 list" where
  "write_single_coil_request_encode m =
     [write_single_coil_request.unit_id m, write_single_coil_request_function_code] @
     enc_u16 (write_single_coil_request.start_address m) @
     [if write_single_coil_request.coil_value m then 0xFF else 0x00, 0x00]"

subsubsection \<open>write_single_register_request\<close>

record write_single_register_request =
  unit_id :: uint8
  start_address :: uint16
  reg_value :: uint16

definition new_write_single_register_request :: "uint8 \<Rightarrow> uint16 \<Rightarrow> uint16 \<Rightarrow> write_single_register_request" where
  "new_write_single_register_request u a b = write_single_register_request.make u a b"

definition write_single_register_request_of_iterator ::
  "const_buffer_iterator \<Rightarrow> write_single_register_request option" where
  "write_single_register_request_of_iterator it = do {
     (u, it) \<leftarrow> deref_inc it;
     it \<leftarrow> inc it;
     (a, it) \<leftarrow> get_u16 it;
     (b, it) \<leftarrow> get_u16 it;
     Some (write_single_register_request.make u a b) }"

definition write_single_register_request_function_code :: function_code_t where
  "write_single_register_request_function_code = function_code_value write_single_register"

definition write_single_register_request_type :: message_type where
  "write_single_register_request_type = request"

definition write_single_register_request_size :: "write_single_register_request \<Rightarrow> nat" where
  "write_single_register_request_size m = 1 + 1 + 2 + 2"

definition write_single_register_request_serialize ::
  "write_single_register_request \<Rightarrow> buffer_iterator \<Rightarrow> buffer_iterator option" where
  "write_single_register_request_serialize m it = do {
     it \<leftarrow> put (write_single_register_request.unit_id m) it;
     it \<leftarrow> put write_single_register_request_function_code it;
     it \<leftarrow> put_u16 (write_single_register_request.start_address m) it;
     put_u16 (write_single_register_request.reg_value m) it }"

definition write_single_register_request_eq :: "write_single_register_request \<Rightarrow> write_single_register_request \<Rightarrow> bool" where
  "write_single_register_request_eq lhs rhs \<longleftrightarrow>
     write_single_register_request.unit_id lhs = write_single_register_request.unit_id rhs \<and>
     write_single_register_request.start_address lhs = write_single_register_request.start_address rhs \<and>
     write_single_register_request.reg_value lhs = write_single_register_request.reg_value rhs"

definition write_single_register_request_ne :: "write_single_register_request \<Rightarrow> write_single_register_request \<Rightarrow> bool" where
  "write_single_register_request_ne lhs rhs \<longleftrightarrow> \<not> write_single_register_request_eq lhs rhs"

definition write_single_register_request_encode :: "write_single_register_request \<Rightarrow> uint8 list" where
  "write_single_register_request_encode m =
     [write_single_register_request.unit_id m, write_single_register_request_function_code] @
     enc_u16 (write_single_register_request.start_address m) @
     enc_u16 (write_single_register_request.reg_value m)"

subsection \<open>The classes implement the message interface\<close>

lemmas mwq_defs = mask_write_register_request_of_iterator_def mask_write_register_request_serialize_def mask_write_register_request_size_def
  mask_write_register_request_encode_def mask_write_register_request_function_code_def mask_write_register_request.defs

interpretation mwq: pdu_message mask_write_register_request_serialize mask_write_register_request_size
  mask_write_register_request_encode mask_write_register_request_of_iterator
  mask_write_register_request_function_code "\<lambda>_. True"
  by unfold_locales (simp_all add: mwq_defs wire_simps image_simps)

interpretation mwq: comparable_pdu mask_write_register_request_serialize mask_write_register_request_size
  mask_write_register_request_encode mask_write_register_request_of_iterator
  mask_write_register_request_function_code "\<lambda>_. True"
  mask_write_register_request_eq mask_write_register_request_ne
  by unfold_locales (auto simp: mask_write_register_request_eq_def mask_write_register_request_ne_def)

interpretation mwq: fixed_pdu mask_write_register_request_of_iterator 8
  by unfold_locales (auto simp: mwq_defs wire_simps)

lemmas rcq_defs = read_coils_request_of_iterator_def read_coils_request_serialize_def read_coils_request_size_def
  read_coils_request_encode_def read_coils_request_function_code_def read_coils_request.defs

interpretation rcq: pdu_message read_coils_request_serialize read_coils_request_size
  read_coils_request_encode read_coils_request_of_iterator
  read_coils_request_function_code "\<lambda>_. True"
  by unfold_locales (simp_all add: rcq_defs wire_simps image_simps)

interpretation rcq: comparable_pdu read_coils_request_serialize read_coils_request_size
  read_coils_request_encode read_coils_request_of_iterator
  read_coils_request_function_code "\<lambda>_. True"
  read_coils_request_eq read_coils_request_ne
  by unfold_locales (auto simp: read_coils_request_eq_def read_coils_request_ne_def)

interpretation rcq: fixed_pdu read_coils_request_of_iterator 6
  by unfold_locales (auto simp: rcq_defs wire_simps)

lemmas rdq_defs = read_discrete_inputs_request_of_iterator_def read_discrete_inputs_request_serialize_def read_discrete_inputs_request_size_def
  read_discrete_inputs_request_encode_def read_discrete_inputs_request_function_code_def read_discrete_inputs_request.defs

interpretation rdq: pdu_message read_discrete_inputs_request_serialize read_discrete_inputs_request_size
  read_discrete_inputs_request_encode read_discrete_inputs_request_of_iterator
  read_discrete_inputs_request_function_code "\<lambda>_. True"
  by unfold_locales (simp_all add: rdq_defs wire_simps image_simps)

interpretation rdq: comparable_pdu read_discrete_inputs_request_serialize read_discrete_inputs_request_size
  read_discrete_inputs_request_encode read_discrete_inputs_request_of_iterator
  read_discrete_inputs_request_function_code "\<lambda>_. True"
  read_discrete_inputs_request_eq read_discrete_inputs_request_ne
  by unfold_locales (auto simp: read_discrete_inputs_request_eq_def read_discrete_inputs_request_ne_def)

interpretation rdq: fixed_pdu read_discrete_inputs_request_of_iterator 6
  by unfold_locales (auto simp: rdq_defs wire_simps)

lemmas rhq_defs = read_holding_registers_request_of_iterator_def read_holding_registers_request_serialize_def read_holding_registers_request_size_def
  read_holding_registers_request_encode_def read_holding_registers_request_function_code_def read_holding_registers_request.defs

interpretation rhq: pdu_message read_holding_registers_request_serialize read_holding_registers_request_size
  read_holding_registers_request_encode read_holding_registers_request_of_iterator
  read_holding_registers_request_function_code "\<lambda>_. True"
  by unfold_locales (simp_all add: rhq_defs wire_simps image_simps)

interpretation rhq: comparable_pdu read_holding_registers_request_serialize read_holding_registers_request_size
  read_holding_registers_request_encode read_holding_registers_request_of_iterator
  read_holding_registers_request_function_code "\<lambda>_. True"
  read_holding_registers_request_eq read_holding_registers_request_ne
  by unfold_locales (auto simp: read_holding_registers_request_eq_def read_holding_registers_request_ne_def)

interpretation rhq: fixed_pdu read_holding_registers_request_of_iterator 6
  by unfold_locales (auto simp: rhq_defs wire_simps)

lemmas riq_defs = read_input_registers_request_of_iterator_def read_input_registers_request_serialize_def read_input_registers_request_size_def
  read_input_registers_request_encode_def read_input_registers_request_function_code_def read_input_registers_request.defs

interpretation riq: pdu_message read_input_registers_request_serialize read_input_registers_request_size
  read_input_registers_request_encode read_input_registers_request_of_iterator
  read_input_registers_request_function_code "\<lambda>_. True"
  by unfold_locales (simp_all add: riq_defs wire_simps image_simps)

interpretation riq: comparable_pdu read_input_registers_request_serialize read_input_registers_request_size
  read_input_registers_request_encode read_input_registers_request_of_iterator
  read_input_registers_request_function_code "\<lambda>_. True"
  read_input_registers_request_eq read_input_registers_request_ne
  by unfold_locales (auto simp: read_input_registers_request_eq_def read_input_registers_request_ne_def)

interpretation riq: fixed_pdu read_input_registers_request_of_iterator 6
  by unfold_locales (auto simp: riq_defs wire_simps)

lemmas rwq_defs = read_write_registers_request_of_iterator_def read_write_registers_request_serialize_def read_write_registers_request_size_def
  read_write_registers_request_encode_def read_write_registers_request_function_code_def read_write_registers_request.defs

interpretation rwq: pdu_message read_write_registers_request_serialize read_write_registers_request_size
  read_write_registers_request_encode read_write_registers_request_of_iterator
  read_write_registers_request_function_code "\<lambda>m. read_write_registers_request.write_num_registers m = of_nat (length (read_write_registers_request.vals m)) \<and> length (read_write_registers_request.vals m) < 128"
  by unfold_locales (simp_all add: rwq_defs wire_simps image_simps)

interpretation rwq: comparable_pdu read_write_registers_request_serialize read_write_registers_request_size
  read_write_registers_request_encode read_write_registers_request_of_iterator
  read_write_registers_request_function_code "\<lambda>m. read_write_registers_request.write_num_registers m = of_nat (length (read_write_registers_request.vals m)) \<and> length (read_write_registers_request.vals m) < 128"
  read_write_registers_request_eq read_write_registers_request_ne
  by unfold_locales (auto simp: read_write_registers_request_eq_def read_write_registers_request_ne_def)

interpretation rwq: counted_pdu read_write_registers_request_of_iterator 10 "\<lambda>n. 2 * (unat n div 2)"
  by (unfold_locales, (auto simp: rwq_defs wire_simps numeral_eq_Suc)[1]) arith

lemmas wcq_defs = write_multiple_coils_request_of_iterator_def write_multiple_coils_request_serialize_def write_multiple_coils_request_size_def
  write_multiple_coils_request_encode_def write_multiple_coils_request_function_code_def write_multiple_coils_request.defs

interpretation wcq: pdu_message write_multiple_coils_request_serialize write_multiple_coils_request_size
  write_multiple_coils_request_encode write_multiple_coils_request_of_iterator
  write_multiple_coils_request_function_code "\<lambda>m. length (write_multiple_coils_request.vals m) < 256"
  by unfold_locales (simp_all add: wcq_defs wire_simps image_simps)

interpretation wcq: comparable_pdu write_multiple_coils_request_serialize write_multiple_coils_request_size
  write_multiple_coils_request_encode write_multiple_coils_request_of_iterator
  write_multiple_coils_request_function_code "\<lambda>m. length (write_multiple_coils_request.vals m) < 256"
  write_multiple_coils_request_eq write_multiple_coils_request_ne
  by unfold_locales (auto simp: write_multiple_coils_request_eq_def write_multiple_coils_request_ne_def)

interpretation wcq: counted_pdu write_multiple_coils_request_of_iterator 6 unat
  by unfold_locales (auto simp: wcq_defs wire_simps numeral_eq_Suc)

lemmas wrq_defs = write_multiple_registers_request_of_iterator_def write_multiple_registers_request_serialize_def write_multiple_registers_request_size_def
  write_multiple_registers_request_encode_def write_multiple_registers_request_function_code_def write_multiple_registers_request.defs

interpretation wrq: pdu_message write_multiple_registers_request_serialize write_multiple_registers_request_size
  write_multiple_registers_request_encode write_multiple_registers_request_of_iterator
  write_multiple_registers_request_function_code "\<lambda>m. length (write_multiple_registers_request.vals m) < 128"
  by unfold_locales (simp_all add: wrq_defs wire_simps image_simps)

interpretation wrq: counted_pdu write_multiple_registers_request_of_iterator 6 "\<lambda>n. 2 * (unat n div 2)"
  by (unfold_locales, (auto simp: wrq_defs wire_simps numeral_eq_Suc)[1]) arith

lemmas scq_defs = write_single_coil_request_of_iterator_def write_single_coil_request_serialize_def write_single_coil_request_size_def
  write_single_coil_request_encode_def write_single_coil_request_function_code_def write_single_coil_request.defs

interpretation scq: pdu_message write_single_coil_request_serialize write_single_coil_request_size
  write_single_coil_request_encode write_single_coil_request_of_iterator
  write_single_coil_request_function_code "\<lambda>_. True"
  by unfold_locales (simp_all add: scq_defs wire_simps image_simps)

interpretation scq: comparable_pdu write_single_coil_request_serialize write_single_coil_request_size
  write_single_coil_request_encode write_single_coil_request_of_iterator
  write_single_coil_request_function_code "\<lambda>_. True"
  write_single_coil_request_eq write_single_coil_request_ne
  by unfold_locales (auto simp: write_single_coil_request_eq_def write_single_coil_request_ne_def)

interpretation scq: fixed_pdu write_single_coil_request_of_iterator 6
  by unfold_locales (auto simp: scq_defs wire_simps)

lemmas srq_defs = write_single_register_request_of_iterator_def write_single_register_request_serialize_def write_single_register_request_size_def
  write_single_register_request_encode_def write_single_register_request_function_code_def write_single_register_request.defs

interpretation srq: pdu_message write_single_register_request_serialize write_single_register_request_size
  write_single_register_request_encode write_single_register_request_of_iterator
  write_single_register_request_function_code "\<lambda>_. True"
  by unfold_locales (simp_all add: srq_defs wire_simps image_simps)

interpretation srq: comparable_pdu write_single_register_request_serialize write_single_register_request_size
  write_single_register_request_encode write_single_register_request_of_iterator
  write_single_register_request_function_code "\<lambda>_. True"
  write_single_register_request_eq write_single_register_request_ne
  by unfold_locales (auto simp: write_single_register_request_eq_def write_single_register_request_ne_def)

interpretation srq: fixed_pdu write_single_register_request_of_iterator 6
  by unfold_locales (auto simp: srq_defs wire_simps)

subsection \<open>Coils packed into bytes\<close>

lemma get_bit_set_one:
  assumes "i div 8 < length vs"
  shows "get_bit (vs[i div 8 := vs ! (i div 8) OR push_bit (i mod 8) 1]) k \<longleftrightarrow> k = i \<or> get_bit vs k"
proof (cases "k < 8 * length vs")
  case True
  have "bit (push_bit (i mod 8) 1 :: uint8) (k mod 8) \<longleftrightarrow> k mod 8 = i mod 8"
    by (auto simp: bit_simps)
  moreover have "k = i \<longleftrightarrow> k div 8 = i div 8 \<and> k mod 8 = i mod 8"
    by (metis div_mult_mod_eq)
  ultimately show ?thesis
    using True assms by (auto simp: get_bit_def nth_list_update bit_or_iff)
next
  case False
  then have "k \<noteq> i" using assms by auto
  with False show ?thesis by (simp add: get_bit_def)
qed

lemma pack_bools_outside:
  "\<exists>k<length bs. bs ! k \<and> 8 * length vs \<le> i + k \<Longrightarrow> pack_bools bs i vs = None"
proof (induction bs arbitrary: i vs)
  case (Cons v bs)
  then have "v \<and> 8 * length vs \<le> i \<or> (\<exists>k<length bs. bs ! k \<and> 8 * length vs \<le> Suc i + k)"
    by (auto simp: Ex_less_Suc2)
  with Cons.IH [of vs "Suc i"]
    Cons.IH [of "vs[i div 8 := vs ! (i div 8) OR push_bit (i mod 8) 1]" "Suc i"]
  show ?case by (auto simp: vec_get_def split: if_splits)
qed simp

lemma pack_bools_inside:
  "\<forall>k<length bs. bs ! k \<longrightarrow> i + k < 8 * length vs \<Longrightarrow>
     \<exists>vs'. pack_bools bs i vs = Some vs' \<and> length vs' = length vs
       \<and> (\<forall>k. get_bit vs' k \<longleftrightarrow> get_bit vs k \<or> (i \<le> k \<and> k < i + length bs \<and> bs ! (k - i)))"
proof (induction bs arbitrary: i vs)
  case Nil
  then show ?case by auto
next
  case (Cons v bs)
  then have v: "v \<Longrightarrow> i div 8 < length vs" by force
  define us where "us = (if v then vs[i div 8 := vs ! (i div 8) OR push_bit (i mod 8) 1] else vs)"
  have us: "length us = length vs" "\<And>k. get_bit us k \<longleftrightarrow> get_bit vs k \<or> (v \<and> k = i)"
    using v get_bit_set_one [of i vs] by (auto simp: us_def)
  have "\<forall>k<length bs. bs ! k \<longrightarrow> Suc i + k < 8 * length us"
    using Cons.prems us(1) by force
  then obtain vs' where "pack_bools bs (Suc i) us = Some vs'" "length vs' = length us"
    "\<forall>k. get_bit vs' k \<longleftrightarrow> get_bit us k \<or> (Suc i \<le> k \<and> k < Suc i + length bs \<and> bs ! (k - Suc i))"
    using Cons.IH by blast
  moreover have "pack_bools (v # bs) i vs = pack_bools bs (Suc i) us"
    using v by (simp add: us_def)
  moreover have "(i \<le> k \<and> k < i + length (v # bs) \<and> (v # bs) ! (k - i)) \<longleftrightarrow>
      (v \<and> k = i) \<or> (Suc i \<le> k \<and> k < Suc i + length bs \<and> bs ! (k - Suc i))" for k
    by (cases "k = i") (auto simp: nth_Cons')
  ultimately show ?case using us by auto
qed

text \<open>The vector of the constructor has a byte for every eight coils begun, with the number of coils
  taken modulo \<open>2 ^ 16\<close>.\<close>

lemma coil_bytes:
  "(let n = (of_nat N :: uint16); b = n div 8 in unat (if n mod 8 \<noteq> 0 then b + 1 else b)) =
     (N mod 65536 + 7) div 8"
proof -
  let ?n = "of_nat N :: uint16"
  have n: "unat ?n = N mod 65536" by (simp add: unat_of_nat)
  have d: "unat (?n div 8) = N mod 65536 div 8" "unat (?n mod 8) = N mod 65536 mod 8"
    by (simp_all add: unat_div_distrib unat_mod_distrib n)
  have z: "?n mod 8 = 0 \<longleftrightarrow> N mod 65536 mod 8 = 0"
    using d(2) by (metis unat_eq_0)
  have "N mod 65536 div 8 < 8192" by (simp add: less_mult_imp_div_less)
  then have "unat (?n div 8 + 1) = N mod 65536 div 8 + 1"
    using d(1) by (simp add: unat_word_ariths)
  moreover have "(m + 7) div 8 = (if m mod 8 = 0 then m div 8 else m div 8 + 1)" for m :: nat
    by presburger
  ultimately show ?thesis using d(1) z by (simp add: Let_def)
qed

lemma new_bools_eq:
  "new_write_multiple_coils_request_bools u a bs =
     map_option (write_multiple_coils_request.make u a (of_nat (length bs)))
       (pack_bools bs 0 (replicate ((length bs mod 65536 + 7) div 8) 0))"
  unfolding new_write_multiple_coils_request_bools_def coil_bytes [symmetric] vec_resize_Nil Let_def
  by (cases "pack_bools bs 0 (replicate (unat (if (of_nat (length bs) :: uint16) mod 8 \<noteq> 0
      then (of_nat (length bs) :: uint16) div 8 + 1 else (of_nat (length bs) :: uint16) div 8)) 0)")
    simp_all

lemma get_bit_zeros [simp]: "\<not> get_bit (replicate n 0) k"
  by (auto simp: get_bit_def)

lemma new_bools_packs:
  assumes "length bs < 65536"
  shows "\<exists>vs. new_write_multiple_coils_request_bools u a bs =
      Some (write_multiple_coils_request.make u a (of_nat (length bs)) vs)
    \<and> length vs = (length bs + 7) div 8 \<and> (\<forall>k. get_bit vs k \<longleftrightarrow> k < length bs \<and> bs ! k)"
proof -
  have "length bs \<le> 8 * ((length bs + 7) div 8)" by presburger
  then have "\<forall>k<length bs. bs ! k \<longrightarrow>
      0 + k < 8 * length (replicate ((length bs + 7) div 8) (0 :: uint8))" by simp
  from pack_bools_inside [OF this] show ?thesis
    using assms by (auto simp: new_bools_eq)
qed


subsection \<open>Properties\<close>

text \<open>C16: the seven request classes of fixed size travel unchanged: each is serialised into a data unit
  whose header, length and function code the accessors report, and \<open>pdu<T>\<close> returns an equal request,
  from the data unit itself and from a larger receive buffer that holds its bytes.\<close>

theorem fixed_requests_carried:

  "carries mask_write_register_request_size mask_write_register_request_serialize mask_write_register_request_of_iterator
       mask_write_register_request_function_code mask_write_register_request_type tid mwq
   \<and> carries read_coils_request_size read_coils_request_serialize read_coils_request_of_iterator
       read_coils_request_function_code read_coils_request_type tid rcq
   \<and> carries read_discrete_inputs_request_size read_discrete_inputs_request_serialize read_discrete_inputs_request_of_iterator
       read_discrete_inputs_request_function_code read_discrete_inputs_request_type tid rdq
   \<and> carries read_holding_registers_request_size read_holding_registers_request_serialize read_holding_registers_request_of_iterator
       read_holding_registers_request_function_code read_holding_registers_request_type tid rhq
   \<and> carries read_input_registers_request_size read_input_registers_request_serialize read_input_registers_request_of_iterator
       read_input_registers_request_function_code read_input_registers_request_type tid riq
   \<and> carries write_single_coil_request_size write_single_coil_request_serialize write_single_coil_request_of_iterator
       write_single_coil_request_function_code write_single_coil_request_type tid scq
   \<and> carries write_single_register_request_size write_single_register_request_serialize write_single_register_request_of_iterator
       write_single_register_request_function_code write_single_register_request_type tid srq"
  by (intro conjI mwq.carries_wf
    rcq.carries_wf
    rdq.carries_wf
    rhq.carries_wf
    riq.carries_wf
    scq.carries_wf
    srq.carries_wf) simp_all

text \<open>C17: the three request classes with a counted payload travel unchanged, as long as the payload
  fits the count byte (and, for the read/write request, its register count is the one it carries).\<close>

theorem counted_requests_carried:
  assumes "length (read_write_registers_request.vals rwq) < 128"
    and "read_write_registers_request.write_num_registers rwq =
      of_nat (length (read_write_registers_request.vals rwq))"
    and "length (write_multiple_coils_request.vals wcq) < 256"
    and "length (write_multiple_registers_request.vals wrq) < 128"

  shows "carries read_write_registers_request_size read_write_registers_request_serialize read_write_registers_request_of_iterator
       read_write_registers_request_function_code read_write_registers_request_type tid rwq
   \<and> carries write_multiple_coils_request_size write_multiple_coils_request_serialize write_multiple_coils_request_of_iterator
       write_multiple_coils_request_function_code write_multiple_coils_request_type tid wcq
   \<and> carries write_multiple_registers_request_size write_multiple_registers_request_serialize write_multiple_registers_request_of_iterator
       write_multiple_registers_request_function_code write_multiple_registers_request_type tid wrq"
  using assms by (intro conjI rwq.carries_wf
    wcq.carries_wf
    wrq.carries_wf) simp_all

theorem counted_requests_carried_witness:
  "carries read_write_registers_request_size read_write_registers_request_serialize read_write_registers_request_of_iterator
       read_write_registers_request_function_code read_write_registers_request_type 7 (new_read_write_registers_request 1 2 3 4 [0x1234, 0xABCD])
   \<and> carries write_multiple_coils_request_size write_multiple_coils_request_serialize write_multiple_coils_request_of_iterator
       write_multiple_coils_request_function_code write_multiple_coils_request_type 7 (new_write_multiple_coils_request 1 2 9 [0xA9, 1])
   \<and> carries write_multiple_registers_request_size write_multiple_registers_request_serialize write_multiple_registers_request_of_iterator
       write_multiple_registers_request_function_code write_multiple_registers_request_type 7 (new_write_multiple_registers_request 1 2 1 [0xFF00])"
  by (rule counted_requests_carried)
    (simp_all add: new_read_write_registers_request_def new_write_multiple_coils_request_def
      new_write_multiple_registers_request_def read_write_registers_request.defs
      write_multiple_coils_request.defs write_multiple_registers_request.defs)

text \<open>The data unit of a request answers for its own class only. The ten function codes are
  distinct, and \<open>pdu<T>\<close> for a class with another function code, or for a response class, returns
  nothing.\<close>

lemma requests_unambiguous:

  "distinct [mask_write_register_request_function_code, read_coils_request_function_code, read_discrete_inputs_request_function_code, read_holding_registers_request_function_code, read_input_registers_request_function_code, read_write_registers_request_function_code, write_multiple_coils_request_function_code, write_multiple_registers_request_function_code, write_single_coil_request_function_code, write_single_register_request_function_code]
   \<and> answers_only mask_write_register_request_size mask_write_register_request_serialize
       mask_write_register_request_function_code mask_write_register_request_type tid mwq parser
   \<and> answers_only read_coils_request_size read_coils_request_serialize
       read_coils_request_function_code read_coils_request_type tid rcq parser
   \<and> answers_only read_discrete_inputs_request_size read_discrete_inputs_request_serialize
       read_discrete_inputs_request_function_code read_discrete_inputs_request_type tid rdq parser
   \<and> answers_only read_holding_registers_request_size read_holding_registers_request_serialize
       read_holding_registers_request_function_code read_holding_registers_request_type tid rhq parser
   \<and> answers_only read_input_registers_request_size read_input_registers_request_serialize
       read_input_registers_request_function_code read_input_registers_request_type tid riq parser
   \<and> answers_only read_write_registers_request_size read_write_registers_request_serialize
       read_write_registers_request_function_code read_write_registers_request_type tid rwq parser
   \<and> answers_only write_multiple_coils_request_size write_multiple_coils_request_serialize
       write_multiple_coils_request_function_code write_multiple_coils_request_type tid wcq parser
   \<and> answers_only write_multiple_registers_request_size write_multiple_registers_request_serialize
       write_multiple_registers_request_function_code write_multiple_registers_request_type tid wrq parser
   \<and> answers_only write_single_coil_request_size write_single_coil_request_serialize
       write_single_coil_request_function_code write_single_coil_request_type tid scq parser
   \<and> answers_only write_single_register_request_size write_single_register_request_serialize
       write_single_register_request_function_code write_single_register_request_type tid srq parser"
  by (intro conjI mwq.answers_only_own
    rcq.answers_only_own
    rdq.answers_only_own
    rhq.answers_only_own
    riq.answers_only_own
    rwq.answers_only_own
    wcq.answers_only_own
    wrq.answers_only_own
    scq.answers_only_own
    srq.answers_only_own)
    (simp add: mask_write_register_request_function_code_def read_coils_request_function_code_def read_discrete_inputs_request_function_code_def read_holding_registers_request_function_code_def read_input_registers_request_function_code_def read_write_registers_request_function_code_def write_multiple_coils_request_function_code_def write_multiple_registers_request_function_code_def write_single_coil_request_function_code_def write_single_register_request_function_code_def)

text \<open>C29: nine of the ten request classes are compared by what they put on the wire: \<open>operator==\<close> of two
  requests holds exactly when their data units are the same byte for byte, and \<open>operator!=\<close> exactly when they
  differ. (The requests with a counted payload are those that fit the count byte.)\<close>

theorem requests_compared_by_wire:
  assumes "\<forall>q \<in> {rwq, rwq'}. length (read_write_registers_request.vals q) < 128
      \<and> read_write_registers_request.write_num_registers q = of_nat (length (read_write_registers_request.vals q))"
    and "\<forall>q \<in> {wcq, wcq'}. length (write_multiple_coils_request.vals q) < 256"
  shows "compared_by_wire mask_write_register_request_size mask_write_register_request_serialize
       mask_write_register_request_type mask_write_register_request_eq mask_write_register_request_ne tid mwq mwq'
   \<and> compared_by_wire read_coils_request_size read_coils_request_serialize
       read_coils_request_type read_coils_request_eq read_coils_request_ne tid rcq rcq'
   \<and> compared_by_wire read_discrete_inputs_request_size read_discrete_inputs_request_serialize
       read_discrete_inputs_request_type read_discrete_inputs_request_eq read_discrete_inputs_request_ne tid rdq rdq'
   \<and> compared_by_wire read_holding_registers_request_size read_holding_registers_request_serialize
       read_holding_registers_request_type read_holding_registers_request_eq read_holding_registers_request_ne tid rhq rhq'
   \<and> compared_by_wire read_input_registers_request_size read_input_registers_request_serialize
       read_input_registers_request_type read_input_registers_request_eq read_input_registers_request_ne tid riq riq'
   \<and> compared_by_wire read_write_registers_request_size read_write_registers_request_serialize
       read_write_registers_request_type read_write_registers_request_eq read_write_registers_request_ne tid rwq rwq'
   \<and> compared_by_wire write_multiple_coils_request_size write_multiple_coils_request_serialize
       write_multiple_coils_request_type write_multiple_coils_request_eq write_multiple_coils_request_ne tid wcq wcq'
   \<and> compared_by_wire write_single_coil_request_size write_single_coil_request_serialize
       write_single_coil_request_type write_single_coil_request_eq write_single_coil_request_ne tid scq scq'
   \<and> compared_by_wire write_single_register_request_size write_single_register_request_serialize
       write_single_register_request_type write_single_register_request_eq write_single_register_request_ne tid srq srq'"
  using assms by (intro conjI mwq.compared
    rcq.compared
    rdq.compared
    rhq.compared
    riq.compared
    rwq.compared
    wcq.compared
    scq.compared
    srq.compared) simp_all

theorem requests_compared_by_wire_witness:
  "compared_by_wire write_multiple_coils_request_size write_multiple_coils_request_serialize
       write_multiple_coils_request_type write_multiple_coils_request_eq write_multiple_coils_request_ne 7
       (new_write_multiple_coils_request 1 2 9 [0xA9, 1]) (new_write_multiple_coils_request 1 2 9 [0xA9, 0])"
  using requests_compared_by_wire [of "new_read_write_registers_request 1 2 3 4 []" "new_read_write_registers_request 1 2 3 4 []"
      "new_write_multiple_coils_request 1 2 9 [0xA9, 1]" "new_write_multiple_coils_request 1 2 9 [0xA9, 0]" 7]
  by (simp add: new_read_write_registers_request_def new_write_multiple_coils_request_def
      read_write_registers_request.defs write_multiple_coils_request.defs)

text \<open>\<open>operator==\<close> of \<open>write_multiple_registers_request\<close> does not compare the \<open>length\<close> field: two
  requests that differ there only compare equal and serialise differently.\<close>

lemma write_multiple_registers_eq_ignores_length:
  "(write_multiple_registers_request_eq x y \<longleftrightarrow>
      y\<lparr>write_multiple_registers_request.len := write_multiple_registers_request.len x\<rparr> = x)
   \<and> write_multiple_registers_request_eq x (x\<lparr>write_multiple_registers_request.len := n\<rparr>)
   \<and> (n = write_multiple_registers_request.len x \<longleftrightarrow>
        write_multiple_registers_request_encode (x\<lparr>write_multiple_registers_request.len := n\<rparr>) =
        write_multiple_registers_request_encode x)"
  by (cases x, cases y)
    (auto simp: write_multiple_registers_request_eq_def write_multiple_registers_request_encode_def
      enc_u16_def intro: hi_lo_inject)

text \<open>The constructor of \<open>write_multiple_coils_request\<close> from booleans packs coil \<open>k\<close> into bit \<open>k\<close>,
  in as few bytes as hold the coils, for up to 65535 coils.\<close>

lemma bool_constructor_packs:
  assumes "length bs < 65536"
  shows "\<exists>m. new_write_multiple_coils_request_bools u a bs = Some m
    \<and> write_multiple_coils_request.len m = of_nat (length bs)
    \<and> length (write_multiple_coils_request.vals m) = (length bs + 7) div 8
    \<and> (\<forall>k. get_bit (write_multiple_coils_request.vals m) k \<longleftrightarrow> k < length bs \<and> bs ! k)"
  using new_bools_packs [OF assms, of u a] by (auto simp: write_multiple_coils_request.defs)

text \<open>The constructor from booleans writes outside its vector, which is undefined behaviour,
  exactly when a coil that is on lies beyond the bytes allotted from the number of coils modulo
  \<open>2 ^ 16\<close>.\<close>

lemma bool_constructor_undefined_iff:
  "new_write_multiple_coils_request_bools u a bs = None \<longleftrightarrow>
     (\<exists>k<length bs. bs ! k \<and> 8 * ((length bs mod 65536 + 7) div 8) \<le> k)"
proof (cases "\<exists>k<length bs. bs ! k \<and> 8 * ((length bs mod 65536 + 7) div 8) \<le> k")
  case True
  then show ?thesis
    using pack_bools_outside [of bs "replicate ((length bs mod 65536 + 7) div 8) 0" 0]
    by (simp add: new_bools_eq)
next
  case False
  then show ?thesis
    using pack_bools_inside [of bs 0 "replicate ((length bs mod 65536 + 7) div 8) 0"]
    by (auto simp: new_bools_eq not_le)
qed

text \<open>C37: the parsers of the fixed-size requests stay inside the receive buffer of a session, and
  those of the counted requests read past its end exactly when the count byte asks for more bytes
  than follow it.\<close>

theorem request_parsers_bounds:
  assumes "length b = MAX_APU_SIZE"
  shows "mask_write_register_request_of_iterator (b, TCP_HEADER_SIZE) \<noteq> None
    \<and> read_coils_request_of_iterator (b, TCP_HEADER_SIZE) \<noteq> None
    \<and> read_discrete_inputs_request_of_iterator (b, TCP_HEADER_SIZE) \<noteq> None
    \<and> read_holding_registers_request_of_iterator (b, TCP_HEADER_SIZE) \<noteq> None
    \<and> read_input_registers_request_of_iterator (b, TCP_HEADER_SIZE) \<noteq> None
    \<and> write_single_coil_request_of_iterator (b, TCP_HEADER_SIZE) \<noteq> None
    \<and> write_single_register_request_of_iterator (b, TCP_HEADER_SIZE) \<noteq> None
    \<and> (write_multiple_coils_request_of_iterator (b, TCP_HEADER_SIZE) = None \<longleftrightarrow> 243 < unat (b ! 12))
    \<and> (write_multiple_registers_request_of_iterator (b, TCP_HEADER_SIZE) = None \<longleftrightarrow> 243 < unat (b ! 12))
    \<and> (read_write_registers_request_of_iterator (b, TCP_HEADER_SIZE) = None \<longleftrightarrow> 239 < unat (b ! 16))"
proof -
  have "243 < 2 * (unat n div 2) \<longleftrightarrow> 243 < unat n" "239 < 2 * (unat n div 2) \<longleftrightarrow> 239 < unat n"
    for n :: uint8 by presburger+
  then show ?thesis
    using assms
    unfolding TCP_HEADER_SIZE_def mwq.of_iterator_width rcq.of_iterator_width rdq.of_iterator_width
      rhq.of_iterator_width riq.of_iterator_width scq.of_iterator_width srq.of_iterator_width
      wcq.of_iterator_none wrq.of_iterator_none rwq.of_iterator_none
    by (simp add: less_diff_conv2 flip: not_le)
qed

theorem request_parsers_bounds_witness:
  "write_multiple_coils_request_of_iterator (replicate 256 (0xFF :: uint8), TCP_HEADER_SIZE) = None
   \<and> read_coils_request_of_iterator (replicate 256 (0xFF :: uint8), TCP_HEADER_SIZE) \<noteq> None"
  using request_parsers_bounds [of "replicate 256 0xFF"] by simp

end
