(* ===== verification/Server_Reference.thy ===== *)
theory Server_Reference
  imports Server_Helper Modbus_Requests
begin

text \<open>
  Reference definitions for the bulk operations of server/server_helper.hpp: \<open>write_coils\<close> and
  \<open>write_registers\<close> against one call of \<open>write_coil\<close> or \<open>write_register\<close> per value, and the shifted copy of
  \<open>copy_data_bits\<close> against the loop the client packs its coils with (\<open>write_multiple_coils_request\<close>).
\<close>

subsection \<open>One value at a time\<close>

fun store_each :: "('v \<Rightarrow> buffer_t \<Rightarrow> int \<Rightarrow> buffer_t result) \<Rightarrow> 'v list \<Rightarrow> nat \<Rightarrow> buffer_t \<Rightarrow> buffer_t result" where
  "store_each store [] a mem = Inr mem"
| "store_each store (v # vs) a mem = res_bind (store v mem (int a)) (store_each store vs (Suc a))"

abbreviation write_coil_each :: "bool list \<Rightarrow> nat \<Rightarrow> buffer_t \<Rightarrow> buffer_t result" where
  "write_coil_each \<equiv> store_each (\<lambda>v mem a. write_coil mem v a)"

abbreviation write_register_each :: "uint16 list \<Rightarrow> nat \<Rightarrow> buffer_t \<Rightarrow> buffer_t result" where
  "write_register_each \<equiv> store_each write_register"

lemma write_coil_each_bits:
  assumes "a + length bs \<le> 8 * length mem"
  shows "\<exists>out. write_coil_each bs a mem = Inr out \<and> length out = length mem
    \<and> (\<forall>k. get_bit out k \<longleftrightarrow> (if a \<le> k \<and> k < a + length bs then bs ! (k - a) else get_bit mem k))"
  using assms
proof (induction bs arbitrary: a mem)
  case (Cons v bs)
  obtain m where m: "write_coil mem v (int a) = Inr m" "length m = length mem"
      "\<forall>k. get_bit m k \<longleftrightarrow> (if k = a then v else get_bit mem k)"
    using write_coil_nat [of a mem v] Cons.prems by auto
  obtain out where out: "write_coil_each bs (Suc a) m = Inr out" "length out = length m"
      "\<forall>k. get_bit out k \<longleftrightarrow> (if Suc a \<le> k \<and> k < Suc a + length bs then bs ! (k - Suc a) else get_bit m k)"
    using Cons.IH [of "Suc a" m] Cons.prems m(2) by auto
  have "get_bit out k \<longleftrightarrow> (if a \<le> k \<and> k < a + length (v # bs) then (v # bs) ! (k - a) else get_bit mem k)" for k
    using out(3) m(3) by (cases "k = a") (auto simp: nth_Cons' Suc_le_eq)
  with m(1,2) out(1,2) show ?case by (simp add: res_bind_def)
qed auto



lemma write_registers_loop:
  assumes "n \<le> length ws" "a + n < 2 ^ 30" "j \<le> n"
  shows "ub (for_up j n (\<lambda>i dst. do {
             f \<leftarrow> vec_get ws i;
             dst \<leftarrow> vec_seti dst (2 * int i + int (2 * a)) (hi8 f);
             f \<leftarrow> vec_get ws i;
             vec_seti dst (2 * int i + int (2 * a) + 1) (lo8 f) }) mem) =
    write_register_each (drop j (take n ws)) (a + j) mem"
  using assms(3)
proof (induction "n - j" arbitrary: j mem)
  case (Suc d)
  let ?body = "\<lambda>i dst. do {
             f \<leftarrow> vec_get ws i;
             dst \<leftarrow> vec_seti dst (2 * int i + int (2 * a)) (hi8 f);
             f \<leftarrow> vec_get ws i;
             vec_seti dst (2 * int i + int (2 * a) + 1) (lo8 f) }"
  have j: "j < n" using Suc.hyps(2) by simp
  then have d: "drop j (take n ws) = ws ! j # drop (Suc j) (take n ws)"
    using assms(1) by (simp flip: Cons_nth_drop_Suc)
  have e: "(int a + int j) * 2 = 2 * int j + int (2 * a)" by simp
  have ok: "int_ok (2 * int j + int (2 * a))" using j assms(2) by (simp add: int_ok_def)
  have step: "write_register (ws ! j) mem (int a + int j) = ub (?body j mem)"
    unfolding write_register_def Let_def e lo8_of_ucast using j assms(1) ok
    by (simp add: ub_def split: option.splits bind_splits)
  show ?case
    using Suc.hyps(1) [of "Suc j"] Suc.hyps(2) j step d
    by (cases "?body j mem") (simp_all add: for_up_less res_bind_def)
qed simp

text \<open>\<open>write_registers\<close> is a loop of \<open>write_register\<close>, for any memory: also where the range leaves the
  memory, both are undefined.\<close>

lemma write_registers_one_by_one:
  assumes "n \<le> length ws" "a + n \<le> 131070"
  shows "write_registers ws mem (int a) (int n) = write_register_each (take n ws) a mem"
proof -
  have e: "int a * 2 = int (2 * a)" by simp
  have "int_ok (int (2 * a))" using assms(2) by (simp add: int_ok_def)
  then show ?thesis
    using write_registers_loop [of n ws a 0 mem] assms
    unfolding write_registers_def Let_def e lo8_of_ucast by simp
qed

subsection \<open>The packing of coils\<close>

text \<open>C21: the server packs coils as the client does, for the requests with \<open>n mod 8 + a mod 8 < 8\<close>. What \<open>copy_data_bits\<close>
  shifts out of the memory for such a request of \<open>n\<close> coils is, byte for byte, what the constructor of
  \<open>write_multiple_coils_request\<close> makes of the same coils given one by one, padding included. (When the sum is 8 the
  padding differs: \<open>copy_padding_leaks\<close> in \<open>Server_Helper\<close>.)\<close>

theorem copy_data_bits_packs_as_client:
  assumes "0 < n" "n \<le> 65535" "n mod 8 + a mod 8 < 8" "a + n < 8 * length from"
  shows "\<exists>m. new_write_multiple_coils_request_bools u b (map (get_bit from) [a..<a + n]) = Some m
    \<and> res_bind (create_request_bit_map (int a) (int n)) (\<lambda>bm. copy_data_bits from bm (int a) (int n)) =
        Inr (write_multiple_coils_request.vals m)"
proof -
  let ?bs = "map (get_bit from) [a..<a + n]"
  obtain out where out: "load_bits from a n = Inr out" "length out = (n - 1) div 8 + 1"
      "\<forall>k. get_bit out k \<longleftrightarrow> k < n \<and> get_bit from (a + k)"
    using load_bits_spec [OF assms] by auto
  obtain vs where vs: "new_write_multiple_coils_request_bools u b ?bs =
        Some (write_multiple_coils_request.make u b (of_nat n) vs)"
      "length vs = (n + 7) div 8" "\<forall>k. get_bit vs k \<longleftrightarrow> k < n \<and> ?bs ! k"
    using new_bools_packs [of ?bs u b] assms(2) by auto
  have len: "(n + 7) div 8 = (n - 1) div 8 + 1" using assms(1) by (cases n) simp_all
  have bits: "get_bit vs k \<longleftrightarrow> get_bit out k" for k
    unfolding vs(3) [rule_format] out(3) [rule_format] by (cases "k < n") simp_all
  have "out = vs" by (rule buffer_bit_eqI) (simp_all only: out(2) vs(2) len bits)
  with out(1) vs(1) show ?thesis by (simp add: write_multiple_coils_request.defs)
qed

theorem copy_data_bits_packs_as_client_witness:
  "\<exists>m. new_write_multiple_coils_request_bools 1 1 (map (get_bit [0xA9, 0x9A, 6, 0]) [1..<1 + 9]) = Some m
    \<and> res_bind (create_request_bit_map (int 1) (int 9)) (\<lambda>bm. copy_data_bits [0xA9, 0x9A, 6, 0] bm (int 1) (int 9)) =
        Inr (write_multiple_coils_request.vals m)"
  by (rule copy_data_bits_packs_as_client) simp_all

end
