(* ===== verification/Modbus_Responses.thy ===== *)
theory Modbus_Responses
  imports Tcp_Data_Unit
begin

text \<open>
  The eleven response classes of core/messages (\<open>*_response.hpp\<close>, \<open>*_response.cpp\<close>;
  core/responses.hpp includes them all), modelled as the request classes are in
  \<open>Modbus_Requests\<close>: record, constructors, \<open>C_of_iterator\<close>, \<open>function_code()\<close>, \<open>type()\<close>,
  \<open>size()\<close>, \<open>serialize\<close>, \<open>operator==\<close>, \<open>operator!=\<close> and the wire image \<open>C_encode\<close>. The C++ field \<open>values\<close>
  is called \<open>vals\<close>.

  Every class but \<open>exception_response\<close> is an instance of \<open>pdu_message\<close>; the exception response is
  a \<open>message\<close> with its own round trip.
\<close>

subsection \<open>The response classes\<close>

subsubsection \<open>exception_response\<close>

text \<open>Its function code is a field, serialised with the top bit set. There is no \<open>C_encode\<close> for a
  fixed code: the class is a \<open>message\<close> but not a \<open>pdu_message\<close>.\<close>

record exception_response =
  unit_id :: uint8
  func_code :: function_code_t
  exception_code :: exception_code_t

definition new_exception_response ::
  "uint8 \<Rightarrow> function_code_t \<Rightarrow> exception_code_t \<Rightarrow> exception_response" where
  "new_exception_response u f e = exception_response.make u f e"

definition exception_response_of_iterator ::
  "const_buffer_iterator \<Rightarrow> exception_response option" where
  "exception_response_of_iterator it = do {
     (u, it) \<leftarrow> deref_inc it;
     (f, it) \<leftarrow> deref_inc it;
     (e, it) \<leftarrow> deref_inc it;
     Some (exception_response.make u (f AND 0x7F) e) }"

definition exception_response_type :: message_type where
  "exception_response_type = response"

definition exception_response_size :: "exception_response \<Rightarrow> nat" where
  "exception_response_size m = 1 + 1 + 1"

definition exception_response_serialize ::
  "exception_response \<Rightarrow> buffer_iterator \<Rightarrow> buffer_iterator option" where
  "exception_response_serialize m it = do {
     it \<leftarrow> put (exception_response.unit_id m) it;
     it \<leftarrow> put (func_code m OR 0x80) it;
     put (exception_code m) it }"

definition exception_response_eq :: "exception_response \<Rightarrow> exception_response \<Rightarrow> bool" where
  "exception_response_eq lhs rhs \<longleftrightarrow>
     exception_response.unit_id lhs = exception_response.unit_id rhs \<and>
     exception_response.func_code lhs = exception_response.func_code rhs \<and>
     exception_response.exception_code lhs = exception_response.exception_code rhs"

definition exception_response_ne :: "exception_response \<Rightarrow> exception_response \<Rightarrow> bool" where
  "exception_response_ne lhs rhs \<longleftrightarrow> \<not> exception_response_eq lhs rhs"

definition exception_response_function_code :: "exception_response \<Rightarrow> function_code_t" where
  "exception_response_function_code m = func_code m"

definition exception_response_encode :: "exception_response \<Rightarrow> uint8 list" where
  "exception_response_encode m =
     [exception_response.unit_id m, func_code m OR 0x80, exception_code m]"

subsubsection \<open>mask_write_register_response\<close>

record mask_write_register_response =
  unit_id :: uint8
  start_address :: uint16
  and_mask :: uint16
  or_mask :: uint16

definition new_mask_write_register_response :: "uint8 \<Rightarrow> uint16 \<Rightarrow> uint16 \<Rightarrow> uint16 \<Rightarrow> mask_write_register_response" where
  "new_mask_write_register_response u a b c = mask_write_register_response.make u a b c"

definition mask_write_register_response_of_iterator ::
  "const_buffer_iterator \<Rightarrow> mask_write_register_response option" where
  "mask_write_register_response_of_iterator it = do {
     (u, it) \<leftarrow> deref_inc it;
     it \<leftarrow> inc it;
     (a, it) \<leftarrow> get_u16 it;
     (b, it) \<leftarrow> get_u16 it;
     (c, it) \<leftarrow> get_u16 it;
     Some (mask_write_register_response.make u a b c) }"

definition mask_write_register_response_function_code :: function_code_t where
  "mask_write_register_response_function_code = function_code_value mask_write_register"

definition mask_write_register_response_type :: message_type where
  "mask_write_register_response_type = response"

definition mask_write_register_response_size :: "mask_write_register_response \<Rightarrow> nat" where
  "mask_write_register_response_size m = 1 + 1 + 2 + 2 + 2"

definition mask_write_register_response_serialize ::
  "mask_write_register_response \<Rightarrow> buffer_iterator \<Rightarrow> buffer_iterator option" where
  "mask_write_register_response_serialize m it = do {
     it \<leftarrow> put (mask_write_register_response.unit_id m) it;
     it \<leftarrow> put mask_write_register_response_function_code it;
     it \<leftarrow> put_u16 (mask_write_register_response.start_address m) it;
     it \<leftarrow> put_u16 (mask_write_register_response.and_mask m) it;
     put_u16 (mask_write_register_response.or_mask m) it }"

definition mask_write_register_response_eq :: "mask_write_register_response \<Rightarrow> mask_write_register_response \<Rightarrow> bool" where
  "mask_write_register_response_eq lhs rhs \<longleftrightarrow>
     mask_write_register_response.unit_id lhs = mask_write_register_response.unit_id rhs \<and>
     mask_write_register_response.start_address lhs = mask_write_register_response.start_address rhs \<and>
     mask_write_register_response.and_mask lhs = mask_write_register_response.and_mask rhs \<and>
     mask_write_register_response.or_mask lhs = mask_write_register_response.or_mask rhs"

definition mask_write_register_response_ne :: "mask_write_register_response \<Rightarrow> mask_write_register_response \<Rightarrow> bool" where
  "mask_write_register_response_ne lhs rhs \<longleftrightarrow> \<not> mask_write_register_response_eq lhs rhs"

definition mask_write_register_response_encode :: "mask_write_register_response \<Rightarrow> uint8 list" where
  "mask_write_register_response_encode m =
     [mask_write_register_response.unit_id m, mask_write_register_response_function_code] @
     enc_u16 (mask_write_register_response.start_address m) @
     enc_u16 (mask_write_register_response.and_mask m) @
     enc_u16 (mask_write_register_response.or_mask m)"

subsubsection \<open>read_coils_response\<close>

record read_coils_response =
  unit_id :: uint8
  vals :: "uint8 list"

definition new_read_coils_response :: "uint8 \<Rightarrow> uint8 list \<Rightarrow> read_coils_response" where
  "new_read_coils_response u a = read_coils_response.make u a"

definition read_coils_response_of_iterator ::
  "const_buffer_iterator \<Rightarrow> read_coils_response option" where
  "read_coils_response_of_iterator it = do {
     (u, it) \<leftarrow> deref_inc it;
     it \<leftarrow> inc it;
     (numBytes, it) \<leftarrow> deref_inc it;
     (a, it) \<leftarrow> get_bytes (unat numBytes) it;
     Some (read_coils_response.make u a) }"

definition read_coils_response_function_code :: function_code_t where
  "read_coils_response_function_code = function_code_value read_coils"

definition read_coils_response_type :: message_type where
  "read_coils_response_type = response"

definition read_coils_response_size :: "read_coils_response \<Rightarrow> nat" where
  "read_coils_response_size m = 1 + 1 + 1 + 1 * length (read_coils_response.vals m)"

definition read_coils_response_serialize ::
  "read_coils_response \<Rightarrow> buffer_iterator \<Rightarrow> buffer_iterator option" where
  "read_coils_response_serialize m it = do {
     it \<leftarrow> put (read_coils_response.unit_id m) it;
     it \<leftarrow> put read_coils_response_function_code it;
     it \<leftarrow> put (of_nat (length (read_coils_response.vals m))) it;
     put_bytes (read_coils_response.vals m) it }"

definition read_coils_response_eq :: "read_coils_response \<Rightarrow> read_coils_response \<Rightarrow> bool" where
  "read_coils_response_eq lhs rhs \<longleftrightarrow>
     read_coils_response.unit_id lhs = read_coils_response.unit_id rhs \<and>
     read_coils_response.vals lhs = read_coils_response.vals rhs"

definition read_coils_response_ne :: "read_coils_response \<Rightarrow> read_coils_response \<Rightarrow> bool" where
  "read_coils_response_ne lhs rhs \<longleftrightarrow> \<not> read_coils_response_eq lhs rhs"

definition read_coils_response_encode :: "read_coils_response \<Rightarrow> uint8 list" where
  "read_coils_response_encode m =
     [read_coils_response.unit_id m, read_coils_response_function_code] @
     [of_nat (length (read_coils_response.vals m))] @
     read_coils_response.vals m"

subsubsection \<open>read_discrete_inputs_response\<close>

record read_discrete_inputs_response =
  unit_id :: uint8
  inputs :: "uint8 list"

definition new_read_discrete_inputs_response :: "uint8 \<Rightarrow> uint8 list \<Rightarrow> read_discrete_inputs_response" where
  "new_read_discrete_inputs_response u a = read_discrete_inputs_response.make u a"

definition read_discrete_inputs_response_of_iterator ::
  "const_buffer_iterator \<Rightarrow> read_discrete_inputs_response option" where
  "read_discrete_inputs_response_of_iterator it = do {
     (u, it) \<leftarrow> deref_inc it;
     it \<leftarrow> inc it;
     (numBytes, it) \<leftarrow> deref_inc it;
     (a, it) \<leftarrow> get_bytes (unat numBytes) it;
     Some (read_discrete_inputs_response.make u a) }"

definition read_discrete_inputs_response_function_code :: function_code_t where
  "read_discrete_inputs_response_function_code = function_code_value read_discrete_inputs"

definition read_discrete_inputs_response_type :: message_type where
  "read_discrete_inputs_response_type = response"

definition read_discrete_inputs_response_size :: "read_discrete_inputs_response \<Rightarrow> nat" where
  "read_discrete_inputs_response_size m = 1 + 1 + 1 + 1 * length (read_discrete_inputs_response.inputs m)"

definition read_discrete_inputs_response_serialize ::
  "read_discrete_inputs_response \<Rightarrow> buffer_iterator \<Rightarrow> buffer_iterator option" where
  "read_discrete_inputs_response_serialize m it = do {
     it \<leftarrow> put (read_discrete_inputs_response.unit_id m) it;
     it \<leftarrow> put read_discrete_inputs_response_function_code it;
     it \<leftarrow> put (of_nat (length (read_discrete_inputs_response.inputs m))) it;
     put_bytes (read_discrete_inputs_response.inputs m) it }"

definition read_discrete_inputs_response_eq :: "read_discrete_inputs_response \<Rightarrow> read_discrete_inputs_response \<Rightarrow> bool" where
  "read_discrete_inputs_response_eq lhs rhs \<longleftrightarrow>
     read_discrete_inputs_response.unit_id lhs = read_discrete_inputs_response.unit_id rhs \<and>
     read_discrete_inputs_response.inputs lhs = read_discrete_inputs_response.inputs rhs"

definition read_discrete_inputs_response_ne :: "read_discrete_inputs_response \<Rightarrow> read_discrete_inputs_response \<Rightarrow> bool" where
  "read_discrete_inputs_response_ne lhs rhs \<longleftrightarrow> \<not> read_discrete_inputs_response_eq lhs rhs"

definition read_discrete_inputs_response_encode :: "read_discrete_inputs_response \<Rightarrow> uint8 list" where
  "read_discrete_inputs_response_encode m =
     [read_discrete_inputs_response.unit_id m, read_discrete_inputs_response_function_code] @
     [of_nat (length (read_discrete_inputs_response.inputs m))] @
     read_discrete_inputs_response.inputs m"

text \<open>The loop \<open>emplace_back(*it >> 8); emplace_back(*it & 0x00FF); it++\<close> of the two register
  responses.\<close>

fun emplace_words :: "uint16 list \<Rightarrow> uint8 list \<Rightarrow> uint8 list" where
  "emplace_words [] bs = bs"
| "emplace_words (w # ws) bs = emplace_words ws (bs @ [hi8 w] @ [lo8 w])"

subsubsection \<open>read_holding_registers_response\<close>

record read_holding_registers_response =
  unit_id :: uint8
  vals :: "uint8 list"

definition new_read_holding_registers_response :: "uint8 \<Rightarrow> uint8 list \<Rightarrow> read_holding_registers_response" where
  "new_read_holding_registers_response u a = read_holding_registers_response.make u a"

definition read_holding_registers_response_of_iterator ::
  "const_buffer_iterator \<Rightarrow> read_holding_registers_response option" where
  "read_holding_registers_response_of_iterator it = do {
     (u, it) \<leftarrow> deref_inc it;
     it \<leftarrow> inc it;
     (numBytes, it) \<leftarrow> deref_inc it;
     (a, it) \<leftarrow> get_bytes (unat numBytes) it;
     Some (read_holding_registers_response.make u a) }"

definition read_holding_registers_response_function_code :: function_code_t where
  "read_holding_registers_response_function_code = function_code_value read_holding_registers"

definition read_holding_registers_response_type :: message_type where
  "read_holding_registers_response_type = response"

definition read_holding_registers_response_size :: "read_holding_registers_response \<Rightarrow> nat" where
  "read_holding_registers_response_size m = 1 + 1 + 1 + 1 * length (read_holding_registers_response.vals m)"

definition read_holding_registers_response_serialize ::
  "read_holding_registers_response \<Rightarrow> buffer_iterator \<Rightarrow> buffer_iterator option" where
  "read_holding_registers_response_serialize m it = do {
     it \<leftarrow> put (read_holding_registers_response.unit_id m) it;
     it \<leftarrow> put read_holding_registers_response_function_code it;
     it \<leftarrow> put (of_nat (length (read_holding_registers_response.vals m))) it;
     put_bytes (read_holding_registers_response.vals m) it }"

text \<open>The constructor from \<open>std::vector<uint16_t>\<close> appends the two bytes of each register.\<close>

definition new_read_holding_registers_response_words :: "uint8 \<Rightarrow> uint16 list \<Rightarrow> read_holding_registers_response" where
  "new_read_holding_registers_response_words u ws = read_holding_registers_response.make u (emplace_words ws [])"

definition read_holding_registers_response_eq :: "read_holding_registers_response \<Rightarrow> read_holding_registers_response \<Rightarrow> bool" where
  "read_holding_registers_response_eq lhs rhs \<longleftrightarrow>
     read_holding_registers_response.unit_id lhs = read_holding_registers_response.unit_id rhs \<and>
     read_holding_registers_response.vals lhs = read_holding_registers_response.vals rhs"

definition read_holding_registers_response_ne :: "read_holding_registers_response \<Rightarrow> read_holding_registers_response \<Rightarrow> bool" where
  "read_holding_registers_response_ne lhs rhs \<longleftrightarrow> \<not> read_holding_registers_response_eq lhs rhs"

definition read_holding_registers_response_encode :: "read_holding_registers_response \<Rightarrow> uint8 list" where
  "read_holding_registers_response_encode m =
     [read_holding_registers_response.unit_id m, read_holding_registers_response_function_code] @
     [of_nat (length (read_holding_registers_response.vals m))] @
     read_holding_registers_response.vals m"

subsubsection \<open>read_input_registers_response\<close>

record read_input_registers_response =
  unit_id :: uint8
  vals :: "uint8 list"

definition new_read_input_registers_response :: "uint8 \<Rightarrow> uint8 list \<Rightarrow> read_input_registers_response" where
  "new_read_input_registers_response u a = read_input_registers_response.make u a"

definition read_input_registers_response_of_iterator ::
  "const_buffer_iterator \<Rightarrow> read_input_registers_response option" where
  "read_input_registers_response_of_iterator it = do {
     (u, it) \<leftarrow> deref_inc it;
     it \<leftarrow> inc it;
     (numBytes, it) \<leftarrow> deref_inc it;
     (a, it) \<leftarrow> get_bytes (unat numBytes) it;
     Some (read_input_registers_response.make u a) }"

definition read_input_registers_response_function_code :: function_code_t where
  "read_input_registers_response_function_code = function_code_value read_input_registers"

definition read_input_registers_response_type :: message_type where
  "read_input_registers_response_type = response"

definition read_input_registers_response_size :: "read_input_registers_response \<Rightarrow> nat" where
  "read_input_registers_response_size m = 1 + 1 + 1 + 1 * length (read_input_registers_response.vals m)"

definition read_input_registers_response_serialize ::
  "read_input_registers_response \<Rightarrow> buffer_iterator \<Rightarrow> buffer_iterator option" where
  "read_input_registers_response_serialize m it = do {
     it \<leftarrow> put (read_input_registers_response.unit_id m) it;
     it \<leftarrow> put read_input_registers_response_function_code it;
     it \<leftarrow> put (of_nat (length (read_input_registers_response.vals m))) it;
     put_bytes (read_input_registers_response.vals m) it }"

text \<open>The constructor from \<open>std::vector<uint16_t>\<close> appends the two bytes of each register.\<close>

definition new_read_input_registers_response_words :: "uint8 \<Rightarrow> uint16 list \<Rightarrow> read_input_registers_response" where
  "new_read_input_registers_response_words u ws = read_input_registers_response.make u (emplace_words ws [])"

definition read_input_registers_response_eq :: "read_input_registers_response \<Rightarrow> read_input_registers_response \<Rightarrow> bool" where
  "read_input_registers_response_eq lhs rhs \<longleftrightarrow>
     read_input_registers_response.unit_id lhs = read_input_registers_response.unit_id rhs \<and>
     read_input_registers_response.vals lhs = read_input_registers_response.vals rhs"

definition read_input_registers_response_ne :: "read_input_registers_response \<Rightarrow> read_input_registers_response \<Rightarrow> bool" where
  "read_input_registers_response_ne lhs rhs \<longleftrightarrow> \<not> read_input_registers_response_eq lhs rhs"

definition read_input_registers_response_encode :: "read_input_registers_response \<Rightarrow> uint8 list" where
  "read_input_registers_response_encode m =
     [read_input_registers_response.unit_id m, read_input_registers_response_function_code] @
     [of_nat (length (read_input_registers_response.vals m))] @
     read_input_registers_response.vals m"

subsubsection \<open>read_write_registers_response\<close>

record read_write_registers_response =
  unit_id :: uint8
  vals :: "uint16 list"

definition new_read_write_registers_response :: "uint8 \<Rightarrow> uint16 list \<Rightarrow> read_write_registers_response" where
  "new_read_write_registers_response u a = read_write_registers_response.make u a"

definition read_write_registers_response_of_iterator ::
  "const_buffer_iterator \<Rightarrow> read_write_registers_response option" where
  "read_write_registers_response_of_iterator it = do {
     (u, it) \<leftarrow> deref_inc it;
     it \<leftarrow> inc it;
     (numBytes, it) \<leftarrow> deref_inc it;
     (a, it) \<leftarrow> get_words (unat numBytes div 2) it;
     Some (read_write_registers_response.make u a) }"

definition read_write_registers_response_function_code :: function_code_t where
  "read_write_registers_response_function_code = function_code_value read_write_multiple_registers"

definition read_write_registers_response_type :: message_type where
  "read_write_registers_response_type = response"

definition read_write_registers_response_size :: "read_write_registers_response \<Rightarrow> nat" where
  "read_write_registers_response_size m = 1 + 1 + 1 + 2 * length (read_write_registers_response.vals m)"

definition read_write_registers_response_serialize ::
  "read_write_registers_response \<Rightarrow> buffer_iterator \<Rightarrow> buffer_iterator option" where
  "read_write_registers_response_serialize m it = do {
     it \<leftarrow> put (read_write_registers_response.unit_id m) it;
     it \<leftarrow> put read_write_registers_response_function_code it;
     it \<leftarrow> put (of_nat (length (read_write_registers_response.vals m) * 2)) it;
     put_words (read_write_registers_response.vals m) it }"

definition read_write_registers_response_eq :: "read_write_registers_response \<Rightarrow> read_write_registers_response \<Rightarrow> bool" where
  "read_write_registers_response_eq lhs rhs \<longleftrightarrow>
     read_write_registers_response.unit_id lhs = read_write_registers_response.unit_id rhs \<and>
     read_write_registers_response.vals lhs = read_write_registers_response.vals rhs"

definition read_write_registers_response_ne :: "read_write_registers_response \<Rightarrow> read_write_registers_response \<Rightarrow> bool" where
  "read_write_registers_response_ne lhs rhs \<longleftrightarrow> \<not> read_write_registers_response_eq lhs rhs"

definition read_write_registers_response_encode :: "read_write_registers_response \<Rightarrow> uint8 list" where
  "read_write_registers_response_encode m =
     [read_write_registers_response.unit_id m, read_write_registers_response_function_code] @
     [of_nat (length (read_write_registers_response.vals m) * 2)] @
     enc_words (read_write_registers_response.vals m)"

subsubsection \<open>write_multiple_coils_response\<close>

record write_multiple_coils_response =
  unit_id :: uint8
  start_address :: uint16
  len :: uint16

definition new_write_multiple_coils_response :: "uint8 \<Rightarrow> uint16 \<Rightarrow> uint16 \<Rightarrow> write_multiple_coils_response" where
  "new_write_multiple_coils_response u a b = write_multiple_coils_response.make u a b"

definition write_multiple_coils_response_of_iterator ::
  "const_buffer_iterator \<Rightarrow> write_multiple_coils_response option" where
  "write_multiple_coils_response_of_iterator it = do {
     (u, it) \<leftarrow> deref_inc it;
     it \<leftarrow> inc it;
     (a, it) \<leftarrow> get_u16 it;
     (b, it) \<leftarrow> get_u16 it;
     Some (write_multiple_coils_response.make u a b) }"

definition write_multiple_coils_response_function_code :: function_code_t where
  "write_multiple_coils_response_function_code = function_code_value write_multiple_coils"

definition write_multiple_coils_response_type :: message_type where
  "write_multiple_coils_response_type = response"

definition write_multiple_coils_response_size :: "write_multiple_coils_response \<Rightarrow> nat" where
  "write_multiple_coils_response_size m = 1 + 1 + 2 + 2"

definition write_multiple_coils_response_serialize ::
  "write_multiple_coils_response \<Rightarrow> buffer_iterator \<Rightarrow> buffer_iterator option" where
  "write_multiple_coils_response_serialize m it = do {
     it \<leftarrow> put (write_multiple_coils_response.unit_id m) it;
     it \<leftarrow> put write_multiple_coils_response_function_code it;
     it \<leftarrow> put_u16 (write_multiple_coils_response.start_address m) it;
     put_u16 (write_multiple_coils_response.len m) it }"

definition write_multiple_coils_response_eq :: "write_multiple_coils_response \<Rightarrow> write_multiple_coils_response \<Rightarrow> bool" where
  "write_multiple_coils_response_eq lhs rhs \<longleftrightarrow>
     write_multiple_coils_response.unit_id lhs = write_multiple_coils_response.unit_id rhs \<and>
     write_multiple_coils_response.start_address lhs = write_multiple_coils_response.start_address rhs \<and>
     write_multiple_coils_response.len lhs = write_multiple_coils_response.len rhs"

definition write_multiple_coils_response_ne :: "write_multiple_coils_response \<Rightarrow> write_multiple_coils_response \<Rightarrow> bool" where
  "write_multiple_coils_response_ne lhs rhs \<longleftrightarrow> \<not> write_multiple_coils_response_eq lhs rhs"

definition write_multiple_coils_response_encode :: "write_multiple_coils_response \<Rightarrow> uint8 list" where
  "write_multiple_coils_response_encode m =
     [write_multiple_coils_response.unit_id m, write_multiple_coils_response_function_code] @
     enc_u16 (write_multiple_coils_response.start_address m) @
     enc_u16 (write_multiple_coils_response.len m)"

subsubsection \<open>write_multiple_registers_response\<close>

record write_multiple_registers_response =
  unit_id :: uint8
  start_address :: uint16
  len :: uint16

definition new_write_multiple_registers_response :: "uint8 \<Rightarrow> uint16 \<Rightarrow> uint16 \<Rightarrow> write_multiple_registers_response" where
  "new_write_multiple_registers_response u a b = write_multiple_registers_response.make u a b"

definition write_multiple_registers_response_of_iterator ::
  "const_buffer_iterator \<Rightarrow> write_multiple_registers_response option" where
  "write_multiple_registers_response_of_iterator it = do {
     (u, it) \<leftarrow> deref_inc it;
     it \<leftarrow> inc it;
     (a, it) \<leftarrow> get_u16 it;
     (b, it) \<leftarrow> get_u16 it;
     Some (write_multiple_registers_response.make u a b) }"

definition write_multiple_registers_response_function_code :: function_code_t where
  "write_multiple_registers_response_function_code = function_code_value write_multiple_registers"

definition write_multiple_registers_response_type :: message_type where
  "write_multiple_registers_response_type = response"

definition write_multiple_registers_response_size :: "write_multiple_registers_response \<Rightarrow> nat" where
  "write_multiple_registers_response_size m = 1 + 1 + 2 + 2"

definition write_multiple_registers_response_serialize ::
  "write_multiple_registers_response \<Rightarrow> buffer_iterator \<Rightarrow> buffer_iterator option" where
  "write_multiple_registers_response_serialize m it = do {
     it \<leftarrow> put (write_multiple_registers_response.unit_id m) it;
     it \<leftarrow> put write_multiple_registers_response_function_code it;
     it \<leftarrow> put_u16 (write_multiple_registers_response.start_address m) it;
     put_u16 (write_multiple_registers_response.len m) it }"

definition write_multiple_registers_response_eq :: "write_multiple_registers_response \<Rightarrow> write_multiple_registers_response \<Rightarrow> bool" where
  "write_multiple_registers_response_eq lhs rhs \<longleftrightarrow>
     write_multiple_registers_response.unit_id lhs = write_multiple_registers_response.unit_id rhs \<and>
     write_multiple_registers_response.start_address lhs = write_multiple_registers_response.start_address rhs \<and>
     write_multiple_registers_response.len lhs = write_multiple_registers_response.len rhs"

definition write_multiple_registers_response_ne :: "write_multiple_registers_response \<Rightarrow> write_multiple_registers_response \<Rightarrow> bool" where
  "write_multiple_registers_response_ne lhs rhs \<longleftrightarrow> \<not> write_multiple_registers_response_eq lhs rhs"

definition write_multiple_registers_response_encode :: "write_multiple_registers_response \<Rightarrow> uint8 list" where
  "write_multiple_registers_response_encode m =
     [write_multiple_registers_response.unit_id m, write_multiple_registers_response_function_code] @
     enc_u16 (write_multiple_registers_response.start_address m) @
     enc_u16 (write_multiple_registers_response.len m)"

subsubsection \<open>write_single_coil_response\<close>

record write_single_coil_response =
  unit_id :: uint8
  start_address :: uint16
  coil_value :: bool

definition new_write_single_coil_response :: "uint8 \<Rightarrow> uint16 \<Rightarrow> bool \<Rightarrow> write_single_coil_response" where
  "new_write_single_coil_response u a b = write_single_coil_response.make u a b"

definition write_single_coil_response_of_iterator ::
  "const_buffer_iterator \<Rightarrow> write_single_coil_response option" where
  "write_single_coil_response_of_iterator it = do {
     (u, it) \<leftarrow> deref_inc it;
     it \<leftarrow> inc it;
     (a, it) \<leftarrow> get_u16 it;
     (h, it) \<leftarrow> deref_inc it;
     l \<leftarrow> deref it;
     Some (write_single_coil_response.make u a (be16 h l = coil_status_value coil_on)) }"

definition write_single_coil_response_function_code :: function_code_t where
  "write_single_coil_response_function_code = function_code_value write_single_coil"

definition write_single_coil_response_type :: message_type where
  "write_single_coil_response_type = response"

definition write_single_coil_response_size :: "write_single_coil_response \<Rightarrow> nat" where
  "write_single_coil_response_size m = 1 + 1 + 2 + 2"

definition write_single_coil_response_serialize ::
  "write_single_coil_response \<Rightarrow> buffer_iterator \<Rightarrow> buffer_iterator option" where
  "write_single_coil_response_serialize m it = do {
     it \<leftarrow> put (write_single_coil_response.unit_id m) it;
     it \<leftarrow> put write_single_coil_response_function_code it;
     it \<leftarrow> put_u16 (write_single_coil_response.start_address m) it;
     it \<leftarrow> put (if write_single_coil_response.coil_value m then 0xFF else 0x00) it;
     put 0x00 it }"

definition write_single_coil_response_eq :: "write_single_coil_response \<Rightarrow> write_single_coil_response \<Rightarrow> bool" where
  "write_single_coil_response_eq lhs rhs \<longleftrightarrow>
     write_single_coil_response.unit_id lhs = write_single_coil_response.unit_id rhs \<and>
     write_single_coil_response.start_address lhs = write_single_coil_response.start_address rhs \<and>
     write_single_coil_response.coil_value lhs = write_single_coil_response.coil_value rhs"

definition write_single_coil_response_ne :: "write_single_coil_response \<Rightarrow> write_single_coil_response \<Rightarrow> bool" where
  "write_single_coil_response_ne lhs rhs \<longleftrightarrow> \<not> write_single_coil_response_eq lhs rhs"

definition write_single_coil_response_encode :: "write_single_coil_response \<Rightarrow> uint8 list" where
  "write_single_coil_response_encode m =
     [write_single_coil_response.unit_id m, write_single_coil_response_function_code] @
     enc_u16 (write_single_coil_response.start_address m) @
     [if write_single_coil_response.coil_value m then 0xFF else 0x00, 0x00]"

subsubsection \<open>write_single_register_response\<close>

record write_single_register_response =
  unit_id :: uint8
  start_address :: uint16
  reg_value :: uint16

definition new_write_single_register_response :: "uint8 \<Rightarrow> uint16 \<Rightarrow> uint16 \<Rightarrow> write_single_register_response" where
  "new_write_single_register_response u a b = write_single_register_response.make u a b"

definition write_single_register_response_of_iterator ::
  "const_buffer_iterator \<Rightarrow> write_single_register_response option" where
  "write_single_register_response_of_iterator it = do {
     (u, it) \<leftarrow> deref_inc it;
     it \<leftarrow> inc it;
     (a, it) \<leftarrow> get_u16 it;
     (b, it) \<leftarrow> get_u16 it;
     Some (write_single_register_response.make u a b) }"

definition write_single_register_response_function_code :: function_code_t where
  "write_single_register_response_function_code = function_code_value write_single_register"

definition write_single_register_response_type :: message_type where
  "write_single_register_response_type = response"

definition write_single_register_response_size :: "write_single_register_response \<Rightarrow> nat" where
  "write_single_register_response_size m = 1 + 1 + 2 + 2"

definition write_single_register_response_serialize ::
  "write_single_register_response \<Rightarrow> buffer_iterator \<Rightarrow> buffer_iterator option" where
  "write_single_register_response_serialize m it = do {
     it \<leftarrow> put (write_single_register_response.unit_id m) it;
     it \<leftarrow> put write_single_register_response_function_code it;
     it \<leftarrow> put_u16 (write_single_register_response.start_address m) it;
     put_u16 (write_single_register_response.reg_value m) it }"

definition write_single_register_response_eq :: "write_single_register_response \<Rightarrow> write_single_register_response \<Rightarrow> bool" where
  "write_single_register_response_eq lhs rhs \<longleftrightarrow>
     write_single_register_response.unit_id lhs = write_single_register_response.unit_id rhs \<and>
     write_single_register_response.start_address lhs = write_single_register_response.start_address rhs \<and>
     write_single_register_response.reg_value lhs = write_single_register_response.reg_value rhs"

definition write_single_register_response_ne :: "write_single_register_response \<Rightarrow> write_single_register_response \<Rightarrow> bool" where
  "write_single_register_response_ne lhs rhs \<longleftrightarrow> \<not> write_single_register_response_eq lhs rhs"

definition write_single_register_response_encode :: "write_single_register_response \<Rightarrow> uint8 list" where
  "write_single_register_response_encode m =
     [write_single_register_response.unit_id m, write_single_register_response_function_code] @
     enc_u16 (write_single_register_response.start_address m) @
     enc_u16 (write_single_register_response.reg_value m)"

subsection \<open>The classes implement the message interface\<close>

lemmas exr_defs = exception_response_of_iterator_def exception_response_serialize_def
  exception_response_size_def exception_response_encode_def exception_response.defs

interpretation exr: message exception_response_serialize exception_response_size
  exception_response_encode
  by unfold_locales (simp_all add: exr_defs wire_simps)

interpretation exr: fixed_pdu exception_response_of_iterator 3
  by unfold_locales (auto simp: exr_defs)

lemma bit_0x80_iff: "bit (0x80 :: uint8) n \<longleftrightarrow> n = 7"
proof -
  have "(0x80 :: uint8) = 2 ^ 7" by simp
  then show ?thesis by (simp only: bit_exp_iff) auto
qed

lemma or_0x80_and_0x7F: "\<not> bit (f :: uint8) 7 \<Longrightarrow> (f OR 0x80) AND 0x7F = f"
proof (rule bit_word_eqI)
  fix n assume f: "\<not> bit f 7" and n: "n < LENGTH(8)"
  have m: "(0x7F :: uint8) = mask 7"
    by (simp add: mask_eq_exp_minus_1)
  show "bit ((f OR 0x80) AND 0x7F) n = bit f n"
    using f n bit_0x80_iff [of n] unfolding m
    by (cases "n = 7") (auto simp: bit_and_iff bit_or_iff bit_mask_iff)
qed

lemma bit_or_0x80: "bit ((f :: uint8) OR 0x80) 7"
  using bit_0x80_iff [of 7] by (simp add: bit_or_iff)

lemma exception_response_of_iterator_encode:
  "\<not> bit (func_code m) 7 \<Longrightarrow>
     exception_response_of_iterator (pre @ exception_response_encode m @ post, length pre) = Some m"
  by (simp add: exr_defs nth_append or_0x80_and_0x7F)

lemma or_0x80_inject:
  "\<not> bit (f :: uint8) 7 \<Longrightarrow> \<not> bit g 7 \<Longrightarrow> f OR 0x80 = g OR 0x80 \<longleftrightarrow> f = g"
  by (metis or_0x80_and_0x7F)

lemma exception_compared:
  assumes "\<not> bit (func_code x) 7" "\<not> bit (func_code y) 7"
  shows "compared_by_wire exception_response_size exception_response_serialize exception_response_type
    exception_response_eq exception_response_ne tid x y"
proof -
  have "exception_response_encode x = exception_response_encode y \<longleftrightarrow> exception_response_eq x y"
    using or_0x80_inject [OF assms] by (simp add: exception_response_encode_def exception_response_eq_def)
  then show ?thesis
    by (simp add: compared_by_wire_def exr.tcp_data_unit_of_pdu_image exception_response_ne_def
        exception_response_size_def)
qed

lemma emplace_words_enc: "emplace_words ws bs = bs @ enc_words ws"
  by (induction ws arbitrary: bs) simp_all

lemmas mwr_defs = mask_write_register_response_of_iterator_def mask_write_register_response_serialize_def mask_write_register_response_size_def
  mask_write_register_response_encode_def mask_write_register_response_function_code_def mask_write_register_response.defs

interpretation mwr: pdu_message mask_write_register_response_serialize mask_write_register_response_size
  mask_write_register_response_encode mask_write_register_response_of_iterator
  mask_write_register_response_function_code "\<lambda>_. True"
  by unfold_locales (simp_all add: mwr_defs wire_simps image_simps)

interpretation mwr: comparable_pdu mask_write_register_response_serialize mask_write_register_response_size
  mask_write_register_response_encode mask_write_register_response_of_iterator
  mask_write_register_response_function_code "\<lambda>_. True"
  mask_write_register_response_eq mask_write_register_response_ne
  by unfold_locales (auto simp: mask_write_register_response_eq_def mask_write_register_response_ne_def)

interpretation mwr: fixed_pdu mask_write_register_response_of_iterator 8
  by unfold_locales (auto simp: mwr_defs wire_simps)

lemmas rcr_defs = read_coils_response_of_iterator_def read_coils_response_serialize_def read_coils_response_size_def
  read_coils_response_encode_def read_coils_response_function_code_def read_coils_response.defs

interpretation rcr: pdu_message read_coils_response_serialize read_coils_response_size
  read_coils_response_encode read_coils_response_of_iterator
  read_coils_response_function_code "\<lambda>m. length (read_coils_response.vals m) < 256"
  by unfold_locales (simp_all add: rcr_defs wire_simps image_simps)

interpretation rcr: comparable_pdu read_coils_response_serialize read_coils_response_size
  read_coils_response_encode read_coils_response_of_iterator
  read_coils_response_function_code "\<lambda>m. length (read_coils_response.vals m) < 256"
  read_coils_response_eq read_coils_response_ne
  by unfold_locales (auto simp: read_coils_response_eq_def read_coils_response_ne_def)

interpretation rcr: counted_pdu read_coils_response_of_iterator 2 unat
  by unfold_locales (auto simp: rcr_defs wire_simps numeral_eq_Suc)

lemmas rdr_defs = read_discrete_inputs_response_of_iterator_def read_discrete_inputs_response_serialize_def read_discrete_inputs_response_size_def
  read_discrete_inputs_response_encode_def read_discrete_inputs_response_function_code_def read_discrete_inputs_response.defs

interpretation rdr: pdu_message read_discrete_inputs_response_serialize read_discrete_inputs_response_size
  read_discrete_inputs_response_encode read_discrete_inputs_response_of_iterator
  read_discrete_inputs_response_function_code "\<lambda>m. length (read_discrete_inputs_response.inputs m) < 256"
  by unfold_locales (simp_all add: rdr_defs wire_simps image_simps)

interpretation rdr: comparable_pdu read_discrete_inputs_response_serialize read_discrete_inputs_response_size
  read_discrete_inputs_response_encode read_discrete_inputs_response_of_iterator
  read_discrete_inputs_response_function_code "\<lambda>m. length (read_discrete_inputs_response.inputs m) < 256"
  read_discrete_inputs_response_eq read_discrete_inputs_response_ne
  by unfold_locales (auto simp: read_discrete_inputs_response_eq_def read_discrete_inputs_response_ne_def)

interpretation rdr: counted_pdu read_discrete_inputs_response_of_iterator 2 unat
  by unfold_locales (auto simp: rdr_defs wire_simps numeral_eq_Suc)

lemmas rhr_defs = read_holding_registers_response_of_iterator_def read_holding_registers_response_serialize_def read_holding_registers_response_size_def
  read_holding_registers_response_encode_def read_holding_registers_response_function_code_def read_holding_registers_response.defs

interpretation rhr: pdu_message read_holding_registers_response_serialize read_holding_registers_response_size
  read_holding_registers_response_encode read_holding_registers_response_of_iterator
  read_holding_registers_response_function_code "\<lambda>m. length (read_holding_registers_response.vals m) < 256"
  by unfold_locales (simp_all add: rhr_defs wire_simps image_simps)

interpretation rhr: comparable_pdu read_holding_registers_response_serialize read_holding_registers_response_size
  read_holding_registers_response_encode read_holding_registers_response_of_iterator
  read_holding_registers_response_function_code "\<lambda>m. length (read_holding_registers_response.vals m) < 256"
  read_holding_registers_response_eq read_holding_registers_response_ne
  by unfold_locales (auto simp: read_holding_registers_response_eq_def read_holding_registers_response_ne_def)

interpretation rhr: counted_pdu read_holding_registers_response_of_iterator 2 unat
  by unfold_locales (auto simp: rhr_defs wire_simps numeral_eq_Suc)

lemmas rir_defs = read_input_registers_response_of_iterator_def read_input_registers_response_serialize_def read_input_registers_response_size_def
  read_input_registers_response_encode_def read_input_registers_response_function_code_def read_input_registers_response.defs

interpretation rir: pdu_message read_input_registers_response_serialize read_input_registers_response_size
  read_input_registers_response_encode read_input_registers_response_of_iterator
  read_input_registers_response_function_code "\<lambda>m. length (read_input_registers_response.vals m) < 256"
  by unfold_locales (simp_all add: rir_defs wire_simps image_simps)

interpretation rir: comparable_pdu read_input_registers_response_serialize read_input_registers_response_size
  read_input_registers_response_encode read_input_registers_response_of_iterator
  read_input_registers_response_function_code "\<lambda>m. length (read_input_registers_response.vals m) < 256"
  read_input_registers_response_eq read_input_registers_response_ne
  by unfold_locales (auto simp: read_input_registers_response_eq_def read_input_registers_response_ne_def)

interpretation rir: counted_pdu read_input_registers_response_of_iterator 2 unat
  by unfold_locales (auto simp: rir_defs wire_simps numeral_eq_Suc)

lemmas rwr_defs = read_write_registers_response_of_iterator_def read_write_registers_response_serialize_def read_write_registers_response_size_def
  read_write_registers_response_encode_def read_write_registers_response_function_code_def read_write_registers_response.defs

interpretation rwr: pdu_message read_write_registers_response_serialize read_write_registers_response_size
  read_write_registers_response_encode read_write_registers_response_of_iterator
  read_write_registers_response_function_code "\<lambda>m. length (read_write_registers_response.vals m) < 128"
  by unfold_locales (simp_all add: rwr_defs wire_simps image_simps)

interpretation rwr: comparable_pdu read_write_registers_response_serialize read_write_registers_response_size
  read_write_registers_response_encode read_write_registers_response_of_iterator
  read_write_registers_response_function_code "\<lambda>m. length (read_write_registers_response.vals m) < 128"
  read_write_registers_response_eq read_write_registers_response_ne
  by unfold_locales (auto simp: read_write_registers_response_eq_def read_write_registers_response_ne_def)

interpretation rwr: counted_pdu read_write_registers_response_of_iterator 2 "\<lambda>n. 2 * (unat n div 2)"
  by (unfold_locales, (auto simp: rwr_defs wire_simps numeral_eq_Suc)[1]) arith

lemmas wcr_defs = write_multiple_coils_response_of_iterator_def write_multiple_coils_response_serialize_def write_multiple_coils_response_size_def
  write_multiple_coils_response_encode_def write_multiple_coils_response_function_code_def write_multiple_coils_response.defs

interpretation wcr: pdu_message write_multiple_coils_response_serialize write_multiple_coils_response_size
  write_multiple_coils_response_encode write_multiple_coils_response_of_iterator
  write_multiple_coils_response_function_code "\<lambda>_. True"
  by unfold_locales (simp_all add: wcr_defs wire_simps image_simps)

interpretation wcr: comparable_pdu write_multiple_coils_response_serialize write_multiple_coils_response_size
  write_multiple_coils_response_encode write_multiple_coils_response_of_iterator
  write_multiple_coils_response_function_code "\<lambda>_. True"
  write_multiple_coils_response_eq write_multiple_coils_response_ne
  by unfold_locales (auto simp: write_multiple_coils_response_eq_def write_multiple_coils_response_ne_def)

interpretation wcr: fixed_pdu write_multiple_coils_response_of_iterator 6
  by unfold_locales (auto simp: wcr_defs wire_simps)

lemmas wrr_defs = write_multiple_registers_response_of_iterator_def write_multiple_registers_response_serialize_def write_multiple_registers_response_size_def
  write_multiple_registers_response_encode_def write_multiple_registers_response_function_code_def write_multiple_registers_response.defs

interpretation wrr: pdu_message write_multiple_registers_response_serialize write_multiple_registers_response_size
  write_multiple_registers_response_encode write_multiple_registers_response_of_iterator
  write_multiple_registers_response_function_code "\<lambda>_. True"
  by unfold_locales (simp_all add: wrr_defs wire_simps image_simps)

interpretation wrr: comparable_pdu write_multiple_registers_response_serialize write_multiple_registers_response_size
  write_multiple_registers_response_encode write_multiple_registers_response_of_iterator
  write_multiple_registers_response_function_code "\<lambda>_. True"
  write_multiple_registers_response_eq write_multiple_registers_response_ne
  by unfold_locales (auto simp: write_multiple_registers_response_eq_def write_multiple_registers_response_ne_def)

interpretation wrr: fixed_pdu write_multiple_registers_response_of_iterator 6
  by unfold_locales (auto simp: wrr_defs wire_simps)

lemmas scr_defs = write_single_coil_response_of_iterator_def write_single_coil_response_serialize_def write_single_coil_response_size_def
  write_single_coil_response_encode_def write_single_coil_response_function_code_def write_single_coil_response.defs

interpretation scr: pdu_message write_single_coil_response_serialize write_single_coil_response_size
  write_single_coil_response_encode write_single_coil_response_of_iterator
  write_single_coil_response_function_code "\<lambda>_. True"
  by unfold_locales (simp_all add: scr_defs wire_simps image_simps)

interpretation scr: comparable_pdu write_single_coil_response_serialize write_single_coil_response_size
  write_single_coil_response_encode write_single_coil_response_of_iterator
  write_single_coil_response_function_code "\<lambda>_. True"
  write_single_coil_response_eq write_single_coil_response_ne
  by unfold_locales (auto simp: write_single_coil_response_eq_def write_single_coil_response_ne_def)

interpretation scr: fixed_pdu write_single_coil_response_of_iterator 6
  by unfold_locales (auto simp: scr_defs wire_simps)

lemmas srr_defs = write_single_register_response_of_iterator_def write_single_register_response_serialize_def write_single_register_response_size_def
  write_single_register_response_encode_def write_single_register_response_function_code_def write_single_register_response.defs

interpretation srr: pdu_message write_single_register_response_serialize write_single_register_response_size
  write_single_register_response_encode write_single_register_response_of_iterator
  write_single_register_response_function_code "\<lambda>_. True"
  by unfold_locales (simp_all add: srr_defs wire_simps image_simps)

interpretation srr: comparable_pdu write_single_register_response_serialize write_single_register_response_size
  write_single_register_response_encode write_single_register_response_of_iterator
  write_single_register_response_function_code "\<lambda>_. True"
  write_single_register_response_eq write_single_register_response_ne
  by unfold_locales (auto simp: write_single_register_response_eq_def write_single_register_response_ne_def)

interpretation srr: fixed_pdu write_single_register_response_of_iterator 6
  by unfold_locales (auto simp: srr_defs wire_simps)

subsection \<open>Properties\<close>

text \<open>C18: the five response classes of fixed size travel unchanged, as the requests do.\<close>

theorem fixed_responses_carried:

  "carries mask_write_register_response_size mask_write_register_response_serialize mask_write_register_response_of_iterator
       mask_write_register_response_function_code mask_write_register_response_type tid mwr
   \<and> carries write_multiple_coils_response_size write_multiple_coils_response_serialize write_multiple_coils_response_of_iterator
       write_multiple_coils_response_function_code write_multiple_coils_response_type tid wcr
   \<and> carries write_multiple_registers_response_size write_multiple_registers_response_serialize write_multiple_registers_response_of_iterator
       write_multiple_registers_response_function_code write_multiple_registers_response_type tid wrr
   \<and> carries write_single_coil_response_size write_single_coil_response_serialize write_single_coil_response_of_iterator
       write_single_coil_response_function_code write_single_coil_response_type tid scr
   \<and> carries write_single_register_response_size write_single_register_response_serialize write_single_register_response_of_iterator
       write_single_register_response_function_code write_single_register_response_type tid srr"
  by (intro conjI mwr.carries_wf
    wcr.carries_wf
    wrr.carries_wf
    scr.carries_wf
    srr.carries_wf) simp_all

text \<open>C19: the five response classes with a counted payload travel unchanged, as long as the payload
  fits the count byte.\<close>

theorem counted_responses_carried:
  assumes "length (read_coils_response.vals rcr) < 256"
    and "length (read_discrete_inputs_response.inputs rdr) < 256"
    and "length (read_holding_registers_response.vals rhr) < 256"
    and "length (read_input_registers_response.vals rir) < 256"
    and "length (read_write_registers_response.vals rwr) < 128"

  shows "carries read_coils_response_size read_coils_response_serialize read_coils_response_of_iterator
       read_coils_response_function_code read_coils_response_type tid rcr
   \<and> carries read_discrete_inputs_response_size read_discrete_inputs_response_serialize read_discrete_inputs_response_of_iterator
       read_discrete_inputs_response_function_code read_discrete_inputs_response_type tid rdr
   \<and> carries read_holding_registers_response_size read_holding_registers_response_serialize read_holding_registers_response_of_iterator
       read_holding_registers_response_function_code read_holding_registers_response_type tid rhr
   \<and> carries read_input_registers_response_size read_input_registers_response_serialize read_input_registers_response_of_iterator
       read_input_registers_response_function_code read_input_registers_response_type tid rir
   \<and> carries read_write_registers_response_size read_write_registers_response_serialize read_write_registers_response_of_iterator
       read_write_registers_response_function_code read_write_registers_response_type tid rwr"
  using assms by (intro conjI rcr.carries_wf
    rdr.carries_wf
    rhr.carries_wf
    rir.carries_wf
    rwr.carries_wf) simp_all

theorem counted_responses_carried_witness:
  "carries read_coils_response_size read_coils_response_serialize read_coils_response_of_iterator
       read_coils_response_function_code read_coils_response_type 7 (new_read_coils_response 1 [0xA9, 1])
   \<and> carries read_discrete_inputs_response_size read_discrete_inputs_response_serialize read_discrete_inputs_response_of_iterator
       read_discrete_inputs_response_function_code read_discrete_inputs_response_type 7 (new_read_discrete_inputs_response 1 [7])
   \<and> carries read_holding_registers_response_size read_holding_registers_response_serialize read_holding_registers_response_of_iterator
       read_holding_registers_response_function_code read_holding_registers_response_type 7 (new_read_holding_registers_response_words 1 [0x1234, 0xABCD])
   \<and> carries read_input_registers_response_size read_input_registers_response_serialize read_input_registers_response_of_iterator
       read_input_registers_response_function_code read_input_registers_response_type 7 (new_read_input_registers_response_words 1 [0xFFFF])
   \<and> carries read_write_registers_response_size read_write_registers_response_serialize read_write_registers_response_of_iterator
       read_write_registers_response_function_code read_write_registers_response_type 7 (new_read_write_registers_response 1 [1, 2, 3])"
  by (rule counted_responses_carried)
    (simp_all add: new_read_coils_response_def new_read_discrete_inputs_response_def
      new_read_holding_registers_response_words_def new_read_input_registers_response_words_def
      new_read_write_registers_response_def read_coils_response.defs read_discrete_inputs_response.defs read_holding_registers_response.defs read_input_registers_response.defs read_write_registers_response.defs)

text \<open>C20: an exception response travels unchanged: the data unit reports the function code, the
  exception flag and the exception code, \<open>pdu<exception_response>\<close> returns the response, and no other
  class can be read from it.\<close>

theorem exception_response_carried:
  assumes "\<not> bit (func_code m) 7"
  shows "\<exists>du. tcp_data_unit_of_pdu exception_response_size exception_response_serialize
      exception_response_type tid m = Some du
    \<and> transaction_id du = Inr tid \<and> message_length du = Inr 3
    \<and> function_code du = Inr (func_code m) \<and> is_exception du = Inr True
    \<and> exception_code_of du = Inr (exception_code m)
    \<and> pdu_exception exception_response_type exception_response_of_iterator du = Inr (Some m)
    \<and> pdu fcode ty parser du = Inr None"
proof -
  let ?du = "\<lparr>m_buffer = mbap tid 3 @ exception_response_encode m, m_type = exception_response_type\<rparr>"
  have fc: "function_code ?du = Inr (func_code m)" "is_exception ?du = Inr True"
    using or_0x80_and_0x7F [OF assms] bit_or_0x80 [of "func_code m"]
    by (simp_all add: exception_response_encode_def)
  have "(mbap tid 3 @ exception_response_encode m) ! 8 = exception_code m"
    by (simp add: exception_response_encode_def mbap_def enc_u16_def numeral_eq_Suc)
  then have ec: "exception_code_of ?du = Inr (exception_code m)"
    using fc by (simp add: exception_code_of_def res_bind_def vec_at_def exception_response_encode_def)
  have "exception_response_of_iterator (mbap tid 3 @ exception_response_encode m, 6) = Some m"
    using exception_response_of_iterator_encode [OF assms, of "mbap tid 3" "[]"] by simp
  then have "pdu_exception exception_response_type exception_response_of_iterator ?du = Inr (Some m)"
    using fc(2) unfolding pdu_exception_def by (simp add: res_bind_def exception_response_encode_def)
  moreover have "pdu fcode ty parser ?du = Inr None"
    using fc(2) unfolding pdu_def by (simp add: res_bind_def)
  ultimately show ?thesis
    using fc ec
    by (simp add: exr.tcp_data_unit_of_pdu_image exception_response_size_def eval_nat_numeral)
qed

theorem exception_response_carried_witness:
  "\<exists>du. tcp_data_unit_of_pdu exception_response_size exception_response_serialize
      exception_response_type 1 (new_exception_response 1 3 2) = Some du
    \<and> function_code du = Inr 3 \<and> is_exception du = Inr True \<and> exception_code_of du = Inr 2
    \<and> pdu_exception exception_response_type exception_response_of_iterator du =
        Inr (Some (new_exception_response 1 3 2))"
proof -
  have "\<not> bit (func_code (new_exception_response 1 3 2)) 7"
    by (simp add: new_exception_response_def exception_response.defs)
  from exception_response_carried [OF this, of 1 3 response "\<lambda>it. Some ()"] show ?thesis
    by (auto simp: new_exception_response_def exception_response.defs)
qed

text \<open>The data unit of a response answers for its own class only.\<close>

lemma responses_unambiguous:

  "distinct [mask_write_register_response_function_code, read_coils_response_function_code, read_discrete_inputs_response_function_code, read_holding_registers_response_function_code, read_input_registers_response_function_code, read_write_registers_response_function_code, write_multiple_coils_response_function_code, write_multiple_registers_response_function_code, write_single_coil_response_function_code, write_single_register_response_function_code]
   \<and> answers_only mask_write_register_response_size mask_write_register_response_serialize
       mask_write_register_response_function_code mask_write_register_response_type tid mwr parser
   \<and> answers_only read_coils_response_size read_coils_response_serialize
       read_coils_response_function_code read_coils_response_type tid rcr parser
   \<and> answers_only read_discrete_inputs_response_size read_discrete_inputs_response_serialize
       read_discrete_inputs_response_function_code read_discrete_inputs_response_type tid rdr parser
   \<and> answers_only read_holding_registers_response_size read_holding_registers_response_serialize
       read_holding_registers_response_function_code read_holding_registers_response_type tid rhr parser
   \<and> answers_only read_input_registers_response_size read_input_registers_response_serialize
       read_input_registers_response_function_code read_input_registers_response_type tid rir parser
   \<and> answers_only read_write_registers_response_size read_write_registers_response_serialize
       read_write_registers_response_function_code read_write_registers_response_type tid rwr parser
   \<and> answers_only write_multiple_coils_response_size write_multiple_coils_response_serialize
       write_multiple_coils_response_function_code write_multiple_coils_response_type tid wcr parser
   \<and> answers_only write_multiple_registers_response_size write_multiple_registers_response_serialize
       write_multiple_registers_response_function_code write_multiple_registers_response_type tid wrr parser
   \<and> answers_only write_single_coil_response_size write_single_coil_response_serialize
       write_single_coil_response_function_code write_single_coil_response_type tid scr parser
   \<and> answers_only write_single_register_response_size write_single_register_response_serialize
       write_single_register_response_function_code write_single_register_response_type tid srr parser"
  by (intro conjI mwr.answers_only_own
    rcr.answers_only_own
    rdr.answers_only_own
    rhr.answers_only_own
    rir.answers_only_own
    rwr.answers_only_own
    wcr.answers_only_own
    wrr.answers_only_own
    scr.answers_only_own
    srr.answers_only_own)
    (simp add: mask_write_register_response_function_code_def read_coils_response_function_code_def read_discrete_inputs_response_function_code_def read_holding_registers_response_function_code_def read_input_registers_response_function_code_def read_write_registers_response_function_code_def write_multiple_coils_response_function_code_def write_multiple_registers_response_function_code_def write_single_coil_response_function_code_def write_single_register_response_function_code_def)

text \<open>Ten of the eleven response classes are compared by what they put on the wire: \<open>operator==\<close> of
  two responses holds exactly when their data units are the same byte for byte, and \<open>operator!=\<close> exactly when
  they differ. The exception response is too, for the function codes below 128. (The responses with a counted
  payload are those that fit the count byte.)\<close>

lemma responses_compared_by_wire:
  assumes "\<forall>r \<in> {exr, exr'}. \<not> bit (func_code r) 7"
    and "\<forall>r \<in> {rcr, rcr'}. length (read_coils_response.vals r) < 256"
    and "\<forall>r \<in> {rdr, rdr'}. length (read_discrete_inputs_response.inputs r) < 256"
    and "\<forall>r \<in> {rhr, rhr'}. length (read_holding_registers_response.vals r) < 256"
    and "\<forall>r \<in> {rir, rir'}. length (read_input_registers_response.vals r) < 256"
    and "\<forall>r \<in> {rwr, rwr'}. length (read_write_registers_response.vals r) < 128"
  shows "compared_by_wire exception_response_size exception_response_serialize
       exception_response_type exception_response_eq exception_response_ne tid exr exr'
   \<and> compared_by_wire mask_write_register_response_size mask_write_register_response_serialize
       mask_write_register_response_type mask_write_register_response_eq mask_write_register_response_ne tid mwr mwr'
   \<and> compared_by_wire read_coils_response_size read_coils_response_serialize
       read_coils_response_type read_coils_response_eq read_coils_response_ne tid rcr rcr'
   \<and> compared_by_wire read_discrete_inputs_response_size read_discrete_inputs_response_serialize
       read_discrete_inputs_response_type read_discrete_inputs_response_eq read_discrete_inputs_response_ne tid rdr rdr'
   \<and> compared_by_wire read_holding_registers_response_size read_holding_registers_response_serialize
       read_holding_registers_response_type read_holding_registers_response_eq read_holding_registers_response_ne tid rhr rhr'
   \<and> compared_by_wire read_input_registers_response_size read_input_registers_response_serialize
       read_input_registers_response_type read_input_registers_response_eq read_input_registers_response_ne tid rir rir'
   \<and> compared_by_wire read_write_registers_response_size read_write_registers_response_serialize
       read_write_registers_response_type read_write_registers_response_eq read_write_registers_response_ne tid rwr rwr'
   \<and> compared_by_wire write_multiple_coils_response_size write_multiple_coils_response_serialize
       write_multiple_coils_response_type write_multiple_coils_response_eq write_multiple_coils_response_ne tid wcr wcr'
   \<and> compared_by_wire write_multiple_registers_response_size write_multiple_registers_response_serialize
       write_multiple_registers_response_type write_multiple_registers_response_eq write_multiple_registers_response_ne tid wrr wrr'
   \<and> compared_by_wire write_single_coil_response_size write_single_coil_response_serialize
       write_single_coil_response_type write_single_coil_response_eq write_single_coil_response_ne tid scr scr'
   \<and> compared_by_wire write_single_register_response_size write_single_register_response_serialize
       write_single_register_response_type write_single_register_response_eq write_single_register_response_ne tid srr srr'"
  using assms by (intro conjI exception_compared mwr.compared
    rcr.compared
    rdr.compared
    rhr.compared
    rir.compared
    rwr.compared
    wcr.compared
    wrr.compared
    scr.compared
    srr.compared) simp_all

text \<open>C38: on the receive buffer of the client, the parsers of the fixed-size responses stay inside the
  buffer and those of the counted responses read past its end exactly when the count byte is larger
  than the 247 bytes that follow it.\<close>

theorem response_parsers_bounds:
  assumes "length b = MAX_APU_SIZE"
  shows "exception_response_of_iterator (b, TCP_HEADER_SIZE) \<noteq> None
    \<and> mask_write_register_response_of_iterator (b, TCP_HEADER_SIZE) \<noteq> None
    \<and> write_multiple_coils_response_of_iterator (b, TCP_HEADER_SIZE) \<noteq> None
    \<and> write_multiple_registers_response_of_iterator (b, TCP_HEADER_SIZE) \<noteq> None
    \<and> write_single_coil_response_of_iterator (b, TCP_HEADER_SIZE) \<noteq> None
    \<and> write_single_register_response_of_iterator (b, TCP_HEADER_SIZE) \<noteq> None
    \<and> (read_coils_response_of_iterator (b, TCP_HEADER_SIZE) = None \<longleftrightarrow> 247 < unat (b ! 8))
    \<and> (read_discrete_inputs_response_of_iterator (b, TCP_HEADER_SIZE) = None \<longleftrightarrow> 247 < unat (b ! 8))
    \<and> (read_holding_registers_response_of_iterator (b, TCP_HEADER_SIZE) = None \<longleftrightarrow> 247 < unat (b ! 8))
    \<and> (read_input_registers_response_of_iterator (b, TCP_HEADER_SIZE) = None \<longleftrightarrow> 247 < unat (b ! 8))
    \<and> (read_write_registers_response_of_iterator (b, TCP_HEADER_SIZE) = None \<longleftrightarrow> 247 < unat (b ! 8))"
proof -
  have "247 < 2 * (unat n div 2) \<longleftrightarrow> 247 < unat n" for n :: uint8 by presburger
  then show ?thesis
    using assms
    unfolding TCP_HEADER_SIZE_def exr.of_iterator_width mwr.of_iterator_width wcr.of_iterator_width
      wrr.of_iterator_width scr.of_iterator_width srr.of_iterator_width rcr.of_iterator_none
      rdr.of_iterator_none rhr.of_iterator_none rir.of_iterator_none rwr.of_iterator_none
    by (simp add: less_diff_conv2 flip: not_le)
qed

theorem response_parsers_bounds_witness:
  "read_coils_response_of_iterator (replicate 256 (0xFF :: uint8), TCP_HEADER_SIZE) = None
   \<and> write_single_coil_response_of_iterator (replicate 256 (0xFF :: uint8), TCP_HEADER_SIZE) \<noteq> None"
  using response_parsers_bounds [of "replicate 256 0xFF"] by simp

end
