(* ===== verification/Tcp_Client.thy ===== *)
theory Tcp_Client
  imports Modbus_Requests Modbus_Responses
begin

text \<open>
  client/client_config.hpp, client/tcp_client.hpp and client/tcp_client.cpp.

  The connections and their pool come from the cpool library and the sockets below it. Their
  operations are the record \<open>cpool_ops\<close>, an argument of every definition that calls them, over an
  abstract state \<open>'c\<close> of a connection and \<open>'p\<close> of the pool; what a theorem needs of them is a
  hypothesis (\<open>error_contract\<close>, \<open>stream_contract\<close>, \<open>deadline_contract\<close>). A \<open>co_await\<close> is the call itself, as no state of the
  client is shared between requests but the pool and the atomic transaction id.

  A read of \<open>n\<close> bytes returns the error and the bytes it stored at the front of the buffer, so
  \<open>bytes_read\<close> is their number. Log lines are not part of the state, but an argument of a log
  call that can throw (\<open>request.transaction_id()\<close>) is evaluated. An exception is \<open>Inl\<close>; the loop of
  \<open>send_request\<close>, which need not end, is a \<open>partial_function\<close> whose value is \<^const>\<open>None\<close> if it does not.
\<close>

subsection \<open>client_config.hpp\<close>

definition DEFAULT_CLIENT_MAX_CONNECTIONS :: uint16 where
  "DEFAULT_CLIENT_MAX_CONNECTIONS = 1"

text \<open>In milliseconds.\<close>

definition DEFAULT_CONNECT_TIMEOUT :: int where
  "DEFAULT_CONNECT_TIMEOUT = 10 * 1000"

record client_config =
  cc_host :: string
  cc_port :: uint16
  cc_max_connections :: uint16
  cc_connect_timeout :: int
  cc_logging_handler :: logging_handler_t

definition new_client_config :: "string \<Rightarrow> uint16 \<Rightarrow> client_config" where
  "new_client_config h p =
     \<lparr>cc_host = h, cc_port = p, cc_max_connections = DEFAULT_CLIENT_MAX_CONNECTIONS,
      cc_connect_timeout = DEFAULT_CONNECT_TIMEOUT, cc_logging_handler = null_logging_handler\<rparr>"

definition client_config_default :: client_config where
  "client_config_default =
     \<lparr>cc_host = ''127.0.0.1'', cc_port = 502, cc_max_connections = DEFAULT_CLIENT_MAX_CONNECTIONS,
      cc_connect_timeout = DEFAULT_CONNECT_TIMEOUT, cc_logging_handler = null_logging_handler\<rparr>"

definition set_host :: "string \<Rightarrow> client_config \<Rightarrow> client_config" where
  "set_host h c = c\<lparr>cc_host := h\<rparr>"

definition set_port :: "uint16 \<Rightarrow> client_config \<Rightarrow> client_config" where
  "set_port p c = c\<lparr>cc_port := p\<rparr>"

definition set_max_connections :: "uint16 \<Rightarrow> client_config \<Rightarrow> client_config" where
  "set_max_connections n c = c\<lparr>cc_max_connections := n\<rparr>"

definition set_connect_timeout :: "int \<Rightarrow> client_config \<Rightarrow> client_config" where
  "set_connect_timeout t c = c\<lparr>cc_connect_timeout := t\<rparr>"

definition set_logging_handler :: "logging_handler_t \<Rightarrow> client_config \<Rightarrow> client_config" where
  "set_logging_handler f c = c\<lparr>cc_logging_handler := f\<rparr>"

subsection \<open>The interface of the connection library\<close>

text \<open>The ways the client builds a \<open>cpool::error\<close>: without arguments, from one of the modbus error
  codes with or without a message, from a message, and by passing on an error of the socket.\<close>

datatype cpool_error =
    no_error
  | code_error error_code
  | code_message_error error_code string
  | message_error string
  | net_error net_code

record ('p, 'c) cpool_ops =
  get_connection :: "'p \<Rightarrow> 'c option \<times> 'p"
  release_connection :: "'c \<Rightarrow> 'p \<Rightarrow> 'p"
  expires_never :: "'c \<Rightarrow> 'c"
  expires_after :: "int \<Rightarrow> 'c \<Rightarrow> 'c"
  bytes_available :: "'c \<Rightarrow> nat \<times> cpool_error"
  async_read :: "nat \<Rightarrow> 'c \<Rightarrow> (cpool_error \<times> uint8 list) \<times> 'c"
  async_write :: "buffer_t \<Rightarrow> 'c \<Rightarrow> (cpool_error \<times> nat) \<times> 'c"
  err_bool :: "cpool_error \<Rightarrow> bool"
  is_timed_out :: "cpool_error \<Rightarrow> bool"

abbreviation client_error :: "modbus_client_error_code \<Rightarrow> cpool_error" where
  "client_error e \<equiv> code_error (make_client_error_code e)"

text \<open>What \<open>if (error)\<close> and the comparison with \<open>timed_out\<close> mean for the errors the client builds.\<close>

definition error_contract :: "('p, 'c) cpool_ops \<Rightarrow> bool" where
  "error_contract ops \<longleftrightarrow>
     \<not> err_bool ops no_error
     \<and> (\<forall>e. err_bool ops (code_error e) = ec_bool e)
     \<and> (\<forall>e s. err_bool ops (code_message_error e s) = ec_bool e)
     \<and> (\<forall>e. is_timed_out ops e \<longleftrightarrow> e = net_error timed_out)
     \<and> err_bool ops (net_error timed_out)"

text \<open>What TCP promises of reads: with enough bytes received, a read returns the next ones in order.
  \<open>incoming\<close> is the byte sequence received and not yet read.\<close>

definition stream_contract :: "('p, 'c) cpool_ops \<Rightarrow> ('c \<Rightarrow> uint8 list) \<Rightarrow> bool" where
  "stream_contract ops incoming \<longleftrightarrow>
     (\<forall>n c. n \<le> length (incoming c) \<longrightarrow>
        (case async_read ops n c of ((e, bs), c') \<Rightarrow>
           e = no_error \<and> bs = take n (incoming c) \<and> incoming c' = drop n (incoming c)))"

text \<open>What a deadline means: \<open>expires_after\<close> sets one (\<open>deadline\<close> tells whether a connection has one), reads and writes
  keep it, and with a deadline a read that asks for more bytes than are received before it is an
  error. Without a deadline nothing is said of such a read.\<close>

definition deadline_contract :: "('p, 'c) cpool_ops \<Rightarrow> ('c \<Rightarrow> uint8 list) \<Rightarrow> ('c \<Rightarrow> bool) \<Rightarrow> bool" where
  "deadline_contract ops incoming deadline \<longleftrightarrow>
     (\<forall>t c. deadline (expires_after ops t c))
     \<and> (\<forall>b c. deadline c \<longrightarrow> deadline (snd (async_write ops b c)))
     \<and> (\<forall>n c. deadline c \<longrightarrow> deadline (snd (async_read ops n c)))
     \<and> (\<forall>n c. deadline c \<longrightarrow> length (incoming c) < n \<longrightarrow> err_bool ops (fst (fst (async_read ops n c))))"

subsection \<open>Operations on a connection\<close>

definition send_buffer ::
  "('p, 'c) cpool_ops \<Rightarrow> buffer_t \<Rightarrow> 'c \<Rightarrow> cpool_error \<times> 'c" where
  "send_buffer ops buf c =
     (case async_write ops buf c of ((write_error, bytes_written), c) \<Rightarrow>
        if err_bool ops write_error then (write_error, c)
        else if bytes_written \<noteq> length buf
        then (message_error (''tried to write '' @ show_nat (length buf) @ '' bytes, wrote ''
                @ show_nat bytes_written), c)
        else (no_error, c))"

definition read_response ::
  "('p, 'c) cpool_ops \<Rightarrow> 'c \<Rightarrow> (tcp_data_unit \<times> cpool_error) result \<times> 'c" where
  "read_response ops c =
     (let readBuffer = replicate MAX_APU_SIZE 0
      in case async_read ops TCP_HEADER_SIZE c of ((read_error, bs), c) \<Rightarrow>
        let readBuffer = overwrite readBuffer 0 bs
        in if err_bool ops read_error then (Inr (tcp_data_unit_empty, read_error), c)
        else if length bs \<noteq> TCP_HEADER_SIZE
        then (Inr (tcp_data_unit_empty, code_error (make_error_code malformed_message)), c)
        else
          let message_length = 256 * unat (readBuffer ! 4) + unat (readBuffer ! 5)
          in if message_length + TCP_HEADER_SIZE > MAX_APU_SIZE
          then (Inr (tcp_data_unit_empty, client_error invalid_response), c)
          else case async_read ops message_length c of ((read_error, bs), c) \<Rightarrow>
            let readBuffer = overwrite readBuffer TCP_HEADER_SIZE bs
            in if err_bool ops read_error then (Inr (tcp_data_unit_empty, read_error), c)
            else if length bs \<noteq> message_length
            then (Inr (tcp_data_unit_empty,
                    code_message_error (make_client_error_code disconnected)
                      ''failed to read the response''), c)
            else
              (case tcp_data_unit_of_buffer readBuffer (of_nat (length bs + TCP_HEADER_SIZE)) response of
                 Inl e \<Rightarrow> (Inl e, c)
               | Inr du \<Rightarrow> (Inr (du, no_error), c)))"

definition clear_buffer :: "('p, 'c) cpool_ops \<Rightarrow> 'c \<Rightarrow> cpool_error \<times> 'c" where
  "clear_buffer ops c =
     (case bytes_available ops c of (available, err) \<Rightarrow>
        if err_bool ops err then (client_error disconnected, c)
        else if available > 0 then
          (case async_read ops available c of ((error, bs), c) \<Rightarrow>
             if err_bool ops error then (error, c)
             else if length bs \<noteq> available then (client_error disconnected, c)
             else (client_error modbus_client_error_code.success, c))
        else (client_error modbus_client_error_code.success, c))"

definition validate_response :: "tcp_data_unit \<Rightarrow> tcp_data_unit \<Rightarrow> error_code result" where
  "validate_response requestDataUnit responseDataUnit =
     res_bind (function_code responseDataUnit) (\<lambda>functionCode.
     res_bind (transaction_id requestDataUnit) (\<lambda>t1.
     res_bind (transaction_id responseDataUnit) (\<lambda>t2.
     if t1 \<noteq> t2 then Inr (make_client_error_code invalid_response)
     else
     res_bind (function_code requestDataUnit) (\<lambda>f1.
     res_bind (function_code responseDataUnit) (\<lambda>f2.
     if f1 \<noteq> f2 then Inr (make_client_error_code invalid_response)
     else
     res_bind
       (if functionCode = function_code_value write_single_coil
           \<or> functionCode = function_code_value write_single_register
        then res_bind (is_exception responseDataUnit) (\<lambda>ex. Inr (\<not> ex))
        else Inr False) (\<lambda>compare.
     if compare \<and> du_buffer requestDataUnit \<noteq> du_buffer responseDataUnit
     then Inr (make_client_error_code invalid_response)
     else Inr (make_client_error_code modbus_client_error_code.success)))))))"

text \<open>The loop that reads responses until one is not older than the request.\<close>

partial_function (option) response_loop ::
  "('p, 'c) cpool_ops \<Rightarrow> uint16 \<Rightarrow> 'c \<Rightarrow> ((tcp_data_unit \<times> cpool_error) result \<times> 'c) option" where
  "response_loop ops tid c =
     (case read_response ops c of
        (Inl e, c) \<Rightarrow> Some (Inl e, c)
      | (Inr (resp, error), c) \<Rightarrow>
          if err_bool ops error then Some (Inr (resp, error), c)
          else case transaction_id resp of
              Inl e \<Rightarrow> Some (Inl e, c)
            | Inr rid \<Rightarrow>
                if rid < tid then response_loop ops tid c
                else Some (Inr (resp, error), c))"

text \<open>\<open>std::chrono::milliseconds::max()\<close>, the timeout that means none.\<close>

definition milliseconds_max :: int where
  "milliseconds_max = 9223372036854775807"

definition map_timeout ::
  "('p, 'c) cpool_ops \<Rightarrow> (tcp_data_unit \<times> cpool_error) result \<Rightarrow> (tcp_data_unit \<times> cpool_error) result" where
  "map_timeout ops r = (case r of
      Inl e \<Rightarrow> Inl e
    | Inr (resp, error) \<Rightarrow>
        if is_timed_out ops error then Inr (resp, client_error read_timeout)
        else Inr (resp, error))"

definition send_on_connection ::
  "('p, 'c) cpool_ops \<Rightarrow> tcp_data_unit \<Rightarrow> int \<Rightarrow> 'c \<Rightarrow>
   ((tcp_data_unit \<times> cpool_error) result \<times> 'c) option" where
  "send_on_connection ops req timeout c =
     (case clear_buffer ops c of (error, c) \<Rightarrow>
        if err_bool ops error then Some (Inr (tcp_data_unit_empty, error), c)
        else
          let c = (if timeout \<noteq> milliseconds_max then expires_after ops timeout c
                   else expires_never ops c)
          in case transaction_id req of
            Inl e \<Rightarrow> Some (Inl e, c)
          | Inr tid \<Rightarrow>
              (case send_buffer ops (du_buffer req) c of (error, c) \<Rightarrow>
                 if err_bool ops error then
                   if is_timed_out ops error
                   then Some (Inr (tcp_data_unit_empty, client_error write_timeout), c)
                   else Some (Inr (tcp_data_unit_empty, error), c)
                 else map_option (\<lambda>(r, c). (map_timeout ops r, c)) (response_loop ops tid c)))"

text \<open>\<open>defer_release\<close> runs on every way out of \<open>send_request\<close>, exceptions included.\<close>

definition send_request ::
  "('p, 'c) cpool_ops \<Rightarrow> tcp_data_unit \<Rightarrow> int \<Rightarrow> 'p \<Rightarrow>
   ((tcp_data_unit \<times> cpool_error) result \<times> 'p) option" where
  "send_request ops req timeout pool =
     (case get_connection ops pool of
        (None, pool) \<Rightarrow> Some (Inr (tcp_data_unit_empty, client_error stopped), pool)
      | (Some c, pool) \<Rightarrow>
          map_option (\<lambda>(r, c). (r, release_connection ops (expires_never ops c) pool))
            (send_on_connection ops req timeout c))"

subsection \<open>The client object\<close>

text \<open>\<open>new_pool n\<close> is the pool of at most \<open>n\<close> connections the constructor of the library makes.\<close>

record 'p tcp_client =
  tc_config :: client_config
  tc_con_pool :: 'p
  tc_transaction_id :: uint16
  tc_on_log :: logging_handler_t

definition new_tcp_client :: "(uint16 \<Rightarrow> 'p) \<Rightarrow> client_config \<Rightarrow> 'p tcp_client" where
  "new_tcp_client new_pool config =
     \<lparr>tc_config = config, tc_con_pool = new_pool (cc_max_connections config),
      tc_transaction_id = 1, tc_on_log = cc_logging_handler config\<rparr>"

definition set_config :: "(uint16 \<Rightarrow> 'p) \<Rightarrow> client_config \<Rightarrow> 'p tcp_client \<Rightarrow> 'p tcp_client" where
  "set_config new_pool config cl =
     cl\<lparr>tc_config := config, tc_on_log := cc_logging_handler config,
        tc_con_pool := new_pool (cc_max_connections config)\<rparr>"

definition client_config_of :: "'p tcp_client \<Rightarrow> client_config" where
  "client_config_of cl = tc_config cl"

definition reserve_transaction_id :: "'p tcp_client \<Rightarrow> uint16 \<times> 'p tcp_client" where
  "reserve_transaction_id cl =
     (tc_transaction_id cl, cl\<lparr>tc_transaction_id := tc_transaction_id cl + 1\<rparr>)"

definition create_request ::
  "('m \<Rightarrow> nat) \<Rightarrow> ('m \<Rightarrow> buffer_iterator \<Rightarrow> buffer_iterator option) \<Rightarrow> message_type \<Rightarrow> 'm \<Rightarrow>
   'p tcp_client \<Rightarrow> tcp_data_unit option \<times> 'p tcp_client" where
  "create_request size_of serialize ty m cl =
     (case reserve_transaction_id cl of (tid, cl) \<Rightarrow>
        (tcp_data_unit_of_pdu size_of serialize ty tid m, cl))"

definition client_send_request ::
  "('p, 'c) cpool_ops \<Rightarrow> tcp_data_unit \<Rightarrow> int \<Rightarrow> 'p tcp_client \<Rightarrow>
   ((tcp_data_unit \<times> cpool_error) result \<times> 'p tcp_client) option" where
  "client_send_request ops req timeout cl =
     map_option (\<lambda>(r, pool). (r, cl\<lparr>tc_con_pool := pool\<rparr>))
       (send_request ops req timeout (tc_con_pool cl))"

text \<open>\<open>connection_ctor\<close> makes a connection to the host and port of the configuration
  (\<open>new_connection\<close>), with \<open>on_connection_state_change\<close> as its handler.\<close>

definition connection_ctor :: "(string \<Rightarrow> uint16 \<Rightarrow> 'c) \<Rightarrow> 'p tcp_client \<Rightarrow> 'c" where
  "connection_ctor new_connection cl =
     new_connection (cc_host (tc_config cl)) (cc_port (tc_config cl))"

datatype client_connection_state =
    cs_disconnected | cs_resolving | cs_connecting | cs_connected | cs_disconnecting
  | cs_other nat

text \<open>The handler logs one line and returns no error; the result is the text logged.\<close>

definition on_connection_state_change ::
  "'p tcp_client \<Rightarrow> string \<Rightarrow> uint16 \<Rightarrow> client_connection_state \<Rightarrow> string \<times> cpool_error" where
  "on_connection_state_change cl host port st =
     (let hp = host @ '':'' @ show_nat (unat port) in
      (case st of
         cs_disconnected \<Rightarrow> tc_on_log cl log_info (''disconnected from '' @ hp)
       | cs_resolving \<Rightarrow> tc_on_log cl log_info (''resolving '' @ host)
       | cs_connecting \<Rightarrow> tc_on_log cl log_info (''connecting to '' @ hp)
       | cs_connected \<Rightarrow> tc_on_log cl log_info (''connected to '' @ hp)
       | cs_disconnecting \<Rightarrow> tc_on_log cl log_info (''disconnecting from '' @ hp)
       | cs_other n \<Rightarrow> tc_on_log cl log_warn (''unknown client_connection_state: '' @ show_nat n),
       no_error))"

subsection \<open>Frames on the stream\<close>

text \<open>A response on the wire: the header and \<open>xs\<close>, unit id and PDU.\<close>

definition frame :: "uint16 \<Rightarrow> uint8 list \<Rightarrow> uint8 list" where
  "frame tid xs = mbap tid (length xs) @ xs"

text \<open>The data unit \<open>read_response\<close> makes of a frame: the whole read buffer, padded with zeros.\<close>

definition padded_unit :: "uint16 \<Rightarrow> uint8 list \<Rightarrow> tcp_data_unit" where
  "padded_unit tid xs =
     \<lparr>m_buffer = frame tid xs @ replicate (MAX_APU_SIZE - TCP_HEADER_SIZE - length xs) 0,
      m_type = response\<rparr>"

text \<open>The id of the \<open>k\<close>-th reservation of a new client, counted from 0.\<close>

definition nth_transaction_id :: "(uint16 \<Rightarrow> 'p) \<Rightarrow> client_config \<Rightarrow> nat \<Rightarrow> uint16" where
  "nth_transaction_id new_pool config k =
     fst (reserve_transaction_id
       (((snd \<circ> reserve_transaction_id) ^^ k) (new_tcp_client new_pool config)))"

lemma length_frame [simp]: "length (frame tid xs) = 6 + length xs"
  by (simp add: frame_def)

lemma stream_read:
  assumes "stream_contract ops incoming" "incoming c = xs @ ys"
  obtains c' where "async_read ops (length xs) c = ((no_error, xs), c')" "incoming c' = ys"
proof -
  have "length xs \<le> length (incoming c)" using assms(2) by simp
  then have "case async_read ops (length xs) c of ((e, bs), c') \<Rightarrow>
      e = no_error \<and> bs = take (length xs) (incoming c) \<and> incoming c' = drop (length xs) (incoming c)"
    by (rule assms(1) [unfolded stream_contract_def, rule_format])
  then show ?thesis
    using that assms(2) by (cases "async_read ops (length xs) c") (auto split: prod.splits)
qed

lemma header_length_field:
  assumes "length h = 6" "length h \<le> length b"
  shows "overwrite b 0 h ! 4 = h ! 4" "overwrite b 0 h ! 5 = h ! 5"
  using assms by (simp_all add: overwrite_def nth_append)

lemma length_field_mbap:
  "n < 65536 \<Longrightarrow> 256 * unat (hi8 (of_nat n)) + unat (lo8 (of_nat n)) = n"
  using unat_be16 [of "hi8 (of_nat n)" "lo8 (of_nat n)"] by (simp add: unat_of_nat)

lemma mbap_header_nth:
  "mbap tid n ! 4 = hi8 (of_nat n)" "mbap tid n ! 5 = lo8 (of_nat n)"
  using mbap_nth(3,4) [of tid n "[]"] by simp_all

lemma overwrite_twice:
  assumes "length h + length xs \<le> n"
  shows "overwrite (overwrite (replicate n 0) 0 h) (length h) xs =
    h @ xs @ replicate (n - length h - length xs) 0"
  using assms by (simp add: overwrite_def)

lemma read_response_frame:
  assumes "stream_contract ops incoming" "error_contract ops"
    and "incoming c = frame tid xs @ rest" "xs \<noteq> []" "length xs \<le> 250"
  shows "\<exists>c'. read_response ops c = (Inr (padded_unit tid xs, no_error), c') \<and> incoming c' = rest"
proof -
  have ne: "\<not> err_bool ops no_error" using assms(2) by (simp add: error_contract_def)
  have in1: "incoming c = mbap tid (length xs) @ xs @ rest" using assms(3) by (simp add: frame_def)
  obtain c1 where c1: "async_read ops 6 c = ((no_error, mbap tid (length xs)), c1)"
      "incoming c1 = xs @ rest"
    using stream_read [OF assms(1) in1] by (metis length_mbap)
  obtain c2 where c2: "async_read ops (length xs) c1 = ((no_error, xs), c2)" "incoming c2 = rest"
    using stream_read [OF assms(1) c1(2)] by blast
  let ?h = "mbap tid (length xs)" and ?b = "replicate 256 0 :: uint8 list"
  have nth: "overwrite ?b 0 ?h ! 4 = hi8 (of_nat (length xs))"
      "overwrite ?b 0 ?h ! 5 = lo8 (of_nat (length xs))"
    using header_length_field [of ?h ?b] by (simp_all add: mbap_header_nth)
  have buf: "overwrite (overwrite ?b 0 ?h) 6 xs = m_buffer (padded_unit tid xs)"
    using overwrite_twice [of ?h xs 256] assms(5) by (simp add: padded_unit_def frame_def)
  have du: "tcp_data_unit_of_buffer (m_buffer (padded_unit tid xs)) (of_nat (length xs + 6)) response =
      Inr (padded_unit tid xs)"
    using of_buffer_mbap [of "length xs" tid "xs @ replicate (250 - length xs) 0" response] assms(4,5)
    by (simp add: padded_unit_def frame_def add.commute)
  have "256 * unat (hi8 (of_nat (length xs))) + unat (lo8 (of_nat (length xs))) = length xs"
    using assms(5) by (simp add: length_field_mbap)
  then have "read_response ops c = (Inr (padded_unit tid xs, no_error), c2)"
    unfolding read_response_def Let_def MAX_APU_SIZE_def TCP_HEADER_SIZE_def c1(1)
    using ne assms(5) du by (simp add: nth c2(1) buf)
  then show ?thesis using c2(2) by blast
qed

lemma padded_unit_accessors [simp]:
  "transaction_id (padded_unit tid xs) = Inr tid"
  "length (du_buffer (padded_unit tid xs)) = 6 + length xs + (250 - length xs)"
  by (simp_all add: padded_unit_def frame_def du_buffer_def)

context pdu_message
begin

text \<open>A response of the class travels through the stream and out of the data unit \<open>read_response\<close> makes.\<close>

lemma read_response_pdu:
  assumes "stream_contract ops incoming" "error_contract ops" "wf m" "size_of m \<le> 250"
    and "tcp_data_unit_of_pdu size_of serialize response tid m = Some du"
    and "incoming c = du_buffer du @ rest"
  shows "\<exists>c'. read_response ops c = (Inr (padded_unit tid (encode m), no_error), c') \<and> incoming c' = rest
    \<and> pdu fcode response of_iterator (padded_unit tid (encode m)) = Inr (Some m)"
proof -
  have du: "du = \<lparr>m_buffer = frame tid (encode m), m_type = response\<rparr>"
    using assms(5) by (simp add: tcp_data_unit_of_pdu_image frame_def length_encode)
  have "encode m \<noteq> []" using size_min [of m] length_encode [of m] by auto
  then obtain c' where "read_response ops c = (Inr (padded_unit tid (encode m), no_error), c')" "incoming c' = rest"
    using read_response_frame [OF assms(1,2), of c tid "encode m" rest] assms(4,6) du
    by (auto simp: du_buffer_def length_encode)
  moreover have "pdu fcode response of_iterator (padded_unit tid (encode m)) = Inr (Some m)"
    using pdu_received [OF assms(3)] by (simp add: padded_unit_def frame_def length_encode)
  ultimately show ?thesis by blast
qed

end

subsection \<open>A simulated connection\<close>

text \<open>A connection for concrete runs: the bytes received so far and the bytes the peer sends in answer
  to the next write. A read that asks for more than there is times out, as with a deadline.\<close>

type_synonym sim_connection = "uint8 list \<times> uint8 list"

definition sim_ops :: "(sim_connection option, sim_connection) cpool_ops" where
  "sim_ops =
     \<lparr>get_connection = (\<lambda>p. (p, None)),
      release_connection = (\<lambda>c p. Some c),
      expires_never = (\<lambda>c. c),
      expires_after = (\<lambda>t c. c),
      bytes_available = (\<lambda>c. (length (fst c), no_error)),
      async_read = (\<lambda>n c. if n \<le> length (fst c) then ((no_error, take n (fst c)), (drop n (fst c), snd c))
                          else ((net_error timed_out, []), c)),
      async_write = (\<lambda>b c. ((no_error, length b), (fst c @ snd c, []))),
      err_bool = (\<lambda>e. case e of no_error \<Rightarrow> False | code_error e \<Rightarrow> ec_bool e
                     | code_message_error e _ \<Rightarrow> ec_bool e | _ \<Rightarrow> True),
      is_timed_out = (\<lambda>e. e = net_error timed_out)\<rparr>"

lemma sim_ops_fields:
  "get_connection sim_ops p = (p, None)" "release_connection sim_ops c p = Some c"
  "expires_never sim_ops c = c" "expires_after sim_ops t c = c"
  "bytes_available sim_ops c = (length (fst c), no_error)"
  "async_write sim_ops b c = ((no_error, length b), (fst c @ snd c, []))"
  "\<not> err_bool sim_ops no_error" "err_bool sim_ops (code_error e) = ec_bool e"
  "is_timed_out sim_ops err \<longleftrightarrow> err = net_error timed_out"
  by (simp_all add: sim_ops_def)

lemma sim_error_contract: "error_contract sim_ops"
  by (simp add: error_contract_def sim_ops_def)

lemma sim_stream_contract: "stream_contract sim_ops fst"
  by (simp add: stream_contract_def sim_ops_def)

lemma sim_deadline: "deadline_contract sim_ops fst (\<lambda>_. True)"
  by (simp add: deadline_contract_def sim_ops_def)

subsection \<open>Lemmas on the request loop\<close>

lemma error_contract_simps:
  assumes "error_contract ops"
  shows "\<not> err_bool ops no_error" "err_bool ops (code_error e) = ec_bool e"
    "is_timed_out ops err \<longleftrightarrow> err = net_error timed_out" "err_bool ops (net_error timed_out)"
  using assms by (simp_all add: error_contract_def)

lemma response_loop_frames:
  assumes "stream_contract ops incoming" "error_contract ops"
    and "\<forall>(t, xs) \<in> set stale. t < tid \<and> xs \<noteq> [] \<and> length xs \<le> 250"
    and "tid \<le> t" "xs \<noteq> []" "length xs \<le> 250"
    and "incoming c = concat (map (\<lambda>(t, xs). frame t xs) stale) @ frame t xs @ rest"
  shows "\<exists>c'. response_loop ops tid c = Some (Inr (padded_unit t xs, no_error), c') \<and> incoming c' = rest"
  using assms(3,7)
proof (induction stale arbitrary: c)
  case Nil
  then obtain c' where "read_response ops c = (Inr (padded_unit t xs, no_error), c')" "incoming c' = rest"
    using read_response_frame [OF assms(1,2) _ assms(5,6), of c t rest] by auto
  with assms(2,4) show ?case
    by (subst response_loop.simps) (simp add: error_contract_simps not_less leD)
next
  case (Cons f stale)
  obtain t' ys where f: "f = (t', ys)" by (cases f)
  let ?rest = "concat (map (\<lambda>(t, xs). frame t xs) stale) @ frame t xs @ rest"
  have "incoming c = frame t' ys @ ?rest" "ys \<noteq> []" "length ys \<le> 250" "t' < tid"
    using Cons.prems f by auto
  then obtain c1 where c1: "read_response ops c = (Inr (padded_unit t' ys, no_error), c1)" "incoming c1 = ?rest"
    using read_response_frame [OF assms(1,2), of c t' ys ?rest] by blast
  have "response_loop ops tid c = response_loop ops tid c1"
    using c1(1) assms(2) \<open>t' < tid\<close>
    by (subst response_loop.simps) (simp add: error_contract_simps)
  with Cons.IH [of c1] Cons.prems(1) c1(2) show ?case by auto
qed

lemma send_buffer_all:
  assumes "error_contract ops" "async_write ops b c = ((no_error, length b), c')"
  shows "send_buffer ops b c = (no_error, c')"
  using assms by (simp add: send_buffer_def error_contract_simps)

lemma response_loop_not_older:
  fixes ops :: "('p, 'c) cpool_ops"
  assumes "response_loop ops tid c = Some (Inr (du, e), c')" "\<not> err_bool ops e"
  shows "\<exists>rid. transaction_id du = Inr rid \<and> tid \<le> rid"
proof -
  let ?P = "\<lambda>(ops :: ('p, 'c) cpool_ops) tid (c :: 'c) (out :: (tcp_data_unit \<times> cpool_error) result \<times> 'c). \<forall>du e c'. out = (Inr (du, e), c') \<longrightarrow> \<not> err_bool ops e \<longrightarrow>
      (\<exists>rid. transaction_id du = Inr rid \<and> tid \<le> rid)"
  have "?P ops tid c (Inr (du, e), c')"
  proof (rule response_loop.raw_induct [where P = ?P, OF _ assms(1)])
    fix loop and ops :: "('p, 'c) cpool_ops" and tid c out
    assume IH: "\<And>ops tid c out. loop ops tid c = Some out \<Longrightarrow> ?P ops tid c out"
      and step: "(case read_response ops c of
        (Inl e, c) \<Rightarrow> Some (Inl e, c)
      | (Inr (resp, error), c) \<Rightarrow>
          if err_bool ops error then Some (Inr (resp, error), c)
          else case transaction_id resp of
              Inl e \<Rightarrow> Some (Inl e, c)
            | Inr rid \<Rightarrow>
                if rid < tid then loop ops tid c else Some (Inr (resp, error), c)) = Some out"
    show "?P ops tid c out"
      using step IH by (auto split: prod.splits sum.splits if_splits simp: not_less)
  qed
  with assms(2) show ?thesis by blast
qed

lemma read_response_keeps:
  assumes "\<And>n c. obs (snd (async_read ops n c)) = obs c" "read_response ops c = (r, c')"
  shows "obs c' = obs c"
proof -
  obtain e1 bs1 c1 where 1: "async_read ops 6 c = ((e1, bs1), c1)" by (metis prod.collapse)
  let ?b = "overwrite (replicate MAX_APU_SIZE 0) 0 bs1"
  let ?n = "256 * unat (?b ! 4) + unat (?b ! 5)"
  obtain e2 bs2 c2 where 2: "async_read ops ?n c1 = ((e2, bs2), c2)" by (metis prod.collapse)
  have "obs c1 = obs c" "obs c2 = obs c1" using assms(1) [of 6 c] assms(1) [of ?n c1] 1 2 by simp_all
  moreover have "c' = c1 \<or> c' = c2"
    using assms(2) 1 2 by (auto simp: read_response_def Let_def split: if_splits sum.splits)
  ultimately show ?thesis by auto
qed

text \<open>The loop does to a connection only what its reads do.\<close>

lemma response_loop_keeps:
  fixes ops :: "('p, 'c) cpool_ops" and obs :: "'c \<Rightarrow> 'o"
  assumes "response_loop ops tid c = Some (r, c')" "\<And>n c. obs (snd (async_read ops n c)) = obs c"
  shows "obs c' = obs c"
proof -
  let ?P = "\<lambda>(ops :: ('p, 'c) cpool_ops) tid (c :: 'c) (out :: (tcp_data_unit \<times> cpool_error) result \<times> 'c).
      (\<forall>n c. obs (snd (async_read ops n c)) = obs c) \<longrightarrow> obs (snd out) = obs c"
  have "?P ops tid c (r, c')"
  proof (rule response_loop.raw_induct [where P = ?P, OF _ assms(1)])
    fix loop and ops :: "('p, 'c) cpool_ops" and tid c out
    assume IH: "\<And>ops tid c out. loop ops tid c = Some out \<Longrightarrow> ?P ops tid c out"
      and step: "(case read_response ops c of
        (Inl e, c) \<Rightarrow> Some (Inl e, c)
      | (Inr (resp, error), c) \<Rightarrow>
          if err_bool ops error then Some (Inr (resp, error), c)
          else case transaction_id resp of
              Inl e \<Rightarrow> Some (Inl e, c)
            | Inr rid \<Rightarrow>
                if rid < tid then loop ops tid c else Some (Inr (resp, error), c)) = Some out"
    show "?P ops tid c out"
    proof
      assume keep: "\<forall>n c. obs (snd (async_read ops n c)) = obs c"
      obtain r1 c1 where r1: "read_response ops c = (r1, c1)" by (metis prod.collapse)
      have "obs c1 = obs c" using read_response_keeps [of obs ops, OF _ r1] keep by simp
      then show "obs (snd out) = obs c"
        using step keep IH [of ops tid c1 out] unfolding r1
        by (simp split: sum.splits prod.splits if_splits) auto
    qed
  qed
  with assms(2) show ?thesis by simp
qed

lemma stream_read_cases:
  assumes "stream_contract ops incoming" "deadline_contract ops incoming deadline" "deadline c"
    and "async_read ops n c = ((e, bs), c')" "\<not> err_bool ops e"
  shows "n \<le> length (incoming c) \<and> bs = take n (incoming c) \<and> incoming c' = drop n (incoming c)"
proof -
  have n: "n \<le> length (incoming c)"
    using assms(2-5) unfolding deadline_contract_def by (metis fst_conv not_less)
  with assms(1,4) show ?thesis unfolding stream_contract_def by fastforce
qed

lemma deadline_reads: "deadline_contract ops incoming deadline \<Longrightarrow> deadline c \<Longrightarrow> deadline (snd (async_read ops n c))"
  by (simp add: deadline_contract_def)

lemma read_response_consumes:
  assumes "stream_contract ops incoming" "deadline_contract ops incoming deadline" "error_contract ops" "deadline c"
    and "read_response ops c = (Inr (du, e), c')" "\<not> err_bool ops e"
  shows "length (incoming c') + 6 \<le> length (incoming c) \<and> deadline c'"
proof -
  obtain e1 bs1 c1 where 1: "async_read ops 6 c = ((e1, bs1), c1)" by (metis prod.collapse)
  let ?b = "overwrite (replicate MAX_APU_SIZE 0) 0 bs1"
  let ?n = "256 * unat (?b ! 4) + unat (?b ! 5)"
  obtain e2 bs2 c2 where 2: "async_read ops ?n c1 = ((e2, bs2), c2)" by (metis prod.collapse)
  have d: "deadline c1" "deadline c2"
    using deadline_reads [OF assms(2,4), of 6] deadline_reads [OF assms(2), of c1 ?n] 1 2 by simp_all
  have bad: "err_bool ops (client_error invalid_response)" "err_bool ops (code_error (make_error_code malformed_message))"
    "err_bool ops (code_message_error (make_client_error_code disconnected) ''failed to read the response'')"
    using assms(3) by (simp_all add: error_contract_def)
  have "\<not> err_bool ops e1 \<and> \<not> err_bool ops e2 \<and> c' = c2"
    using assms(5,6) 1 2 bad
    by (auto simp: read_response_def Let_def split: if_splits sum.splits)
  with stream_read_cases [OF assms(1,2,4) 1] stream_read_cases [OF assms(1,2) d(1) 2] d(2) show ?thesis by auto
qed

lemma response_loop_returns:
  assumes "stream_contract ops incoming" "deadline_contract ops incoming deadline" "error_contract ops" "deadline c"
  shows "\<exists>r. response_loop ops tid c = Some r"
  using assms(4)
proof (induction "length (incoming c)" arbitrary: c rule: less_induct)
  case less
  obtain r c' where r: "read_response ops c = (r, c')" by (metis prod.collapse)
  have "\<exists>r. response_loop ops tid c' = Some r" if "r = Inr (du, e)" "\<not> err_bool ops e" for du e
    using read_response_consumes [OF assms(1-3) less.prems, of du e c'] r that by (intro less.hyps) simp_all
  then show ?case
    by (subst response_loop.simps) (auto simp: r split: sum.splits prod.splits)
qed

lemma send_request_cases:
  assumes "send_request ops req timeout pool = Some (r, pool')"
  shows "(\<exists>p. get_connection ops pool = (None, p) \<and> pool' = p)
    \<or> (\<exists>c p c'. get_connection ops pool = (Some c, p)
        \<and> send_on_connection ops req timeout c = Some (r, c')
        \<and> pool' = release_connection ops (expires_never ops c') p)"
  using assms by (auto simp: send_request_def split: prod.splits option.splits)

subsection \<open>Properties\<close>

lemma reserved_state:
  "((snd \<circ> reserve_transaction_id) ^^ k) cl = cl\<lparr>tc_transaction_id := tc_transaction_id cl + of_nat k\<rparr>"
  by (induction k) (simp_all add: reserve_transaction_id_def add.commute add.left_commute)

lemma of_nat_uint16_eq: "(of_nat i :: uint16) = of_nat j \<longleftrightarrow> i mod 65536 = j mod 65536"
  using word_of_nat_eq_iff [of i j, where ?'a = 16] by (simp add: take_bit_eq_mod)

text \<open>The transaction ids a client reserves count up from 1 and wrap at \<open>2 ^ 16\<close>: two reservations
  get the same id exactly when they are a multiple of 65536 reservations apart.\<close>

lemma transaction_ids_count:
  "nth_transaction_id new_pool config k = of_nat (1 + k)
   \<and> (nth_transaction_id new_pool config i = nth_transaction_id new_pool config j
       \<longleftrightarrow> i mod 65536 = j mod 65536)"
proof -
  have "nth_transaction_id new_pool config k = 1 + of_nat k" for k
    unfolding nth_transaction_id_def reserved_state
    by (simp add: reserve_transaction_id_def new_tcp_client_def)
  then show ?thesis by (simp add: of_nat_uint16_eq)
qed

text \<open>C23: \<open>read_response\<close> takes exactly one response off the stream: for a response of up to 250 bytes
  it returns its bytes, with its transaction id and length, and leaves what follows.\<close>

theorem read_response_reads_one:
  assumes "stream_contract ops incoming" "error_contract ops"
    and "incoming c = frame tid xs @ rest" "xs \<noteq> []" "length xs \<le> 250"
  shows "\<exists>du c'. read_response ops c = (Inr (du, no_error), c') \<and> incoming c' = rest
    \<and> take (6 + length xs) (du_buffer du) = frame tid xs \<and> length (du_buffer du) = MAX_APU_SIZE
    \<and> transaction_id du = Inr tid \<and> message_length du = Inr (of_nat (length xs))
    \<and> du_type du = response"
proof -
  obtain c' where "read_response ops c = (Inr (padded_unit tid xs, no_error), c')" "incoming c' = rest"
    using read_response_frame [OF assms] by blast
  then show ?thesis using assms(5)
    by (simp add: padded_unit_def frame_def du_buffer_def du_type_def)
qed

theorem read_response_reads_one_witness:
  "\<exists>du c'. read_response sim_ops (frame 7 [1, 0x83, 2] @ [9, 9], []) = (Inr (du, no_error), c')
    \<and> fst c' = [9, 9] \<and> take (6 + length [1, 0x83, 2 :: uint8]) (du_buffer du) = frame 7 [1, 0x83, 2]
    \<and> length (du_buffer du) = MAX_APU_SIZE
    \<and> transaction_id du = Inr 7 \<and> message_length du = Inr (of_nat (length [1, 0x83, 2 :: uint8]))
    \<and> du_type du = response"
  by (rule read_response_reads_one [OF sim_stream_contract sim_error_contract]) simp_all

text \<open>A response of more than 250 bytes after the header is refused. The MODBUS standard allows
  253, so the answer to a read of 124 or 125 holding registers never reaches the caller.\<close>

lemma long_response_refused:
  assumes "stream_contract ops incoming" "error_contract ops"
    and "124 \<le> length ws" "length ws \<le> 127"
    and "tcp_data_unit_of_pdu read_holding_registers_response_size
        read_holding_registers_response_serialize read_holding_registers_response_type tid
        (new_read_holding_registers_response_words u ws) = Some du"
    and "incoming c = du_buffer du @ rest"
  shows "\<exists>c'. read_response ops c = (Inr (tcp_data_unit_empty, client_error invalid_response), c')"
proof -
  let ?m = "new_read_holding_registers_response_words u ws"
  let ?n = "read_holding_registers_response_size ?m"
  have n: "?n = 3 + 2 * length ws"
    by (simp add: read_holding_registers_response_size_def new_read_holding_registers_response_words_def
        read_holding_registers_response.defs emplace_words_enc)
  have ne: "\<not> err_bool ops no_error" using assms(2) by (rule error_contract_simps)
  have "du_buffer du = mbap tid ?n @ read_holding_registers_response_encode ?m"
    using assms(5) by (auto simp: rhr.tcp_data_unit_of_pdu_image du_buffer_def)
  then have "incoming c = mbap tid ?n @ read_holding_registers_response_encode ?m @ rest"
    using assms(6) by simp
  then obtain c1 where c1: "async_read ops 6 c = ((no_error, mbap tid ?n), c1)"
    using stream_read [OF assms(1)] by (metis length_mbap)
  let ?b = "replicate 256 0 :: uint8 list"
  have "overwrite ?b 0 (mbap tid ?n) ! 4 = hi8 (of_nat ?n)"
    "overwrite ?b 0 (mbap tid ?n) ! 5 = lo8 (of_nat ?n)"
    using header_length_field [of "mbap tid ?n" ?b] by (simp_all add: mbap_header_nth)
  moreover have "256 * unat (hi8 (of_nat ?n)) + unat (lo8 (of_nat ?n)) = ?n"
    using assms(4) n by (intro length_field_mbap) simp
  ultimately have "read_response ops c = (Inr (tcp_data_unit_empty, client_error invalid_response), c1)"
    unfolding read_response_def Let_def MAX_APU_SIZE_def TCP_HEADER_SIZE_def c1(1)
    using ne assms(3) by (simp add: n)
  then show ?thesis by blast
qed

text \<open>A response whose length field is zero makes \<open>read_response\<close> throw \<open>std::out_of_range\<close> instead
  of returning an error.\<close>

lemma empty_response_throws:
  assumes "stream_contract ops incoming" "error_contract ops" "incoming c = mbap tid 0 @ rest"
  shows "\<exists>c'. read_response ops c = (Inl out_of_range, c')"
proof -
  have ne: "\<not> err_bool ops no_error" using assms(2) by (rule error_contract_simps)
  obtain c1 where c1: "async_read ops 6 c = ((no_error, mbap tid 0), c1)" "incoming c1 = [] @ rest"
    using stream_read [OF assms(1,3)] by (metis length_mbap append_Nil)
  obtain c2 where c2: "async_read ops 0 c1 = ((no_error, []), c2)"
    using stream_read [OF assms(1) c1(2)] by (metis list.size(3))
  let ?b = "replicate 256 0 :: uint8 list"
  have "overwrite ?b 0 (mbap tid 0) ! 4 = 0" "overwrite ?b 0 (mbap tid 0) ! 5 = 0"
    using header_length_field [of "mbap tid 0" ?b] by (simp_all add: mbap_header_nth hi8_def lo8_def)
  then have "read_response ops c = (Inl out_of_range, c2)"
    unfolding read_response_def Let_def MAX_APU_SIZE_def TCP_HEADER_SIZE_def c1(1)
    using ne c2 by (simp add: tcp_data_unit_of_buffer_def vec_at_def res_bind_def)
  then show ?thesis by blast
qed

lemma send_request_frames:
  assumes "stream_contract ops incoming" "error_contract ops"
    and "get_connection ops pool = (Some c, pool1)" "transaction_id req = Inr tid"
    and "clear_buffer ops c = (client_error modbus_client_error_code.success, c0)"
    and "async_write ops (du_buffer req)
        (if timeout \<noteq> milliseconds_max then expires_after ops timeout c0 else expires_never ops c0) =
      ((no_error, length (du_buffer req)), c1)"
    and "\<forall>(t, xs) \<in> set stale. t < tid \<and> xs \<noteq> [] \<and> length xs \<le> 250"
    and "tid \<le> t" "xs \<noteq> []" "length xs \<le> 250"
    and "incoming c1 = concat (map (\<lambda>(t, xs). frame t xs) stale) @ frame t xs @ rest"
  shows "\<exists>c'. send_request ops req timeout pool =
      Some (Inr (padded_unit t xs, no_error), release_connection ops (expires_never ops c') pool1)
    \<and> incoming c' = rest \<and> response_loop ops tid c1 = Some (Inr (padded_unit t xs, no_error), c')"
proof -
  obtain c' where c': "response_loop ops tid c1 = Some (Inr (padded_unit t xs, no_error), c')"
      "incoming c' = rest"
    using response_loop_frames [OF assms(1,2,7-11)] by blast
  have "send_on_connection ops req timeout c = Some (Inr (padded_unit t xs, no_error), c')"
    using assms(4,5) send_buffer_all [OF assms(2,6)] assms(2) c'(1)
    by (simp add: send_on_connection_def Let_def error_contract_simps map_timeout_def)
  then show ?thesis using assms(3) c' by (auto simp: send_request_def)
qed

text \<open>C8: \<open>send_request\<close> returns the answer and not an older one. When the buffer can be cleared and the
  request written, and the stream then holds any number of older responses followed by one whose
  transaction id is not below the request's, the call ends, returns that response without an error and
  gives the connection back with the rest of the stream unread.\<close>

theorem send_request_skips_older:
  assumes "stream_contract ops incoming" "error_contract ops"
    and "get_connection ops pool = (Some c, pool1)" "transaction_id req = Inr tid"
    and "clear_buffer ops c = (client_error modbus_client_error_code.success, c0)"
    and "async_write ops (du_buffer req)
        (if timeout \<noteq> milliseconds_max then expires_after ops timeout c0 else expires_never ops c0) =
      ((no_error, length (du_buffer req)), c1)"
    and "\<forall>(t, xs) \<in> set stale. t < tid \<and> xs \<noteq> [] \<and> length xs \<le> 250"
    and "tid \<le> t" "xs \<noteq> []" "length xs \<le> 250"
    and "incoming c1 = concat (map (\<lambda>(t, xs). frame t xs) stale) @ frame t xs @ rest"
  shows "\<exists>c'. send_request ops req timeout pool =
      Some (Inr (padded_unit t xs, no_error), release_connection ops (expires_never ops c') pool1)
    \<and> incoming c' = rest"
  using send_request_frames [OF assms] by blast

theorem send_request_skips_older_witness:
  "\<exists>c'. send_request sim_ops \<lparr>m_buffer = frame 7 [1, 3, 0, 0, 0, 1], m_type = request\<rparr> 100
      (Some ([0, 0, 0], frame 5 [1, 0x83, 2] @ frame 7 [1, 3, 2, 0xAB, 0xCD] @ [9])) =
    Some (Inr (padded_unit 7 [1, 3, 2, 0xAB, 0xCD], no_error),
      release_connection sim_ops (expires_never sim_ops c') None)
    \<and> fst c' = [9]"
proof (rule send_request_skips_older [OF sim_stream_contract sim_error_contract, where stale = "[(5, [1, 0x83, 2])]"])
  let ?req = "\<lparr>m_buffer = frame 7 [1, 3, 0, 0, 0, 1], m_type = request\<rparr>"
  let ?answer = "frame 5 [1, 0x83, 2] @ frame 7 [1, 3, 2, 0xAB, 0xCD] @ [9]"
  show "get_connection sim_ops (Some ([0, 0, 0], ?answer)) = (Some ([0, 0, 0], ?answer), None)"
    by (simp add: sim_ops_def)
  show "transaction_id ?req = Inr 7" by (simp add: frame_def)
  show "clear_buffer sim_ops ([0, 0, 0], ?answer) =
      (client_error modbus_client_error_code.success, [], ?answer)"
    by (simp add: clear_buffer_def sim_ops_def)
  show "async_write sim_ops (du_buffer ?req) (if (100 :: int) \<noteq> milliseconds_max
      then expires_after sim_ops 100 ([], ?answer) else expires_never sim_ops ([], ?answer)) =
      ((no_error, length (du_buffer ?req)), ?answer, [])"
    by (simp add: sim_ops_def)
qed simp_all

lemma map_timeout_success:
  assumes "error_contract ops" "map_timeout ops r = Inr (du, e)" "\<not> err_bool ops e"
  shows "r = Inr (du, e)"
  using assms
  by (auto simp: map_timeout_def error_contract_simps split: sum.splits prod.splits if_splits)

lemma send_on_connection_success:
  assumes "error_contract ops" "send_on_connection ops req timeout c = Some (Inr (du, e), c')"
    and "\<not> err_bool ops e" "transaction_id req = Inr tid"
  shows "\<exists>c1. response_loop ops tid c1 = Some (Inr (du, e), c')"
proof -
  obtain e0 c0 where c0: "clear_buffer ops c = (e0, c0)" by fastforce
  obtain e1 c1 where c1: "send_buffer ops (du_buffer req)
      (if timeout \<noteq> milliseconds_max then expires_after ops timeout c0 else expires_never ops c0) = (e1, c1)"
    by fastforce
  from assms c0 c1 have
    "map_option (\<lambda>(r, c). (map_timeout ops r, c)) (response_loop ops tid c1) = Some (Inr (du, e), c')"
    by (simp add: send_on_connection_def error_contract_simps Let_def split: if_splits)
      (auto simp: error_contract_simps)
  then show ?thesis using map_timeout_success [OF assms(1) _ assms(3)] by auto
qed

text \<open>Whatever the peer sends, a response that \<open>send_request\<close> returns without an error has a
  transaction id that is not below the request's.\<close>

lemma send_request_never_older:
  assumes "error_contract ops" "send_request ops req timeout pool = Some (Inr (du, e), pool')"
    and "\<not> err_bool ops e" "transaction_id req = Inr tid"
  shows "\<exists>rid. transaction_id du = Inr rid \<and> tid \<le> rid"
proof -
  from send_request_cases [OF assms(2)] show ?thesis
  proof (elim disjE exE conjE)
    fix p assume "get_connection ops pool = (None, p)"
    with assms(1-3) show ?thesis by (auto simp: send_request_def error_contract_simps)
  next
    fix c c' assume "send_on_connection ops req timeout c = Some (Inr (du, e), c')"
    then obtain c1 where "response_loop ops tid c1 = Some (Inr (du, e), c')"
      using send_on_connection_success [OF assms(1) _ assms(3,4)] by blast
    then show ?thesis using assms(3) by (rule response_loop_not_older)
  qed
qed

text \<open>C9: with a timeout, \<open>send_request\<close> returns. Whatever the peer sends before the deadline, and whatever the
  writes do, the loop over older responses ends, as every round takes at least a header off the stream and with a
  deadline a read beyond what was received is an error; and what is returned is an exception, an
  error, or a response whose transaction id is not below the request's. (Without a timeout the client sets no deadline,
  and waits for a silent peer forever.)\<close>

theorem send_request_returns:
  assumes "stream_contract ops incoming" "deadline_contract ops incoming deadline" "error_contract ops"
    and "timeout \<noteq> milliseconds_max" "transaction_id req = Inr tid"
  shows "\<exists>r pool'. send_request ops req timeout pool = Some (r, pool')
    \<and> (\<forall>du e. r = Inr (du, e) \<longrightarrow> err_bool ops e \<or> (\<exists>rid. transaction_id du = Inr rid \<and> tid \<le> rid))"
proof -
  have "send_on_connection ops req timeout c \<noteq> None" for c
  proof -
    obtain e0 c0 where c0: "clear_buffer ops c = (e0, c0)" by (metis prod.collapse)
    obtain e1 c1 where c1: "send_buffer ops (du_buffer req) (expires_after ops timeout c0) = (e1, c1)"
      by (metis prod.collapse)
    obtain w c2 where c2: "async_write ops (du_buffer req) (expires_after ops timeout c0) = (w, c2)"
      by (metis prod.collapse)
    have "c1 = c2" using c1 c2 by (auto simp: send_buffer_def split: prod.splits if_splits)
    moreover have "deadline c2"
      using assms(2) c2 unfolding deadline_contract_def by (metis snd_conv)
    ultimately show ?thesis
      using response_loop_returns [OF assms(1-3), of c1 tid] assms(4,5) c0 c1
      by (auto simp: send_on_connection_def Let_def)
  qed
  then have "send_request ops req timeout pool \<noteq> None"
    by (auto simp: send_request_def split: prod.splits option.splits)
  then obtain r pool' where r: "send_request ops req timeout pool = Some (r, pool')" by auto
  moreover have "err_bool ops e \<or> (\<exists>rid. transaction_id du = Inr rid \<and> tid \<le> rid)" if "r = Inr (du, e)" for du e
    using send_request_never_older [OF assms(3) r [unfolded that] _ assms(5)] by blast
  ultimately show ?thesis by blast
qed

theorem send_request_returns_witness:
  "\<exists>r pool'. send_request sim_ops \<lparr>m_buffer = frame 7 [1, 3, 0, 0, 0, 1], m_type = request\<rparr> 100
      (Some ([], frame 5 [1, 0x83, 2] @ [0, 7, 0, 0, 0])) = Some (r, pool')"
proof -
  have "transaction_id \<lparr>m_buffer = frame 7 [1, 3, 0, 0, 0, 1], m_type = request\<rparr> = Inr 7"
    by (simp add: frame_def)
  from send_request_returns [OF sim_stream_contract sim_deadline sim_error_contract _ this, of 100]
  show ?thesis by (force simp: milliseconds_max_def)
qed

text \<open>What \<open>clear_buffer\<close> does to a stream of which some bytes have arrived.\<close>

lemma clear_buffer_stream:
  assumes "stream_contract ops incoming" "error_contract ops"
    and "bytes_available ops c = (length cleared, no_error)" "incoming c = cleared @ kept"
  shows "\<exists>c0. clear_buffer ops c = (client_error modbus_client_error_code.success, c0) \<and> incoming c0 = kept"
proof (cases "cleared = []")
  case True
  with assms show ?thesis by (simp add: clear_buffer_def error_contract_simps)
next
  case False
  obtain c0 where "async_read ops (length cleared) c = ((no_error, cleared), c0)" "incoming c0 = kept"
    using stream_read [OF assms(1,4)] by blast
  with False assms(2,3) show ?thesis by (simp add: clear_buffer_def error_contract_simps)
qed

text \<open>C10: late answers to earlier requests of the client do not disturb the next one, as long as the transaction ids
  have not wrapped. The client (\<open>cl\<close>) has reserved the ids of \<open>k\<close> requests, and whatever became of them, it
  (\<open>cl'\<close>) makes and sends another one. The
  bytes that have arrived by then (\<open>cleared\<close>) are discarded. If what follows them in the stream (\<open>kept\<close>, and
  what arrives after the request was written) is any number of whole answers to those \<open>k\<close> requests, in any
  order, and the answer to the new one, then the call returns exactly that answer, and gives the connection back
  with nothing of it left in the stream.\<close>

theorem late_answers_discarded:
  assumes "stream_contract ops incoming" "error_contract ops"
    and "tc_transaction_id cl' = tc_transaction_id (((snd \<circ> reserve_transaction_id) ^^ k) cl)"
    and "unat (tc_transaction_id cl) + k < 65536"
    and "reserve_transaction_id cl' = (tid, cl'')" "transaction_id req = Inr tid"
    and "get_connection ops (tc_con_pool cl'') = (Some c, pool1)"
    and "incoming c = cleared @ kept" "bytes_available ops c = (length cleared, no_error)"
    and "async_write ops (du_buffer req)
        (if timeout \<noteq> milliseconds_max then expires_after ops timeout (snd (clear_buffer ops c))
         else expires_never ops (snd (clear_buffer ops c))) = ((no_error, length (du_buffer req)), c1)"
    and "incoming c1 = kept @ arrived"
    and "kept @ arrived =
        concat (map (\<lambda>(j, ys). frame (tc_transaction_id cl + of_nat j) ys) late) @ frame tid xs @ rest"
    and "\<forall>(j, ys) \<in> set late. j < k \<and> ys \<noteq> [] \<and> length ys \<le> 250" "xs \<noteq> []" "length xs \<le> 250"
  shows "\<exists>c'. client_send_request ops req timeout cl'' =
      Some (Inr (padded_unit tid xs, no_error),
        cl''\<lparr>tc_con_pool := release_connection ops (expires_never ops c') pool1\<rparr>)
    \<and> incoming c' = rest"
proof -
  let ?stale = "map (\<lambda>(j, ys). (tc_transaction_id cl + of_nat j, ys)) late"
  have tid: "tid = tc_transaction_id cl + of_nat k"
    using assms(3,5) by (auto simp: reserved_state reserve_transaction_id_def)
  have less: "tc_transaction_id cl + of_nat j < tid" if "j < k" for j
    using that assms(4) unfolding tid word_less_nat_alt by (simp add: unat_word_ariths unat_of_nat)
  obtain c0 where c0: "clear_buffer ops c = (client_error modbus_client_error_code.success, c0)"
    using clear_buffer_stream [OF assms(1,2,9,8)] by blast
  have wr: "async_write ops (du_buffer req)
      (if timeout \<noteq> milliseconds_max then expires_after ops timeout c0 else expires_never ops c0) =
      ((no_error, length (du_buffer req)), c1)"
    using assms(10) unfolding c0 snd_conv .
  have stale: "\<forall>(t, xs) \<in> set ?stale. t < tid \<and> xs \<noteq> [] \<and> length xs \<le> 250"
    using assms(13) less by fastforce
  have stream: "incoming c1 = concat (map (\<lambda>(t, xs). frame t xs) ?stale) @ frame tid xs @ rest"
    using assms(11,12) by (simp add: case_prod_unfold comp_def)
  from send_request_frames [OF assms(1,2,7,6) c0 wr stale order_refl assms(14,15) stream]
  show ?thesis by (auto simp: client_send_request_def)
qed

theorem late_answers_discarded_witness:
  "\<exists>c'. client_send_request sim_ops \<lparr>m_buffer = frame 7 [1, 3, 0, 0, 0, 1], m_type = request\<rparr> 100
      \<lparr>tc_config = client_config_default, tc_con_pool = Some (frame 5 [1, 0x83, 2],
          frame 6 [1, 0x83, 2] @ frame 7 [1, 3, 2, 0xAB, 0xCD]),
        tc_transaction_id = 8, tc_on_log = null_logging_handler\<rparr> =
    Some (Inr (padded_unit 7 [1, 3, 2, 0xAB, 0xCD], no_error),
      \<lparr>tc_config = client_config_default, tc_con_pool = Some c',
        tc_transaction_id = 8, tc_on_log = null_logging_handler\<rparr>) \<and> fst c' = []"
proof -
  let ?cl = "\<lambda>t. \<lparr>tc_config = client_config_default, tc_con_pool = Some (frame 5 [1, 0x83, 2],
      frame 6 [1, 0x83, 2] @ frame 7 [1, 3, 2, 0xAB, 0xCD]), tc_transaction_id = t, tc_on_log = null_logging_handler\<rparr>"
  let ?req = "\<lparr>m_buffer = frame 7 [1, 3, 0, 0, 0, 1], m_type = request\<rparr>"
  have reserve: "reserve_transaction_id (?cl 7) = (7, ?cl 8)" "transaction_id ?req = Inr 7"
    by (simp_all add: reserve_transaction_id_def frame_def)
  have five: "tc_transaction_id (?cl 7) = tc_transaction_id (((snd \<circ> reserve_transaction_id) ^^ 2) (?cl 5))"
    by (simp add: reserved_state)
  let ?b = "frame 6 [1, 0x83, 2] @ frame 7 [1, 3, 2, 0xAB, 0xCD]"
  have clear: "clear_buffer sim_ops (frame 5 [1, 0x83, 2], ?b) = (client_error modbus_client_error_code.success, [], ?b)"
    by (simp add: clear_buffer_def sim_ops_def)
  have "\<exists>c'. client_send_request sim_ops ?req 100 (?cl 8) =
      Some (Inr (padded_unit 7 [1, 3, 2, 0xAB, 0xCD], no_error),
        (?cl 8)\<lparr>tc_con_pool := release_connection sim_ops (expires_never sim_ops c') None\<rparr>) \<and> fst c' = []"
    by (rule late_answers_discarded [OF sim_stream_contract sim_error_contract five _ reserve,
          where c = "(frame 5 [1, 0x83, 2], ?b)" and cleared = "frame 5 [1, 0x83, 2]" and kept = "[]"
            and arrived = ?b and late = "[(1, [1, 0x83, 2])]" and ?c1.0 = "(?b, [])"])
      (simp_all add: clear sim_ops_fields)
  then show ?thesis by (simp add: sim_ops_fields)
qed

text \<open>That the late answers are whole matters. When only a part of one has arrived as the buffer is cleared, its rest is
  read as the beginning of a response, and the request fails although it is answered: here the
  first 10 bytes of a late answer are discarded, its last 3 become the beginning of a header.\<close>

lemma split_late_answer_misread:
  "\<exists>c'. send_request sim_ops \<lparr>m_buffer = frame 7 [1, 3, 0, 0, 0, 1], m_type = request\<rparr> 100
      (Some (take 10 (frame 5 [1, 3, 4, 0, 1, 0, 2]),
        drop 10 (frame 5 [1, 3, 4, 0, 1, 0, 2]) @ frame 7 [1, 3, 2, 0xAB, 0xCD])) =
    Some (Inr (tcp_data_unit_empty, client_error invalid_response), Some c')"
proof -
  let ?a = "take 10 (frame 5 [1, 3, 4, 0, 1, 0, 2])"
  let ?b = "drop 10 (frame 5 [1, 3, 4, 0, 1, 0, 2]) @ frame 7 [1, 3, 2, 0xAB, 0xCD]"
  let ?req = "\<lparr>m_buffer = frame 7 [1, 3, 0, 0, 0, 1], m_type = request\<rparr>"
  have "fst (read_response sim_ops (?b, [])) = Inr (tcp_data_unit_empty, client_error invalid_response)"
    by code_simp
  then obtain c' where "read_response sim_ops (?b, []) = (Inr (tcp_data_unit_empty, client_error invalid_response), c')"
    by (metis prod.collapse)
  then have loop: "response_loop sim_ops 7 (?b, []) = Some (Inr (tcp_data_unit_empty, client_error invalid_response), c')"
    by (subst response_loop.simps) (simp add: sim_ops_fields)
  have clear: "clear_buffer sim_ops (?a, ?b) = (client_error modbus_client_error_code.success, [], ?b)"
    by (simp add: clear_buffer_def sim_ops_def)
  have "send_buffer sim_ops (du_buffer ?req) ([], ?b) = (no_error, ?b, [])"
    by (rule send_buffer_all [OF sim_error_contract]) (simp add: sim_ops_fields)
  moreover have "transaction_id ?req = Inr 7" by (simp add: frame_def)
  ultimately have "send_on_connection sim_ops ?req 100 (?a, ?b) =
      Some (Inr (tcp_data_unit_empty, client_error invalid_response), c')"
    using clear loop
    by (simp add: send_on_connection_def Let_def map_timeout_def sim_ops_fields del: append_take_drop_id)
  then show ?thesis by (simp add: send_request_def sim_ops_fields)
qed

text \<open>Transaction ids are compared as plain numbers and not for equality. A response with a larger
  id than the request's, such as the late response to an earlier request after the counter has wrapped,
  is returned as the answer without an error; only \<open>validate_response\<close> tells the two apart.\<close>

lemma larger_id_taken_for_answer:
  assumes "stream_contract ops incoming" "error_contract ops"
    and "incoming c = frame other xs @ rest" "2 \<le> length xs" "length xs \<le> 250"
    and "transaction_id req = Inr tid" "tid < other"
  shows "\<exists>c'. response_loop ops tid c = Some (Inr (padded_unit other xs, no_error), c')
    \<and> validate_response req (padded_unit other xs) = Inr (make_client_error_code invalid_response)"
proof -
  have "xs \<noteq> []" using assms(4) by auto
  then obtain c' where "response_loop ops tid c = Some (Inr (padded_unit other xs, no_error), c')"
    using response_loop_frames [OF assms(1,2), of "[]" tid other xs c rest] assms(3,5,7)
    by (auto simp: less_imp_le)
  moreover have "\<exists>f. function_code (padded_unit other xs) = Inr f"
    using assms(4) by (simp add: padded_unit_def frame_def)
  ultimately show ?thesis
    using assms(6,7) by (auto simp: validate_response_def res_bind_def)
qed

text \<open>Every way out of \<open>send_request\<close>, a thrown exception included, gives the connection it took
  back to the pool, once and with its timer cancelled; without a connection the answer is the error
  \<open>stopped\<close>.\<close>

lemma send_request_releases:
  assumes "send_request ops req timeout pool = Some (r, pool')"
  shows "case get_connection ops pool of
      (None, p) \<Rightarrow> r = Inr (tcp_data_unit_empty, client_error stopped) \<and> pool' = p
    | (Some c, p) \<Rightarrow> \<exists>c'. pool' = release_connection ops (expires_never ops c') p"
  using assms by (auto simp: send_request_def split: prod.splits option.splits)



text \<open>The response to a write of a single register is accepted when compared as it was sent, but
  never when it comes from \<open>read_response\<close>, which hands over its whole receive buffer: the padding
  makes it differ from the request.\<close>

lemma padded_echo_rejected:
  assumes "q = new_write_single_register_request u a v" "r = new_write_single_register_response u a v"
    and "tcp_data_unit_of_pdu write_single_register_request_size write_single_register_request_serialize
      write_single_register_request_type tid q = Some reqdu"
    and "tcp_data_unit_of_pdu write_single_register_response_size write_single_register_response_serialize
      write_single_register_response_type tid r = Some respdu"
  shows "validate_response reqdu respdu = Inr (make_client_error_code modbus_client_error_code.success)
    \<and> du_buffer respdu = frame tid (write_single_register_response_encode r)
    \<and> validate_response reqdu (padded_unit tid (write_single_register_response_encode r)) =
        Inr (make_client_error_code invalid_response)"
proof -
  let ?xs = "[u, 6] @ enc_u16 a @ enc_u16 v"
  have enc: "write_single_register_response_encode r = ?xs" "write_single_register_request_encode q = ?xs"
    using assms(1,2)
    by (simp_all add: write_single_register_response_encode_def write_single_register_request_encode_def
        new_write_single_register_request_def new_write_single_register_response_def
        write_single_register_response_function_code_def write_single_register_request_function_code_def
        write_single_register_request.defs write_single_register_response.defs)
  have du: "reqdu = \<lparr>m_buffer = frame tid ?xs, m_type = request\<rparr>"
    "respdu = \<lparr>m_buffer = frame tid ?xs, m_type = response\<rparr>"
    using assms(3,4) enc
    by (auto simp: srq.tcp_data_unit_of_pdu_image srr.tcp_data_unit_of_pdu_image frame_def
        write_single_register_request_size_def write_single_register_response_size_def
        write_single_register_request_type_def write_single_register_response_type_def
        eval_nat_numeral)
  have "\<not> bit (6 :: uint8) 7" by simp
  note code = and_0x7F [OF this] this
  show ?thesis
    unfolding enc du
    using code
    by (simp add: validate_response_def padded_unit_def frame_def res_bind_def du_buffer_def
        make_client_error_code_inj)
qed

end
