(* ===== verification/Modbus_Response.thy ===== *)
theory Modbus_Response
  imports Modbus_Responses
begin

text \<open>
  core/modbus_response.hpp and core/modbus_response.cpp: \<open>modbus_response_t\<close>, the typed view a client
  takes of the data bytes of a response.

  The record has the four fields of the class; \<open>data_\<close>, a \<open>shared_ptr\<close>, is an option
  (\<open>nullptr\<close> is \<^const>\<open>None\<close>). An \<open>unsigned int\<close> index is a 32-bit word; \<open>sizeof(data) * index\<close> is
  computed in \<open>size_t\<close> and cannot wrap. The getters use \<open>std::vector::at\<close>, so they return a
  \<open>result\<close>; in C++20 the shift of a byte by 24 wraps and is defined. Signed results are the
  two's complement values (\<open>sint\<close>). \<open>size()\<close> is declared in the header and defined nowhere.
\<close>

subsection \<open>The object\<close>

record modbus_response_t =
  mr_type :: data_model_t
  mr_data :: "buffer_t option"
  mr_start_address :: uint16
  mr_num_values :: uint16

definition modbus_response_default :: modbus_response_t where
  "modbus_response_default =
     \<lparr>mr_type = invalid_data_type, mr_data = None, mr_start_address = 0, mr_num_values = 0\<rparr>"

definition new_modbus_response ::
  "data_model_t \<Rightarrow> buffer_t option \<Rightarrow> uint16 \<Rightarrow> uint16 \<Rightarrow> modbus_response_t" where
  "new_modbus_response ty d a n =
     \<lparr>mr_type = ty, mr_data = d, mr_start_address = a, mr_num_values = n\<rparr>"

definition data_model :: "modbus_response_t \<Rightarrow> data_model_t" where
  "data_model r = mr_type r"

definition set_data_model :: "data_model_t \<Rightarrow> modbus_response_t \<Rightarrow> modbus_response_t" where
  "set_data_model ty r = r\<lparr>mr_type := ty\<rparr>"

definition set_data :: "buffer_t option \<Rightarrow> modbus_response_t \<Rightarrow> modbus_response_t" where
  "set_data d r = r\<lparr>mr_data := d\<rparr>"

definition response_start_address :: "modbus_response_t \<Rightarrow> uint16" where
  "response_start_address r = mr_start_address r"

definition response_data :: "modbus_response_t \<Rightarrow> buffer_t option" where
  "response_data r = mr_data r"

definition isValid :: "modbus_response_t \<Rightarrow> bool" where
  "isValid r \<longleftrightarrow> \<not> (mr_type r = invalid_data_type
     \<or> (case mr_data r of None \<Rightarrow> True | Some d \<Rightarrow> length d = 0)
     \<or> mr_num_values r = 0)"

definition buffer_length :: "modbus_response_t \<Rightarrow> uint16" where
  "buffer_length r =
     (if \<not> isValid r then 0
      else case mr_data r of None \<Rightarrow> 0 | Some d \<Rightarrow> of_nat (length d))"

subsection \<open>The getters\<close>

text \<open>\<open>data_->at(i)\<close>; the getters call it on valid objects only, where \<open>data_\<close> is not null.\<close>

definition data_at :: "modbus_response_t \<Rightarrow> nat \<Rightarrow> uint8 result" where
  "data_at r i = (case mr_data r of None \<Rightarrow> Inl undefined_behaviour | Some d \<Rightarrow> vec_at d i)"

definition getBool :: "uint32 \<Rightarrow> modbus_response_t \<Rightarrow> bool result" where
  "getBool index r =
     (if \<not> isValid r then Inr False
      else
        let registerOffset = index div 8;
            bit_no = unat (index mod 8);
            mask_byte = push_bit bit_no 1
        in res_bind (data_at r (unat registerOffset)) (\<lambda>b. Inr (b AND mask_byte \<noteq> 0)))"

definition getUINT8 :: "uint32 \<Rightarrow> modbus_response_t \<Rightarrow> uint8 result" where
  "getUINT8 index r = (if \<not> isValid r then Inr 0 else data_at r (unat index))"

definition getINT8 :: "uint32 \<Rightarrow> modbus_response_t \<Rightarrow> int result" where
  "getINT8 index r =
     (if \<not> isValid r then Inr 0 else res_bind (data_at r (unat index)) (\<lambda>b. Inr (sint b)))"

definition getUINT16 :: "uint32 \<Rightarrow> byte_order \<Rightarrow> modbus_response_t \<Rightarrow> uint16 result" where
  "getUINT16 index order r =
     (if \<not> isValid r then Inr 0
      else case order of
        normal \<Rightarrow>
          res_bind (data_at r (2 * unat index)) (\<lambda>h.
          res_bind (data_at r (2 * unat index + 1)) (\<lambda>l. Inr (push_bit 8 (ucast h) + ucast l)))
      | byte_swapped \<Rightarrow>
          res_bind (data_at r (2 * unat index + 1)) (\<lambda>h.
          res_bind (data_at r (2 * unat index)) (\<lambda>l. Inr (push_bit 8 (ucast h) + ucast l))))"

definition getINT16 :: "uint32 \<Rightarrow> byte_order \<Rightarrow> modbus_response_t \<Rightarrow> int result" where
  "getINT16 index order r =
     (if \<not> isValid r then Inr 0
      else res_bind (case order of
        normal \<Rightarrow>
          res_bind (data_at r (2 * unat index)) (\<lambda>h.
          res_bind (data_at r (2 * unat index + 1)) (\<lambda>l.
            Inr (push_bit 8 (ucast h) + ucast l :: uint16)))
      | byte_swapped \<Rightarrow>
          res_bind (data_at r (2 * unat index + 1)) (\<lambda>h.
          res_bind (data_at r (2 * unat index)) (\<lambda>l.
            Inr (push_bit 8 (ucast h) + ucast l :: uint16))))
        (\<lambda>data. Inr (sint data)))"

definition getUINT32 :: "uint32 \<Rightarrow> byte_order \<Rightarrow> modbus_response_t \<Rightarrow> uint32 result" where
  "getUINT32 index order r =
     (if \<not> isValid r then Inr 0
      else case order of
        normal \<Rightarrow>
          res_bind (data_at r (4 * unat index)) (\<lambda>b3.
          res_bind (data_at r (4 * unat index + 1)) (\<lambda>b2.
          res_bind (data_at r (4 * unat index + 2)) (\<lambda>b1.
          res_bind (data_at r (4 * unat index + 3)) (\<lambda>b0.
            Inr (push_bit 24 (ucast b3) + push_bit 16 (ucast b2) + push_bit 8 (ucast b1) + ucast b0)))))
      | byte_swapped \<Rightarrow>
          res_bind (data_at r (4 * unat index + 3)) (\<lambda>b3.
          res_bind (data_at r (4 * unat index + 2)) (\<lambda>b2.
          res_bind (data_at r (4 * unat index + 1)) (\<lambda>b1.
          res_bind (data_at r (4 * unat index)) (\<lambda>b0.
            Inr (push_bit 24 (ucast b3) + push_bit 16 (ucast b2) + push_bit 8 (ucast b1) + ucast b0))))))"

definition getINT32 :: "uint32 \<Rightarrow> byte_order \<Rightarrow> modbus_response_t \<Rightarrow> int result" where
  "getINT32 index order r =
     (if \<not> isValid r then Inr 0
      else res_bind (case order of
        normal \<Rightarrow>
          res_bind (data_at r (4 * unat index)) (\<lambda>b3.
          res_bind (data_at r (4 * unat index + 1)) (\<lambda>b2.
          res_bind (data_at r (4 * unat index + 2)) (\<lambda>b1.
          res_bind (data_at r (4 * unat index + 3)) (\<lambda>b0.
            Inr (push_bit 24 (ucast b3) + push_bit 16 (ucast b2) + push_bit 8 (ucast b1) + ucast b0
              :: uint32)))))
      | byte_swapped \<Rightarrow>
          res_bind (data_at r (4 * unat index + 3)) (\<lambda>b3.
          res_bind (data_at r (4 * unat index + 2)) (\<lambda>b2.
          res_bind (data_at r (4 * unat index + 1)) (\<lambda>b1.
          res_bind (data_at r (4 * unat index)) (\<lambda>b0.
            Inr (push_bit 24 (ucast b3) + push_bit 16 (ucast b2) + push_bit 8 (ucast b1) + ucast b0
              :: uint32))))))
        (\<lambda>data. Inr (sint data)))"

subsection \<open>Printing and classification\<close>

fun data_model_value :: "data_model_t \<Rightarrow> uint8" where
  "data_model_value invalid_data_type = 0"
| "data_model_value input_status = 1"
| "data_model_value coil = 2"
| "data_model_value input_register = 3"
| "data_model_value holding_register = 4"
| "data_model_value write_confirmation = 5"

text \<open>\<open>operator<<\<close>: the type is a \<open>uint8_t\<close>, which a stream prints as a character; a null \<open>data_\<close> is
  dereferenced.\<close>

definition print_modbus_response :: "modbus_response_t \<Rightarrow> string result" where
  "print_modbus_response r =
     ub (case mr_data r of None \<Rightarrow> None | Some d \<Rightarrow> Some (
       ''{'' @ [CHR 0x0A] @
       ''Type: '' @ [char_of (unat (data_model_value (mr_type r)))] @ '','' @ [CHR 0x0A] @
       ''data: '' @ concat (map (\<lambda>i. show_nat (unat i)) d) @
       [CHR 0x0A] @ ''}'' @ [CHR 0x0A]))"

definition data_type :: "function_code_t \<Rightarrow> data_model_t" where
  "data_type code =
     (if code = function_code_value read_coils then coil
      else if code = function_code_value read_discrete_inputs then input_status
      else if code = function_code_value read_input_registers then input_register
      else if code = function_code_value read_holding_registers then holding_register
      else if code = function_code_value write_single_coil
           \<or> code = function_code_value write_multiple_coils
           \<or> code = function_code_value write_single_register
           \<or> code = function_code_value write_multiple_registers then write_confirmation
      else invalid_data_type)"

subsection \<open>Lemmas\<close>

lemmas getter_defs = getBool_def getUINT8_def getINT8_def getUINT16_def getINT16_def
  getUINT32_def getINT32_def

lemma isValid_Some: "isValid r \<Longrightarrow> \<exists>d. mr_data r = Some d \<and> d \<noteq> []"
  by (auto simp: isValid_def split: option.splits)

lemma nth_enc_words:
  assumes "i < length ws"
  shows "enc_words ws ! (2 * i) = hi8 (ws ! i)" "enc_words ws ! (2 * i + 1) = lo8 (ws ! i)"
  using assms by (induction ws arbitrary: i) (auto simp: nth_Cons' less_Suc_eq_0_disj)

text \<open>A four byte big endian value, as \<open>getUINT32\<close> assembles it.\<close>

lemma unat_be32:
  "unat (push_bit 24 (ucast (a :: uint8)) + push_bit 16 (ucast (b :: uint8)) + push_bit 8 (ucast (c :: uint8))
      + ucast (d :: uint8) :: uint32) = 16777216 * unat a + 65536 * unat b + 256 * unat c + unat d"
proof -
  have "16777216 * unat a + 65536 * unat b + 256 * unat c + unat d < 4294967296"
    using unat_byte [of a] unat_byte [of b] unat_byte [of c] unat_byte [of d] by linarith
  then show ?thesis
    by (simp add: unat_word_ariths push_bit_eq_mult unsigned_ucast_eq take_bit_eq_mod mod_simps)
qed

lemma data_at_Some: "mr_data r = Some d \<Longrightarrow> data_at r i = vec_at d i"
  by (simp add: data_at_def)

lemma be16_word: "push_bit 8 (ucast h) + ucast l = be16 h l"
  by (simp add: be16_def)

text \<open>A view on the bytes of words returns the words.\<close>

lemma view_of_words:
  assumes "ws \<noteq> []" "n \<noteq> 0" "ty \<noteq> invalid_data_type" "r = new_modbus_response ty (Some (enc_words ws)) a n"
  shows "isValid r" "mr_data r = Some (enc_words ws)"
    and "unat i < length ws \<Longrightarrow> getUINT16 i normal r = Inr (ws ! unat i)"
proof -
  show v: "isValid r" and d: "mr_data r = Some (enc_words ws)"
    using assms by (cases ws; simp add: new_modbus_response_def isValid_def)+
  show "getUINT16 i normal r = Inr (ws ! unat i)" if "unat i < length ws"
    using that v d nth_enc_words [OF that]
    by (simp add: getUINT16_def data_at_Some vec_simps be16_word)
qed

subsection \<open>Properties\<close>

lemma getBool_reads:
  assumes "isValid r" "mr_data r = Some d"
  shows "getBool k r = (if unat k < 8 * length d then Inr (get_bit d (unat k)) else Inl out_of_range)"
proof -
  have k: "unat (k div 8) = unat k div 8" "unat (k mod 8) = unat k mod 8"
    by (simp_all add: unat_div_distrib unat_mod_distrib)
  have "unat k div 8 < length d \<longleftrightarrow> unat k < 8 * length d" by linarith
  then show ?thesis
    using assms by (simp add: getBool_def Let_def data_at_Some k and_exp_eq_0_iff_not_bit get_bit_def vec_at_def res_bind_def)
qed

text \<open>C34: on a valid object the getters take the index as the number of a value of their width. Coil \<open>k\<close> is bit \<open>k\<close> of the
  data, an 8-bit value the byte at \<open>index\<close>, a 16-bit value the byte pair at \<open>2 * index\<close> most significant byte first, a
  32-bit value the four bytes at \<open>4 * index\<close>, and an index past the data throws \<open>std::out_of_range\<close>. (The comments of
  core/modbus_response.hpp call the index of every getter the starting byte index, which it is for
  bytes only.)\<close>

theorem getters_read_data:
  assumes "isValid r" "mr_data r = Some d"
  shows "getBool k r = (if unat k < 8 * length d then Inr (get_bit d (unat k)) else Inl out_of_range)
    \<and> getUINT8 i r = (if unat i < length d then Inr (d ! unat i) else Inl out_of_range)
    \<and> getUINT16 i normal r =
        (if 2 * unat i + 1 < length d then Inr (be16 (d ! (2 * unat i)) (d ! (2 * unat i + 1)))
         else Inl out_of_range)
    \<and> (if 4 * unat i + 3 < length d
       then \<exists>v. getUINT32 i normal r = Inr v \<and> unat v =
          16777216 * unat (d ! (4 * unat i)) + 65536 * unat (d ! (4 * unat i + 1))
          + 256 * unat (d ! (4 * unat i + 2)) + unat (d ! (4 * unat i + 3))
       else getUINT32 i normal r = Inl out_of_range)"
proof (intro conjI)
  show "getBool k r =
      (if unat k < 8 * length d then Inr (get_bit d (unat k)) else Inl out_of_range)"
    by (rule getBool_reads [OF assms])
  show "getUINT8 i r = (if unat i < length d then Inr (d ! unat i) else Inl out_of_range)"
    using assms by (simp add: getUINT8_def data_at_Some vec_at_def)
  show "getUINT16 i normal r =
      (if 2 * unat i + 1 < length d then Inr (be16 (d ! (2 * unat i)) (d ! (2 * unat i + 1)))
       else Inl out_of_range)"
    using assms by (simp add: getUINT16_def data_at_Some vec_simps be16_word)
  show "if 4 * unat i + 3 < length d
       then \<exists>v. getUINT32 i normal r = Inr v \<and> unat v =
          16777216 * unat (d ! (4 * unat i)) + 65536 * unat (d ! (4 * unat i + 1))
          + 256 * unat (d ! (4 * unat i + 2)) + unat (d ! (4 * unat i + 3))
       else getUINT32 i normal r = Inl out_of_range"
    using assms by (simp add: getUINT32_def data_at_Some vec_simps unat_be32)
qed

theorem getters_read_data_witness:
  "getUINT16 1 normal (new_modbus_response holding_register (Some [0x12, 0x34, 0xAB, 0xCD]) 0 2) =
     Inr (be16 0xAB 0xCD)"
  using getters_read_data [of "new_modbus_response holding_register (Some [0x12, 0x34, 0xAB, 0xCD]) 0 2"
      "[0x12, 0x34, 0xAB, 0xCD]" 0 1]
  by (simp add: new_modbus_response_def isValid_def numeral_eq_Suc)

text \<open>The signed getters are the two's complement reading of the unsigned ones, for both byte
  orders and on errors and invalid objects too.\<close>

lemma signed_getters:
  "getINT8 i r = map_sum id sint (getUINT8 i r)
   \<and> getINT16 i order r = map_sum id sint (getUINT16 i order r)
   \<and> getINT32 i order r = map_sum id sint (getUINT32 i order r)"
  by (auto simp: getter_defs res_bind_def split: byte_order.splits sum.splits)

text \<open>Reading with \<open>byte_swapped\<close> is reading the bytes of the value in reverse order.\<close>

lemma byte_swapped_reverses:
  assumes "length d = 4"
  shows "getUINT32 0 byte_swapped (r\<lparr>mr_data := Some d\<rparr>) = getUINT32 0 normal (r\<lparr>mr_data := Some (rev d)\<rparr>)
    \<and> getUINT16 0 byte_swapped (r\<lparr>mr_data := Some (take 2 d)\<rparr>) =
        getUINT16 0 normal (r\<lparr>mr_data := Some (rev (take 2 d))\<rparr>)"
proof -
  obtain a b c e where "d = [a, b, c, e]"
    using assms by (auto simp: length_Suc_conv numeral_eq_Suc)
  then show ?thesis by (simp add: getter_defs isValid_def data_at_def vec_simps numeral_eq_Suc)
qed

text \<open>No getter has undefined behaviour: whatever the object and the index, it returns or throws
  \<open>std::out_of_range\<close>, and on an invalid object it returns zero.\<close>

lemma getters_defined:
  "getBool k r \<noteq> Inl undefined_behaviour \<and> getUINT8 k r \<noteq> Inl undefined_behaviour
   \<and> getUINT16 k order r \<noteq> Inl undefined_behaviour \<and> getUINT32 k order r \<noteq> Inl undefined_behaviour
   \<and> getINT8 k r \<noteq> Inl undefined_behaviour \<and> getINT16 k order r \<noteq> Inl undefined_behaviour
   \<and> getINT32 k order r \<noteq> Inl undefined_behaviour
   \<and> (isValid r \<or> (getBool k r = Inr False \<and> getUINT8 k r = Inr 0 \<and> getINT8 k r = Inr 0
        \<and> getUINT16 k order r = Inr 0 \<and> getINT16 k order r = Inr 0
        \<and> getUINT32 k order r = Inr 0 \<and> getINT32 k order r = Inr 0))"
proof (cases "isValid r")
  case True
  then obtain d where "mr_data r = Some d" using isValid_Some by blast
  with True show ?thesis
    by (auto simp: getter_defs Let_def data_at_Some res_bind_def vec_at_def
        split: byte_order.splits if_splits)
qed (simp add: getter_defs)

text \<open>The registers a server puts in a response come out of the typed view: word \<open>i\<close> of the
  constructor from words is \<open>getUINT16 i\<close>, and words \<open>2 * i\<close> and \<open>2 * i + 1\<close> are the halves of
  \<open>getUINT32 i\<close>.\<close>

lemma registers_through_view:
  assumes "ws \<noteq> []" "n \<noteq> 0" "ty \<noteq> invalid_data_type"
    and "r = new_modbus_response ty
      (Some (read_holding_registers_response.vals (new_read_holding_registers_response_words u ws))) a n"
  shows "(unat i < length ws \<longrightarrow> getUINT16 i normal r = Inr (ws ! unat i))
    \<and> (2 * unat i + 1 < length ws \<longrightarrow> (\<exists>v. getUINT32 i normal r = Inr v
        \<and> unat v = 65536 * unat (ws ! (2 * unat i)) + unat (ws ! (2 * unat i + 1))))"
proof -
  have vals: "read_holding_registers_response.vals (new_read_holding_registers_response_words u ws) =
      enc_words ws"
    by (simp add: new_read_holding_registers_response_words_def read_holding_registers_response.defs
        emplace_words_enc)
  note v = view_of_words(1) [OF assms(1-3), of r a] and d = view_of_words(2) [OF assms(1-3), of r a]
    and w = view_of_words(3) [OF assms(1-3), of r a i]
  have r: "r = new_modbus_response ty (Some (enc_words ws)) a n" using assms(4) vals by simp
  have "getUINT16 i normal r = Inr (ws ! unat i)" if "unat i < length ws"
    using w [OF r that] .
  moreover have "\<exists>v. getUINT32 i normal r = Inr v
      \<and> unat v = 65536 * unat (ws ! (2 * unat i)) + unat (ws ! (2 * unat i + 1))"
    if l: "2 * unat i + 1 < length ws"
  proof -
    let ?x = "ws ! (2 * unat i)" and ?y = "ws ! (2 * unat i + 1)"
    have n: "enc_words ws ! (4 * unat i) = hi8 ?x" "enc_words ws ! (4 * unat i + 1) = lo8 ?x"
      "enc_words ws ! (4 * unat i + 2) = hi8 ?y" "enc_words ws ! (4 * unat i + 3) = lo8 ?y"
      using nth_enc_words [of "2 * unat i" ws] nth_enc_words [OF l] l
      by (simp_all add: numeral_eq_Suc add.assoc)
    have "16777216 * unat (hi8 ?x) + 65536 * unat (lo8 ?x) + 256 * unat (hi8 ?y) + unat (lo8 ?y)
        = 65536 * unat (be16 (hi8 ?x) (lo8 ?x)) + unat (be16 (hi8 ?y) (lo8 ?y))"
      unfolding unat_be16 by simp
    then show ?thesis
      using l v [OF r] d [OF r] n by (simp add: getUINT32_def data_at_Some vec_simps unat_be32)
  qed
  ultimately show ?thesis by blast
qed

end
