(* ===== verification/Tcp_Session_Manager.thy ===== *)
theory Tcp_Session_Manager
  imports Tcp_Data_Unit
begin

text \<open>
  server/server_types.hpp, server/server_config.hpp, the object of server/tcp_session.hpp and
  server/tcp_session_manager.hpp, server/tcp_session_manager.cpp.

  A \<open>tcp_session_ptr\<close> is a number, the address of the session, and the sessions are a heap from
  addresses to records of their mutable fields: \<open>stop_\<close>, whether \<open>socket_\<close> is open, and the point
  its \<open>start()\<close> coroutine has reached with its local variables (the coroutine itself is in
  \<open>Tcp_Server\<close>). \<open>sessions_\<close>, a \<open>std::set\<close> of pointers, is a list without repetitions. The manager's
  operations run under its mutex, so each is one step; \<open>co_spawn\<close> marks the coroutine as spawned.

  The locale \<open>session_registry\<close> is the contract the server relies on.
\<close>

subsection \<open>server_types.hpp and server_config.hpp\<close>

definition DEFAULT_SERVER_MAX_CONNECTIONS :: uint16 where
  "DEFAULT_SERVER_MAX_CONNECTIONS = 4"

record server_config =
  sc_endpoint :: string
  sc_port :: uint16
  sc_max_connections :: uint16
  sc_logging_handler :: logging_handler_t

definition server_config_default :: server_config where
  "server_config_default =
     \<lparr>sc_endpoint = ''0.0.0.0'', sc_port = 502, sc_max_connections = DEFAULT_SERVER_MAX_CONNECTIONS,
      sc_logging_handler = null_logging_handler\<rparr>"

definition new_server_config :: "string \<Rightarrow> uint16 \<Rightarrow> server_config" where
  "new_server_config e p =
     \<lparr>sc_endpoint = e, sc_port = p, sc_max_connections = DEFAULT_SERVER_MAX_CONNECTIONS,
      sc_logging_handler = null_logging_handler\<rparr>"

definition server_set_endpoint :: "string \<Rightarrow> server_config \<Rightarrow> server_config" where
  "server_set_endpoint e c = c\<lparr>sc_endpoint := e\<rparr>"

definition server_set_port :: "uint16 \<Rightarrow> server_config \<Rightarrow> server_config" where
  "server_set_port p c = c\<lparr>sc_port := p\<rparr>"

definition server_set_max_connections :: "uint16 \<Rightarrow> server_config \<Rightarrow> server_config" where
  "server_set_max_connections n c = c\<lparr>sc_max_connections := n\<rparr>"

definition server_set_logging_handler :: "logging_handler_t \<Rightarrow> server_config \<Rightarrow> server_config" where
  "server_set_logging_handler f c = c\<lparr>sc_logging_handler := f\<rparr>"

subsection \<open>Session objects\<close>

text \<open>Where \<open>start()\<close> is: not spawned yet, spawned, suspended in the read, in the request handler with
  the request, or in the write with the response, returned, or ended by an exception.\<close>

datatype session_phase =
    not_started
  | spawned
  | reading
  | handling tcp_data_unit
  | writing tcp_data_unit
  | finished
  | crashed

record tcp_session =
  ts_stop :: bool
  ts_open :: bool
  ts_phase :: session_phase
  ts_buf :: buffer_t
  ts_read_err :: "net_code option"
  ts_sent :: "uint8 list"

type_synonym session_ptr = nat
type_synonym session_heap = "session_ptr \<rightharpoonup> tcp_session"

definition new_tcp_session :: tcp_session where
  "new_tcp_session =
     \<lparr>ts_stop = False, ts_open = True, ts_phase = not_started, ts_buf = [], ts_read_err = None,
      ts_sent = []\<rparr>"

text \<open>\<open>tcp_session::stop\<close>.\<close>

definition session_stop :: "tcp_session \<Rightarrow> tcp_session" where
  "session_stop ts = ts\<lparr>ts_stop := True, ts_open := False\<rparr>"

text \<open>A call of \<open>stop\<close> through a pointer.\<close>

definition heap_stop :: "session_ptr \<Rightarrow> session_heap \<Rightarrow> session_heap" where
  "heap_stop p h = (case h p of None \<Rightarrow> h | Some ts \<Rightarrow> h(p \<mapsto> session_stop ts))"

subsection \<open>The manager\<close>

record tcp_session_manager =
  sm_sessions :: "session_ptr list"
  sm_max_sessions :: int

definition new_tcp_session_manager :: tcp_session_manager where
  "new_tcp_session_manager =
     \<lparr>sm_sessions = [], sm_max_sessions = uint DEFAULT_SERVER_MAX_CONNECTIONS\<rparr>"

definition spawn :: "session_ptr \<Rightarrow> session_heap \<Rightarrow> session_heap" where
  "spawn p h = (case h p of None \<Rightarrow> h | Some ts \<Rightarrow> h(p \<mapsto> ts\<lparr>ts_phase := spawned\<rparr>))"

text \<open>\<open>sessions_.size() > max_sessions_\<close> compares as \<open>size_t\<close>.\<close>

definition manager_start ::
  "session_ptr \<Rightarrow> tcp_session_manager \<times> session_heap \<Rightarrow>
   error_code \<times> tcp_session_manager \<times> session_heap" where
  "manager_start p mh = (case mh of (m, h) \<Rightarrow>
     if (of_nat (length (sm_sessions m)) :: size_t) > word_of_int (sm_max_sessions m)
     then (make_server_error_code exceeded_max_sessions, m, heap_stop p h)
     else (make_server_error_code modbus_server_error_code.success,
           m\<lparr>sm_sessions := List.insert p (sm_sessions m)\<rparr>, spawn p h))"

definition manager_stop ::
  "session_ptr \<Rightarrow> tcp_session_manager \<times> session_heap \<Rightarrow> tcp_session_manager \<times> session_heap" where
  "manager_stop p mh = (case mh of (m, h) \<Rightarrow>
     (m\<lparr>sm_sessions := removeAll p (sm_sessions m)\<rparr>, heap_stop p h))"

definition manager_stop_all ::
  "tcp_session_manager \<times> session_heap \<Rightarrow> tcp_session_manager \<times> session_heap" where
  "manager_stop_all mh = (case mh of (m, h) \<Rightarrow>
     (m\<lparr>sm_sessions := []\<rparr>, fold heap_stop (sm_sessions m) h))"

definition set_max_sessions :: "int \<Rightarrow> tcp_session_manager \<Rightarrow> tcp_session_manager" where
  "set_max_sessions n m = m\<lparr>sm_max_sessions := n\<rparr>"

definition max_sessions :: "tcp_session_manager \<Rightarrow> int" where
  "max_sessions m = sm_max_sessions m"

subsection \<open>Lemmas\<close>

lemma heap_stop_apply:
  "heap_stop p h q = (if q = p then map_option session_stop (h q) else h q)"
  by (auto simp: heap_stop_def split: option.splits)

lemma spawn_apply:
  "spawn p h q = (if q = p then map_option (\<lambda>ts. ts\<lparr>ts_phase := spawned\<rparr>) (h q) else h q)"
  by (auto simp: spawn_def split: option.splits)

lemma session_stop_simps [simp]:
  "ts_stop (session_stop ts)" "\<not> ts_open (session_stop ts)"
  "ts_phase (session_stop ts) = ts_phase ts" "ts_sent (session_stop ts) = ts_sent ts"
  "ts_buf (session_stop ts) = ts_buf ts" "ts_read_err (session_stop ts) = ts_read_err ts"
  "session_stop (session_stop ts) = session_stop ts"
  by (simp_all add: session_stop_def)

lemma fold_heap_stop_apply:
  "fold heap_stop ps h q = (if q \<in> set ps then map_option session_stop (h q) else h q)"
  by (induction ps arbitrary: h) (auto simp: heap_stop_apply option.map_comp comp_def)

lemma over_limit_iff:
  assumes "0 \<le> n" "n < 2 ^ 31" "k < 2 ^ 64"
  shows "(of_nat k :: size_t) > word_of_int n \<longleftrightarrow> int k > n"
proof -
  have "(word_of_int n :: size_t) = of_nat (nat n)" using assms(1) by simp
  moreover have "nat n < 2 ^ 64" using assms(2) by simp
  ultimately show ?thesis using size_t_less_iff [of "nat n" k] assms(1,3) by (simp only:) linarith
qed

subsection \<open>The registry contract\<close>

text \<open>What the server relies on: a session that is started is registered or stopped, a stopped session
  is neither registered nor open, and stopping all leaves none.\<close>

locale session_registry =
  fixes registered :: "'s \<Rightarrow> session_ptr set"
    and live :: "'s \<Rightarrow> session_ptr \<Rightarrow> bool"
    and start :: "session_ptr \<Rightarrow> 's \<Rightarrow> error_code \<times> 's"
    and stop :: "session_ptr \<Rightarrow> 's \<Rightarrow> 's"
    and stop_all :: "'s \<Rightarrow> 's"
  assumes start_registers: "start p s = (e, s') \<Longrightarrow> \<not> ec_bool e \<Longrightarrow>
      registered s' = insert p (registered s) \<and> (\<forall>q. live s' q = live s q)"
    and start_refuses: "start p s = (e, s') \<Longrightarrow> ec_bool e \<Longrightarrow>
      registered s' = registered s \<and> (\<forall>q. live s' q \<longleftrightarrow> q \<noteq> p \<and> live s q)"
    and stop_removes: "registered (stop p s) = registered s - {p}"
    and stop_closes: "live (stop p s) q \<longleftrightarrow> q \<noteq> p \<and> live s q"
    and stop_all_removes: "registered (stop_all s) = {}"
    and stop_all_closes: "live (stop_all s) q \<longleftrightarrow> q \<notin> registered s \<and> live s q"
begin

text \<open>Registered sessions are live: kept by every operation, given that only live sessions are started.\<close>

lemma start_keeps_live:
  assumes "\<forall>q \<in> registered s. live s q" "p \<notin> registered s" "live s p" "start p s = (e, s')"
  shows "\<forall>q \<in> registered s'. live s' q"
  using assms start_registers [OF assms(4)] start_refuses [OF assms(4)] by (cases "ec_bool e") auto

lemma stop_keeps_live: "\<forall>q \<in> registered s. live s q \<Longrightarrow> \<forall>q \<in> registered (stop p s). live (stop p s) q"
  by (auto simp: stop_removes stop_closes)

lemma stop_all_keeps_live: "\<forall>q \<in> registered (stop_all s). live (stop_all s) q"
  by (simp add: stop_all_removes)

text \<open>Stopping the sessions one by one is stopping them all.\<close>

lemma fold_stop_registered: "registered (fold stop ps s) = registered s - set ps"
  by (induction ps arbitrary: s) (auto simp: stop_removes)

lemma fold_stop_live: "live (fold stop ps s) q \<longleftrightarrow> q \<notin> set ps \<and> live s q"
  by (induction ps arbitrary: s) (auto simp: stop_closes)

lemma stop_each_is_stop_all:
  assumes "set ps = registered s"
  shows "registered (fold stop ps s) = registered (stop_all s) \<and>
    (\<forall>q. live (fold stop ps s) q = live (stop_all s) q)"
  using assms by (simp add: fold_stop_registered fold_stop_live stop_all_removes stop_all_closes)

end

abbreviation registered_of :: "tcp_session_manager \<times> session_heap \<Rightarrow> session_ptr set" where
  "registered_of mh \<equiv> set (sm_sessions (fst mh))"

text \<open>A live session exists, has not been asked to stop and has its socket open.\<close>

definition live_in :: "tcp_session_manager \<times> session_heap \<Rightarrow> session_ptr \<Rightarrow> bool" where
  "live_in mh p \<longleftrightarrow> (case snd mh p of None \<Rightarrow> False | Some ts \<Rightarrow> \<not> ts_stop ts \<and> ts_open ts)"

interpretation mgr: session_registry registered_of live_in manager_start manager_stop manager_stop_all
proof unfold_locales
  fix p s e s' q
  { assume "manager_start p s = (e, s')" "\<not> ec_bool e"
    then show "registered_of s' = insert p (registered_of s) \<and> (\<forall>q. live_in s' q = live_in s q)"
      by (auto simp: manager_start_def live_in_def spawn_apply split: prod.splits if_splits option.splits) }
  { assume "manager_start p s = (e, s')" "ec_bool e"
    then show "registered_of s' = registered_of s \<and> (\<forall>q. live_in s' q \<longleftrightarrow> q \<noteq> p \<and> live_in s q)"
      by (auto simp: manager_start_def live_in_def heap_stop_apply split: prod.splits if_splits option.splits) }
  show "registered_of (manager_stop p s) = registered_of s - {p}"
    by (auto simp: manager_stop_def split: prod.splits)
  show "live_in (manager_stop p s) q \<longleftrightarrow> q \<noteq> p \<and> live_in s q"
    by (auto simp: manager_stop_def live_in_def heap_stop_apply split: prod.splits option.splits)
  show "registered_of (manager_stop_all s) = {}"
    by (auto simp: manager_stop_all_def split: prod.splits)
  show "live_in (manager_stop_all s) q \<longleftrightarrow> q \<notin> registered_of s \<and> live_in s q"
    by (auto simp: manager_stop_all_def live_in_def fold_heap_stop_apply split: prod.splits option.splits)
qed

subsection \<open>Properties\<close>

text \<open>With a limit that is not negative, the manager refuses a session exactly when more sessions
  than the limit are registered already, so it admits one more than the limit; a refused session is
  stopped and the registry does not change.\<close>

lemma manager_admits_iff:
  assumes "0 \<le> max_sessions m" "max_sessions m < 2 ^ 31" "length (sm_sessions m) < 2 ^ 64"
  shows "manager_start p (m, h) =
    (if int (length (sm_sessions m)) \<le> max_sessions m
     then (make_server_error_code modbus_server_error_code.success,
           m\<lparr>sm_sessions := List.insert p (sm_sessions m)\<rparr>, spawn p h)
     else (make_server_error_code exceeded_max_sessions, m, heap_stop p h))"
  using over_limit_iff [of "sm_max_sessions m" "length (sm_sessions m)"] assms
  by (auto simp: manager_start_def max_sessions_def)

text \<open>\<open>stop_all\<close> leaves what stopping every registered session one by one leaves: no session
  registered, and the same sessions live.\<close>

lemma stop_all_is_stop_each:
  "sm_sessions (fst (manager_stop_all mh)) = []
   \<and> set (sm_sessions (fst (fold manager_stop (sm_sessions (fst mh)) mh))) = {}
   \<and> live_in (fold manager_stop (sm_sessions (fst mh)) mh) q = live_in (manager_stop_all mh) q"
  using mgr.stop_each_is_stop_all [of "sm_sessions (fst mh)" mh] mgr.stop_all_removes [of mh] by auto

end
