(* ===== verification/Tcp_Server.thy ===== *)
theory Tcp_Server
  imports Tcp_Session_Manager Modbus_Requests
begin

text \<open>
  server/tcp_session.cpp (the coroutine \<open>start()\<close>), server/tcp_server.hpp and server/tcp_server.cpp.

  The coroutines run interleaved, each from one \<open>co_await\<close> to the next. An event is the completion of
  what one of them waits for, with the result the network or the executor gives it, and
  \<open>server_exec\<close> is the step of the whole server on an event: the body of the coroutine up to its
  next suspension, with every call on the session manager. It is \<^const>\<open>None\<close> when nobody waits for
  the event. \<open>reachable\<close> are the states of the runs, for any order of events.

  The request handler is user code: a parameter \<open>handler\<close> with a state of its own, which may throw. Here a
  call of the handler takes effect in one step, when it completes; calls that suspend in between, and overlap
  with calls of other sessions, are in \<open>Suspending_Handlers\<close>.
  \<open>spawn\<close>ed coroutines that have not run yet are pending. Log lines are not part of the state (they are in
  \<open>Server_Log\<close>), except
  that \<open>remote_endpoint()\<close>, which both \<open>start()\<close> coroutines call for their log lines, throws on a socket
  that is closed or no longer connected. The end of a detached coroutine by an exception is \<open>crashed\<close>.
\<close>

subsection \<open>The server object\<close>

record 'h tcp_server =
  sv_config :: server_config
  sv_manager :: tcp_session_manager
  sv_heap :: session_heap
  sv_stop :: bool
  sv_acceptor_open :: bool
  sv_accepting :: bool
  sv_pending :: "session_ptr list"
  sv_handler :: 'h

type_synonym 'h request_handler_t = "tcp_data_unit \<Rightarrow> 'h \<Rightarrow> tcp_data_unit result \<times> 'h"

definition new_tcp_server :: "server_config \<Rightarrow> 'h \<Rightarrow> 'h tcp_server" where
  "new_tcp_server config handler_state =
     \<lparr>sv_config = config, sv_manager = new_tcp_session_manager, sv_heap = Map.empty, sv_stop = False,
      sv_acceptor_open = False, sv_accepting = False, sv_pending = [], sv_handler = handler_state\<rparr>"

definition set_session :: "session_ptr \<Rightarrow> tcp_session \<Rightarrow> 'h tcp_server \<Rightarrow> 'h tcp_server" where
  "set_session p ts s = s\<lparr>sv_heap := (sv_heap s)(p \<mapsto> ts)\<rparr>"

definition set_manager :: "tcp_session_manager \<times> session_heap \<Rightarrow> 'h tcp_server \<Rightarrow> 'h tcp_server" where
  "set_manager mh s = s\<lparr>sv_manager := fst mh, sv_heap := snd mh\<rparr>"

subsection \<open>The accept loop: tcp_server::start and stop\<close>

text \<open>Up to the first accept. A failure to open, bind or listen is logged and the loop starts anyway.\<close>

definition server_listen :: "bool \<Rightarrow> 'h tcp_server \<Rightarrow> 'h tcp_server" where
  "server_listen ok s = s\<lparr>sv_acceptor_open := ok, sv_accepting := \<not> sv_stop s\<rparr>"

text \<open>\<open>async_accept\<close> has a socket: log its remote endpoint, which throws out of the loop if the peer is
  gone already; make the session, spawn \<open>session_manager_.start\<close>, test \<open>stop_\<close>.\<close>

definition server_accept :: "session_ptr \<Rightarrow> bool \<Rightarrow> 'h tcp_server \<Rightarrow> 'h tcp_server" where
  "server_accept p connected s =
     (if \<not> connected then s\<lparr>sv_accepting := False\<rparr>
      else (set_session p new_tcp_session s)
             \<lparr>sv_pending := sv_pending s @ [p], sv_accepting := \<not> sv_stop s\<rparr>)"

definition server_accept_error :: "'h tcp_server \<Rightarrow> 'h tcp_server" where
  "server_accept_error s = s\<lparr>sv_accepting := False\<rparr>"

text \<open>A pending \<open>session_manager_.start(session)\<close> runs.\<close>

definition server_run_start :: "session_ptr \<Rightarrow> 'h tcp_server \<Rightarrow> 'h tcp_server" where
  "server_run_start p s =
     (case manager_start p (sv_manager s, sv_heap s) of (_, mh) \<Rightarrow>
        (set_manager mh s)\<lparr>sv_pending := remove1 p (sv_pending s)\<rparr>)"

definition server_stop :: "'h tcp_server \<Rightarrow> 'h tcp_server" where
  "server_stop s =
     set_manager (manager_stop_all (sv_manager s, sv_heap s))
       (s\<lparr>sv_stop := True, sv_acceptor_open := False\<rparr>)"

subsection \<open>The session coroutine: tcp_session::start\<close>

text \<open>The test \<open>while (!stop_)\<close> and what follows it up to the read.\<close>

definition loop_test :: "tcp_session \<Rightarrow> tcp_session" where
  "loop_test ts = ts\<lparr>ts_phase := (if ts_stop ts then finished else reading)\<rparr>"

definition session_begin :: "session_ptr \<Rightarrow> bool \<Rightarrow> tcp_session \<Rightarrow> 'h tcp_server \<Rightarrow> 'h tcp_server" where
  "session_begin p connected ts s =
     (if \<not> ts_open ts \<or> \<not> connected then set_session p (ts\<lparr>ts_phase := crashed\<rparr>) s
      else set_session p (loop_test (ts\<lparr>ts_buf := replicate MAX_APU_SIZE 0\<rparr>)) s)"

text \<open>\<open>session_manager_.stop(shared_from_this()); break;\<close>\<close>

definition stop_and_break :: "session_ptr \<Rightarrow> tcp_session \<Rightarrow> 'h tcp_server \<Rightarrow> 'h tcp_server" where
  "stop_and_break p ts s =
     (let s = set_session p (ts\<lparr>ts_phase := finished\<rparr>) s
      in set_manager (manager_stop p (sv_manager s, sv_heap s)) s)"

definition session_read_done ::
  "session_ptr \<Rightarrow> net_code option \<Rightarrow> uint8 list \<Rightarrow> tcp_session \<Rightarrow> 'h tcp_server \<Rightarrow> 'h tcp_server" where
  "session_read_done p read_err bs ts s =
     (let ts = ts\<lparr>ts_buf := overwrite (ts_buf ts) 0 bs, ts_read_err := read_err\<rparr>
      in if read_err \<noteq> None \<and> read_err \<noteq> Some operation_aborted then stop_and_break p ts s
      else if read_err = Some operation_aborted then set_session p (ts\<lparr>ts_phase := finished\<rparr>) s
      else if length bs < TCP_HEADER_SIZE + MIN_PDU_SIZE then set_session p (loop_test ts) s
      else case tcp_data_unit_of_buffer (ts_buf ts) (of_nat (length bs)) request of
          Inl _ \<Rightarrow> set_session p (ts\<lparr>ts_phase := crashed\<rparr>) s
        | Inr req \<Rightarrow> set_session p (ts\<lparr>ts_phase := handling req\<rparr>) s)"

text \<open>The awaitable of the handler has completed with a response or an exception, and has left the state \<open>hs\<close>.\<close>

definition session_handler_done ::
  "session_ptr \<Rightarrow> tcp_data_unit result \<times> 'h \<Rightarrow> tcp_session \<Rightarrow> 'h tcp_server \<Rightarrow> 'h tcp_server" where
  "session_handler_done p outcome ts s =
     (case outcome of (r, hs) \<Rightarrow>
        let s = s\<lparr>sv_handler := hs\<rparr>
        in case r of
            Inl _ \<Rightarrow> set_session p (ts\<lparr>ts_phase := crashed\<rparr>) s
          | Inr resp \<Rightarrow> set_session p (ts\<lparr>ts_phase := writing resp\<rparr>) s)"

text \<open>\<open>async_write_some\<close> has written the first \<open>n\<close> bytes. The second test looks at \<open>read_err\<close> again.\<close>

definition session_write_done ::
  "session_ptr \<Rightarrow> net_code option \<Rightarrow> nat \<Rightarrow> tcp_data_unit \<Rightarrow> tcp_session \<Rightarrow> 'h tcp_server \<Rightarrow> 'h tcp_server" where
  "session_write_done p write_err n resp ts s =
     (let ts = ts\<lparr>ts_sent := ts_sent ts @ take n (du_buffer resp)\<rparr>
      in if write_err \<noteq> None \<and> write_err \<noteq> Some operation_aborted then stop_and_break p ts s
      else if ts_read_err ts = Some operation_aborted then set_session p (ts\<lparr>ts_phase := finished\<rparr>) s
      else set_session p (loop_test ts) s)"

subsection \<open>Runs\<close>

datatype server_event =
    Listen bool
  | Accept session_ptr bool
  | Accept_error net_code
  | Run_start session_ptr
  | Begin session_ptr bool
  | Read_done session_ptr "net_code option" "uint8 list"
  | Handler_done session_ptr
  | Write_done session_ptr "net_code option" nat
  | Server_stop

text \<open>A session is made at a fresh address, and a read stores at most the size of the buffer.\<close>

fun server_exec :: "'h request_handler_t \<Rightarrow> server_event \<Rightarrow> 'h tcp_server \<Rightarrow> 'h tcp_server option" where
  "server_exec handler (Listen ok) s = Some (server_listen ok s)"
| "server_exec handler (Accept p connected) s =
     (if sv_accepting s \<and> sv_heap s p = None then Some (server_accept p connected s) else None)"
| "server_exec handler (Accept_error err) s = (if sv_accepting s then Some (server_accept_error s) else None)"
| "server_exec handler (Run_start p) s =
     (if p \<in> set (sv_pending s) then Some (server_run_start p s) else None)"
| "server_exec handler (Begin p connected) s = (case sv_heap s p of
     Some ts \<Rightarrow> if ts_phase ts = spawned then Some (session_begin p connected ts s) else None
   | None \<Rightarrow> None)"
| "server_exec handler (Read_done p err bs) s = (case sv_heap s p of
     Some ts \<Rightarrow> if ts_phase ts = reading \<and> length bs \<le> length (ts_buf ts)
                then Some (session_read_done p err bs ts s) else None
   | None \<Rightarrow> None)"
| "server_exec handler (Handler_done p) s = (case sv_heap s p of
     Some ts \<Rightarrow> (case ts_phase ts of
         handling req \<Rightarrow> Some (session_handler_done p (handler req (sv_handler s)) ts s) | _ \<Rightarrow> None)
   | None \<Rightarrow> None)"
| "server_exec handler (Write_done p err n) s = (case sv_heap s p of
     Some ts \<Rightarrow> (case ts_phase ts of
         writing resp \<Rightarrow> if n \<le> length (du_buffer resp)
                         then Some (session_write_done p err n resp ts s) else None | _ \<Rightarrow> None)
   | None \<Rightarrow> None)"
| "server_exec handler Server_stop s = Some (server_stop s)"

definition server_run :: "'h request_handler_t \<Rightarrow> server_event list \<Rightarrow> 'h tcp_server \<Rightarrow> 'h tcp_server option" where
  "server_run handler = run_all (server_exec handler)"

lemma server_run_simps [simp]:
  "server_run handler [] s = Some s"
  "server_run handler (ev # evs) s = (case server_exec handler ev s of
     None \<Rightarrow> None | Some s' \<Rightarrow> server_run handler evs s')"
  unfolding server_run_def by simp_all

inductive reachable :: "'h request_handler_t \<Rightarrow> server_config \<Rightarrow> 'h \<Rightarrow> 'h tcp_server \<Rightarrow> bool"
  for handler :: "'h request_handler_t" and config :: server_config and handler_state :: 'h where
  reach_init: "reachable handler config handler_state (new_tcp_server config handler_state)"
| reach_step: "reachable handler config handler_state s \<Longrightarrow> server_exec handler ev s = Some s' \<Longrightarrow>
    reachable handler config handler_state s'"

subsection \<open>The invariant\<close>

text \<open>What the phase of a session says about its local variables.\<close>

definition session_ok :: "tcp_session \<Rightarrow> bool" where
  "session_ok ts \<longleftrightarrow> (case ts_phase ts of
      reading \<Rightarrow> length (ts_buf ts) = MAX_APU_SIZE
    | handling req \<Rightarrow> length (ts_buf ts) = MAX_APU_SIZE \<and> ts_read_err ts = None
        \<and> m_type req = request \<and> m_buffer req = ts_buf ts
    | writing resp \<Rightarrow> length (ts_buf ts) = MAX_APU_SIZE \<and> ts_read_err ts = None
    | _ \<Rightarrow> True)"

abbreviation mh_of :: "'h tcp_server \<Rightarrow> tcp_session_manager \<times> session_heap" where
  "mh_of s \<equiv> (sv_manager s, sv_heap s)"

definition server_inv :: "'h tcp_server \<Rightarrow> bool" where
  "server_inv s \<longleftrightarrow>
     distinct (sm_sessions (sv_manager s))
     \<and> sm_max_sessions (sv_manager s) = 4 \<and> length (sm_sessions (sv_manager s)) \<le> 5
     \<and> (\<forall>p \<in> set (sm_sessions (sv_manager s)). live_in (mh_of s) p)
     \<and> distinct (sv_pending s) \<and> (\<forall>p \<in> set (sv_pending s). live_in (mh_of s) p)
     \<and> set (sv_pending s) \<inter> set (sm_sessions (sv_manager s)) = {}
     \<and> (\<forall>p. live_in (mh_of s) p \<longrightarrow> p \<in> set (sv_pending s) \<union> set (sm_sessions (sv_manager s)))
     \<and> (\<forall>p \<in> set (sv_pending s). \<forall>ts. sv_heap s p = Some ts \<longrightarrow> ts_phase ts = not_started)
     \<and> (\<forall>p ts. sv_heap s p = Some ts \<longrightarrow> session_ok ts)"

subsection \<open>The invariant is preserved\<close>

lemma set_session_fields [simp]:
  "sv_manager (set_session p ts s) = sv_manager s" "sv_pending (set_session p ts s) = sv_pending s"
  "sv_heap (set_session p ts s) = (sv_heap s)(p \<mapsto> ts)" "sv_stop (set_session p ts s) = sv_stop s"
  "sv_accepting (set_session p ts s) = sv_accepting s" "sv_handler (set_session p ts s) = sv_handler s"
  by (simp_all add: set_session_def)

lemma set_manager_fields [simp]:
  "sv_manager (set_manager mh s) = fst mh" "sv_heap (set_manager mh s) = snd mh"
  "sv_pending (set_manager mh s) = sv_pending s" "sv_handler (set_manager mh s) = sv_handler s"
  "sv_stop (set_manager mh s) = sv_stop s" "sv_accepting (set_manager mh s) = sv_accepting s"
  by (simp_all add: set_manager_def)

lemma live_in_update:
  "live_in (m, h(p \<mapsto> ts)) q \<longleftrightarrow> (if q = p then \<not> ts_stop ts \<and> ts_open ts else live_in (m, h) q)"
  by (simp add: live_in_def)

lemma live_in_Some: "h p = Some ts \<Longrightarrow> live_in (m, h) p \<longleftrightarrow> \<not> ts_stop ts \<and> ts_open ts"
  by (simp add: live_in_def)

lemma session_ok_stop [simp]: "session_ok (session_stop ts) = session_ok ts"
  by (auto simp: session_ok_def split: session_phase.splits)

lemma session_ok_spawned [simp]: "session_ok (ts\<lparr>ts_phase := spawned\<rparr>)"
  by (simp add: session_ok_def)

text \<open>A coroutine that has been spawned moves to another phase.\<close>

lemma inv_set_session:
  assumes inv: "server_inv s" and p: "sv_heap s p = Some ts" "ts_phase ts \<noteq> not_started"
    and ts': "ts_stop ts' = ts_stop ts" "ts_open ts' = ts_open ts" "session_ok ts'"
  shows "server_inv (set_session p ts' s)"
proof -
  have "p \<notin> set (sv_pending s)" using inv p by (auto simp: server_inv_def)
  moreover have "live_in (sv_manager s, (sv_heap s)(p \<mapsto> ts')) q = live_in (mh_of s) q" for q
    using p(1) ts' by (simp add: live_in_update live_in_Some)
  ultimately show ?thesis using inv ts'(3) by (simp add: server_inv_def)
qed

text \<open>A session that is not pending is stopped through the manager.\<close>

lemma inv_manager_stop:
  assumes inv: "server_inv s" and p: "p \<notin> set (sv_pending s)"
  shows "server_inv (set_manager (manager_stop p (mh_of s)) s)"
proof -
  obtain m h where mh: "manager_stop p (mh_of s) = (m, h)" by (cases "manager_stop p (mh_of s)")
  have m: "m = sv_manager s\<lparr>sm_sessions := removeAll p (sm_sessions (sv_manager s))\<rparr>"
    and h: "h = heap_stop p (sv_heap s)" using mh by (simp_all add: manager_stop_def)
  have live: "live_in (m, h) q \<longleftrightarrow> q \<noteq> p \<and> live_in (mh_of s) q" for q
    using mgr.stop_closes [of p "mh_of s" q] mh by simp
  have ok: "session_ok ts" if "h q = Some ts" for q ts
    using that inv h by (auto simp: server_inv_def heap_stop_apply split: if_splits)
  have len: "length (removeAll p (sm_sessions (sv_manager s))) \<le> length (sm_sessions (sv_manager s))"
    by (simp add: removeAll_filter_not_eq)
  have pend: "h q = sv_heap s q" if "q \<in> set (sv_pending s)" for q
    using that p h by (auto simp: heap_stop_apply)
  show ?thesis
    using inv p live ok pend le_trans [OF len]
    unfolding server_inv_def mh by (auto simp: m distinct_removeAll)
qed

lemma inv_stop_and_break:
  assumes "server_inv s" "sv_heap s p = Some ts" "ts_phase ts \<noteq> not_started"
    and "ts_stop ts' = ts_stop ts" "ts_open ts' = ts_open ts"
  shows "server_inv (stop_and_break p ts' s)"
proof -
  have "server_inv (set_session p (ts'\<lparr>ts_phase := finished\<rparr>) s)"
    by (rule inv_set_session [OF assms(1-3)]) (use assms(4,5) in \<open>simp_all add: session_ok_def\<close>)
  moreover have "p \<notin> set (sv_pending s)" using assms(1-3) by (auto simp: server_inv_def)
  ultimately show ?thesis using inv_manager_stop by (fastforce simp: stop_and_break_def Let_def)
qed

text \<open>What \<open>session_manager_.start\<close> does to the set of sessions, within the limit of the manager.\<close>

lemma manager_start_sessions:
  assumes inv: "server_inv s" and p: "p \<notin> set (sm_sessions (sv_manager s))"
    and start: "manager_start p (mh_of s) = (e, m, h)"
  shows "distinct (sm_sessions m) \<and> sm_max_sessions m = 4 \<and> length (sm_sessions m) \<le> 5
    \<and> (set (sm_sessions m) = insert p (set (sm_sessions (sv_manager s)))
        \<or> set (sm_sessions m) = set (sm_sessions (sv_manager s)) \<and> \<not> live_in (m, h) p)"
proof -
  let ?m = "sv_manager s"
  have lim: "(of_nat (length (sm_sessions ?m)) :: size_t) > word_of_int (sm_max_sessions ?m) \<longleftrightarrow>
      length (sm_sessions ?m) > 4"
    using inv over_limit_iff [of 4 "length (sm_sessions ?m)"] by (simp add: server_inv_def)
  show ?thesis
  proof (cases "length (sm_sessions ?m) > 4")
    case True
    then have "e = make_server_error_code exceeded_max_sessions" "m = ?m"
      using start lim by (simp_all add: manager_start_def)
    with mgr.start_refuses [OF start] inv show ?thesis by (simp add: server_inv_def)
  next
    case False
    then have "m = ?m\<lparr>sm_sessions := List.insert p (sm_sessions ?m)\<rparr>"
      using start lim by (simp add: manager_start_def)
    then have "sm_sessions m = p # sm_sessions ?m" "sm_max_sessions m = sm_max_sessions ?m"
      using p by simp_all
    moreover have "distinct (sm_sessions ?m)" "sm_max_sessions ?m = 4"
      using inv by (simp_all add: server_inv_def)
    ultimately show ?thesis using p False by simp
  qed
qed

lemma manager_start_heap:
  assumes "manager_start p (mh_of s) = (e, m, h)"
  shows "q \<noteq> p \<Longrightarrow> h q = sv_heap s q"
    and "server_inv s \<Longrightarrow> h q = Some ts \<Longrightarrow> session_ok ts"
  using assms
  by (auto simp: manager_start_def server_inv_def heap_stop_apply spawn_apply split: if_splits)

lemma inv_run_start:
  assumes inv: "server_inv s" and p: "p \<in> set (sv_pending s)"
  shows "server_inv (server_run_start p s)"
proof -
  let ?ss = "set (sm_sessions (sv_manager s))" and ?ps = "set (sv_pending s)"
  have nin: "p \<notin> ?ss" and lp: "live_in (mh_of s) p" and d: "distinct (sv_pending s)"
    using inv p by (auto simp: server_inv_def)
  obtain e m h where start: "manager_start p (mh_of s) = (e, m, h)"
    by (cases "manager_start p (mh_of s)") auto
  note m = manager_start_sessions [OF inv nin start] and heap = manager_start_heap [OF start]
  have live: "\<forall>q \<in> set (sm_sessions m). live_in (m, h) q"
    using mgr.start_keeps_live [of "mh_of s" p e "(m, h)"] inv nin lp start by (simp add: server_inv_def)
  have liveq: "live_in (m, h) q = live_in (mh_of s) q" if "q \<noteq> p" for q
    using heap(1) [OF that] by (simp add: live_in_def)
  have inv': "\<forall>q \<in> ?ps. live_in (mh_of s) q" "?ps \<inter> ?ss = {}"
    "\<And>q. live_in (mh_of s) q \<Longrightarrow> q \<in> ?ps \<union> ?ss"
    "\<forall>q \<in> ?ps. \<forall>ts. sv_heap s q = Some ts \<longrightarrow> ts_phase ts = not_started"
    using inv by (simp_all add: server_inv_def)
  have 1: "\<forall>q \<in> ?ps - {p}. live_in (m, h) q" using inv'(1) liveq by blast
  have 2: "(?ps - {p}) \<inter> set (sm_sessions m) = {}" using inv'(2) m by blast
  have 3: "q \<in> (?ps - {p}) \<union> set (sm_sessions m)" if l: "live_in (m, h) q" for q
  proof (cases "q = p")
    case True
    with l m show ?thesis by auto
  next
    case False
    with l liveq inv'(3) have "q \<in> ?ps \<union> ?ss" by simp
    with False m show ?thesis by auto
  qed
  have 4: "\<forall>q \<in> ?ps - {p}. \<forall>ts. h q = Some ts \<longrightarrow> ts_phase ts = not_started"
    using inv'(4) heap(1) by auto
  show ?thesis
    unfolding server_run_start_def start server_inv_def
    using m live d heap(2) [OF inv] 1 2 3 4 by (simp add: set_remove1_eq [OF d] distinct_remove1)
qed

lemma inv_accept:
  assumes inv: "server_inv s" and p: "sv_heap s p = None"
  shows "server_inv (server_accept p connected s)"
proof (cases connected)
  case False
  with inv show ?thesis by (simp add: server_accept_def server_inv_def)
next
  case True
  have "\<not> live_in (mh_of s) p" using p by (simp add: live_in_def)
  then have nin: "p \<notin> set (sv_pending s)" "p \<notin> set (sm_sessions (sv_manager s))"
    using inv by (auto simp: server_inv_def)
  have live: "live_in (sv_manager s, (sv_heap s)(p \<mapsto> new_tcp_session)) q \<longleftrightarrow> q = p \<or> live_in (mh_of s) q" for q
    by (simp add: live_in_update new_tcp_session_def)
  have new: "ts_phase new_tcp_session = not_started" "session_ok new_tcp_session"
    by (simp_all add: new_tcp_session_def session_ok_def)
  show ?thesis
    using inv nin live new True unfolding server_inv_def server_accept_def by simp
qed

lemma inv_server_stop:
  assumes "server_inv s"
  shows "server_inv (server_stop s)"
proof -
  obtain m h where mh: "manager_stop_all (mh_of s) = (m, h)" by (cases "manager_stop_all (mh_of s)")
  have m: "sm_sessions m = []" "sm_max_sessions m = sm_max_sessions (sv_manager s)"
    and h: "h = fold heap_stop (sm_sessions (sv_manager s)) (sv_heap s)"
    using mh by (auto simp: manager_stop_all_def)
  have live: "live_in (m, h) q \<longleftrightarrow> q \<notin> set (sm_sessions (sv_manager s)) \<and> live_in (mh_of s) q" for q
    using mgr.stop_all_closes [of "mh_of s" q] mh by simp
  have ok: "session_ok ts" if "h q = Some ts" for q ts
    using that assms h by (auto simp: server_inv_def fold_heap_stop_apply split: if_splits)
  have pend: "h q = sv_heap s q" if "q \<in> set (sv_pending s)" for q
    using that assms h by (auto simp: server_inv_def fold_heap_stop_apply)
  show ?thesis
    using assms m live ok pend unfolding server_inv_def server_stop_def
    by (simp add: mh) auto
qed

lemma of_buffer_fields:
  "tcp_data_unit_of_buffer b n ty = Inr du \<Longrightarrow> du = \<lparr>m_buffer = b, m_type = ty\<rparr>"
  by (auto simp: tcp_data_unit_of_buffer_def res_bind_def Let_def split: sum.splits if_splits)

lemma loop_test_simps [simp]:
  "ts_stop (loop_test ts) = ts_stop ts" "ts_open (loop_test ts) = ts_open ts"
  "session_ok (loop_test ts) \<longleftrightarrow> ts_stop ts \<or> length (ts_buf ts) = 256"
  by (simp_all add: loop_test_def session_ok_def)

lemma session_ok_phase [simp]:
  "session_ok (ts\<lparr>ts_phase := finished\<rparr>)" "session_ok (ts\<lparr>ts_phase := crashed\<rparr>)"
  "session_ok (ts\<lparr>ts_phase := handling req\<rparr>) \<longleftrightarrow> length (ts_buf ts) = 256 \<and> ts_read_err ts = None
     \<and> m_type req = request \<and> m_buffer req = ts_buf ts"
  "session_ok (ts\<lparr>ts_phase := writing resp\<rparr>) \<longleftrightarrow> length (ts_buf ts) = 256 \<and> ts_read_err ts = None"
  by (simp_all add: session_ok_def)

lemma inv_session_ok: "server_inv s \<Longrightarrow> sv_heap s p = Some ts \<Longrightarrow> session_ok ts"
  by (simp add: server_inv_def)

lemma inv_handler_state: "server_inv (s\<lparr>sv_handler := hs\<rparr>) = server_inv s"
  by (simp add: server_inv_def)

lemma inv_begin:
  assumes "server_inv s" "sv_heap s p = Some ts" "ts_phase ts = spawned"
  shows "server_inv (session_begin p connected ts s)"
  unfolding session_begin_def
  by (auto intro!: inv_set_session [OF assms(1,2)] simp: assms(3))

lemma inv_read_done:
  assumes "server_inv s" "sv_heap s p = Some ts" "ts_phase ts = reading" "length bs \<le> length (ts_buf ts)"
  shows "server_inv (session_read_done p err bs ts s)"
proof -
  have buf: "length (overwrite (ts_buf ts) 0 bs) = 256"
    using inv_session_ok [OF assms(1,2)] assms(3,4) by (simp add: session_ok_def)
  show ?thesis
    unfolding session_read_done_def Let_def using assms(3) buf
    by (auto intro!: inv_stop_and_break [OF assms(1,2)] inv_set_session [OF assms(1,2)]
        dest: of_buffer_fields split: sum.splits)
qed

lemma inv_handler_done:
  assumes "server_inv s" "sv_heap s p = Some ts" "ts_phase ts = handling req"
  shows "server_inv (session_handler_done p outcome ts s)"
proof -
  have ok: "length (ts_buf ts) = 256" "ts_read_err ts = None"
    using inv_session_ok [OF assms(1,2)] assms(3) by (simp_all add: session_ok_def)
  have "server_inv (set_session p (ts\<lparr>ts_phase := ph\<rparr>) (s\<lparr>sv_handler := hs\<rparr>))"
    if "session_ok (ts\<lparr>ts_phase := ph\<rparr>)" for ph hs
    by (rule inv_set_session [where ts = ts]) (use assms that in \<open>simp_all add: inv_handler_state\<close>)
  with ok show ?thesis
    by (auto simp: session_handler_done_def Let_def split: prod.splits sum.splits)
qed

lemma inv_write_done:
  assumes "server_inv s" "sv_heap s p = Some ts" "ts_phase ts = writing resp"
  shows "server_inv (session_write_done p err n resp ts s)"
proof -
  have "length (ts_buf ts) = 256"
    using inv_session_ok [OF assms(1,2)] assms(3) by (simp add: session_ok_def)
  then show ?thesis
    unfolding session_write_done_def Let_def using assms(3)
    by (auto intro!: inv_stop_and_break [OF assms(1,2)] inv_set_session [OF assms(1,2)])
qed

lemma inv_exec:
  assumes "server_inv s" "server_exec handler ev s = Some s'"
  shows "server_inv s'"
proof (cases ev)
  case (Handler_done p)
  with assms show ?thesis
    by (auto intro: inv_handler_done split: option.splits session_phase.splits)
next
  case (Write_done p err n)
  with assms show ?thesis
    by (auto intro: inv_write_done split: option.splits session_phase.splits if_splits)
next
  case (Listen ok)
  with assms show ?thesis by (auto simp: server_listen_def server_inv_def)
next
  case (Accept_error err)
  with assms show ?thesis by (auto simp: server_accept_error_def server_inv_def split: if_splits)
qed (use assms in \<open>auto intro: inv_begin inv_read_done inv_accept inv_run_start inv_server_stop
      split: option.splits if_splits\<close>)

lemma inv_init: "server_inv (new_tcp_server config hs)"
  by (simp add: server_inv_def new_tcp_server_def new_tcp_session_manager_def live_in_def
      DEFAULT_SERVER_MAX_CONNECTIONS_def)

lemma reachable_inv: "reachable handler config hs s \<Longrightarrow> server_inv s"
  by (induction rule: reachable.induct) (auto intro: inv_init inv_exec)

interpretation srv: transition_system "server_exec handler" server_inv for handler
  by unfold_locales (rule inv_exec)

interpretation rch: transition_system "server_exec handler" "reachable handler config hs" for handler config hs
  by unfold_locales (rule reach_step)

lemma reachable_run:
  "reachable handler config hs s \<Longrightarrow> server_run handler evs s = Some s' \<Longrightarrow> reachable handler config hs s'"
  unfolding server_run_def by (rule rch.run_inv)

inductive_cases reachableE: "reachable handler config hs s"

text \<open>A read that delivers all the bytes its length field announces.\<close>

definition complete :: "uint8 list \<Rightarrow> bool" where
  "complete bs \<longleftrightarrow> 256 * unat (bs ! 4) + unat (bs ! 5) + 6 \<le> length bs"

lemma of_buffer_received:
  assumes "10 \<le> length bs" "length bs \<le> length buf" "length bs < 2 ^ 31"
  shows "tcp_data_unit_of_buffer (overwrite buf 0 bs) (of_nat (length bs)) ty =
    (if complete bs then Inr \<lparr>m_buffer = overwrite buf 0 bs, m_type = ty\<rparr> else Inl out_of_range)"
proof -
  let ?b = "overwrite buf 0 bs"
  have b: "?b ! 4 = bs ! 4" "?b ! 5 = bs ! 5" "6 \<le> length ?b"
    using assms by (auto simp: overwrite_def nth_append)
  have "\<not> int (length bs) - 6 \<le> 0" using assms(1) by linarith
  moreover have "int (length bs) - 6 < int l \<longleftrightarrow> \<not> l + 6 \<le> length bs" for l by linarith
  ultimately show ?thesis
    unfolding tcp_data_unit_of_buffer_def TCP_HEADER_SIZE_def length_field_int complete_def
    using data_length_int [OF assms(3)] b by (simp add: vec_simps Let_def del: of_nat_add of_nat_mult)
qed

subsection \<open>A small server for concrete runs\<close>

text \<open>A handler that sends every request back, and a run in which a client connects and sends a
  request.\<close>

definition echo_handler :: "unit request_handler_t" where
  "echo_handler req hs = (Inr req, hs)"

definition demo_server :: "unit tcp_server" where
  "demo_server = new_tcp_server server_config_default ()"

definition demo_events :: "server_event list" where
  "demo_events = [Listen True, Accept 1 True, Run_start 1, Begin 1 True,
     Read_done 1 None [0, 7, 0, 0, 0, 6, 1, 3, 0, 0, 0, 1]]"

lemma demo_run: "server_run echo_handler demo_events demo_server \<noteq> None"
  by code_simp

lemma demo_reachable:
  "reachable echo_handler server_config_default () (the (server_run echo_handler demo_events demo_server))"
  using demo_run reachable_run [OF reach_init] by (auto simp: demo_server_def)

lemma demo_handling:
  "\<exists>ts req. sv_heap (the (server_run echo_handler demo_events demo_server)) 1 = Some ts
    \<and> ts_phase ts = handling req"
proof -
  have "case sv_heap (the (server_run echo_handler demo_events demo_server)) 1 of
      None \<Rightarrow> False | Some ts \<Rightarrow> (case ts_phase ts of handling req \<Rightarrow> True | _ \<Rightarrow> False)"
    by code_simp
  then show ?thesis by (auto split: option.splits session_phase.splits)
qed

subsection \<open>Properties\<close>

text \<open>C7: in every reachable state of the server, whatever the order of connections, messages, errors and
  stops: at most five sessions are registered, none twice; the registered and the pending sessions are
  exactly the ones that are live (not asked to stop, socket open); and no session is both.\<close>

theorem server_session_invariant:
  assumes "reachable handler config hs s"
  shows "distinct (sm_sessions (sv_manager s)) \<and> length (sm_sessions (sv_manager s)) \<le> 5
    \<and> {p. live_in (sv_manager s, sv_heap s) p} = set (sv_pending s) \<union> set (sm_sessions (sv_manager s))
    \<and> set (sv_pending s) \<inter> set (sm_sessions (sv_manager s)) = {}"
  using reachable_inv [OF assms] by (auto simp: server_inv_def)

theorem server_session_invariant_witness:
  "length (sm_sessions (sv_manager (the (server_run echo_handler demo_events demo_server)))) \<le> 5"
  using server_session_invariant [OF demo_reachable] by blast

text \<open>C31: stopping the server closes every session that is registered; the only sessions still live
  afterwards are those accepted whose start is pending.\<close>

theorem server_stop_closes_sessions:
  assumes "reachable handler config hs s"
  shows "sm_sessions (sv_manager (server_stop s)) = []
    \<and> {p. live_in (sv_manager (server_stop s), sv_heap (server_stop s)) p} = set (sv_pending s)
    \<and> sv_stop (server_stop s) \<and> \<not> sv_acceptor_open (server_stop s)"
proof -
  have "server_inv (server_stop s)" using inv_server_stop reachable_inv [OF assms] by blast
  moreover have "sm_sessions (sv_manager (server_stop s)) = []" "sv_pending (server_stop s) = sv_pending s"
    "sv_stop (server_stop s)" "\<not> sv_acceptor_open (server_stop s)"
    by (simp_all add: server_stop_def manager_stop_all_def) (simp add: set_manager_def)
  ultimately show ?thesis by (auto simp: server_inv_def)
qed

theorem server_stop_closes_sessions_witness:
  "sm_sessions (sv_manager (server_stop (the (server_run echo_handler demo_events demo_server)))) = []"
  by (rule server_stop_closes_sessions [OF demo_reachable, THEN conjunct1])

text \<open>C30: a request reaches the handler only as the whole receive buffer of 256 bytes, marked as a
  request; so taking any request of fixed size out of it, with \<open>pdu<T>\<close>, never reads outside the
  buffer.\<close>

theorem handler_requests_safe:
  assumes "reachable handler config hs s" "sv_heap s p = Some ts" "ts_phase ts = handling req"
  shows "length (du_buffer req) = MAX_APU_SIZE \<and> du_type req = request
    \<and> (\<exists>m. pdu read_coils_request_function_code request read_coils_request_of_iterator req = Inr m)
    \<and> (\<exists>m. pdu read_discrete_inputs_request_function_code request
          read_discrete_inputs_request_of_iterator req = Inr m)
    \<and> (\<exists>m. pdu read_holding_registers_request_function_code request
          read_holding_registers_request_of_iterator req = Inr m)
    \<and> (\<exists>m. pdu read_input_registers_request_function_code request
          read_input_registers_request_of_iterator req = Inr m)
    \<and> (\<exists>m. pdu write_single_coil_request_function_code request write_single_coil_request_of_iterator req = Inr m)
    \<and> (\<exists>m. pdu write_single_register_request_function_code request
          write_single_register_request_of_iterator req = Inr m)
    \<and> (\<exists>m. pdu mask_write_register_request_function_code request
          mask_write_register_request_of_iterator req = Inr m)"
proof -
  have len: "length (m_buffer req) = 256" and ty: "m_type req = request"
    using inv_session_ok [OF reachable_inv [OF assms(1)] assms(2)] assms(3)
    by (simp_all add: session_ok_def)
  have "\<exists>m. pdu fc request parser req = Inr m" if "parser (m_buffer req, 6) \<noteq> None"
    for fc and parser :: "const_buffer_iterator \<Rightarrow> 'm option"
    using len that by (auto simp: pdu_def parse_pdu_def du_defs vec_at_def res_bind_def)
  note safe = this
  show ?thesis
    using len ty unfolding du_buffer_def du_type_def
    by (intro conjI safe rcq.of_iterator_width [THEN iffD2] rdq.of_iterator_width [THEN iffD2]
        rhq.of_iterator_width [THEN iffD2] riq.of_iterator_width [THEN iffD2]
        scq.of_iterator_width [THEN iffD2] srq.of_iterator_width [THEN iffD2]
        mwq.of_iterator_width [THEN iffD2]) simp_all
qed

theorem handler_requests_safe_witness:
  "\<exists>ts req. sv_heap (the (server_run echo_handler demo_events demo_server)) 1 = Some ts
    \<and> ts_phase ts = handling req \<and> length (du_buffer req) = MAX_APU_SIZE"
proof -
  obtain ts req where ts: "sv_heap (the (server_run echo_handler demo_events demo_server)) 1 = Some ts"
    "ts_phase ts = handling req"
    using demo_handling by blast
  from handler_requests_safe [OF demo_reachable this] ts show ?thesis by blast
qed

text \<open>A session that reads a request and whose handler answers it, before and after the answer is written.\<close>

lemma session_run_handler:
  assumes "sv_heap s p = Some ts" "ts_phase ts = reading" "length (ts_buf ts) = MAX_APU_SIZE"
    and "4 \<le> length xs" "length xs \<le> 250" "bs = mbap tid (length xs) @ xs"
    and "req = \<lparr>m_buffer = bs @ drop (6 + length xs) (ts_buf ts), m_type = request\<rparr>"
    and "handler req (sv_handler s) = (Inr resp, hs)"
  shows "server_run handler [Read_done p None bs, Handler_done p] s =
    Some (set_session p (ts\<lparr>ts_buf := m_buffer req, ts_read_err := None, ts_phase := writing resp\<rparr>)
      (s\<lparr>sv_handler := hs\<rparr>))"
proof -
  let ?ts1 = "ts\<lparr>ts_buf := m_buffer req, ts_read_err := None, ts_phase := handling req\<rparr>"
  have buf: "overwrite (ts_buf ts) 0 bs = m_buffer req"
    using assms(6,7) by (simp add: overwrite_def)
  have len: "length bs = 6 + length xs" using assms(6) by simp
  have "0 < length xs" using assms(4) by linarith
  then have "tcp_data_unit_of_buffer (m_buffer req) (of_nat (6 + length xs)) request = Inr req"
    using of_buffer_mbap [of "length xs" tid "xs @ drop (6 + length xs) (ts_buf ts)" request] assms(4-7)
    by simp
  then have "server_exec handler (Read_done p None bs) s = Some (set_session p ?ts1 s)"
    using assms(1-5) len by (simp add: session_read_done_def Let_def buf)
  then show ?thesis
    using assms(8) by (simp add: session_handler_done_def Let_def) (simp add: set_session_def)
qed

lemma session_run_request:
  assumes "sv_heap s p = Some ts" "ts_phase ts = reading" "\<not> ts_stop ts" "length (ts_buf ts) = MAX_APU_SIZE"
    and "4 \<le> length xs" "length xs \<le> 250" "bs = mbap tid (length xs) @ xs"
    and "req = \<lparr>m_buffer = bs @ drop (6 + length xs) (ts_buf ts), m_type = request\<rparr>"
    and "handler req (sv_handler s) = (Inr resp, hs)"
  shows "server_run handler [Read_done p None bs, Handler_done p, Write_done p None (length (du_buffer resp))] s =
      Some (set_session p (ts\<lparr>ts_buf := m_buffer req, ts_read_err := None, ts_sent := ts_sent ts @ du_buffer resp,
          ts_phase := reading\<rparr>) (s\<lparr>sv_handler := hs\<rparr>))"
  using session_run_handler [where handler = handler, OF assms(1,2,4-9)] assms(3)
  by (auto simp: session_write_done_def Let_def loop_test_def set_session_def split: option.splits)

text \<open>A session serves a request: when a read delivers exactly one well-formed message (header,
  length field and 4 to 250 bytes), the handler answers and the write takes the whole answer, then the
  handler got a data unit with the message's transaction id and bytes, the answer has been sent after
  what was sent before, and the session waits for the next request.\<close>

lemma session_serves_request:
  assumes "sv_heap s p = Some ts" "ts_phase ts = reading" "\<not> ts_stop ts" "length (ts_buf ts) = MAX_APU_SIZE"
    and "4 \<le> length xs" "length xs \<le> 250" "bs = mbap tid (length xs) @ xs"
    and "req = \<lparr>m_buffer = bs @ drop (6 + length xs) (ts_buf ts), m_type = request\<rparr>"
    and "handler req (sv_handler s) = (Inr resp, hs)"
  shows "\<exists>s'. server_run handler [Read_done p None bs, Handler_done p,
        Write_done p None (length (du_buffer resp))] s = Some s'
    \<and> transaction_id req = Inr tid \<and> take (6 + length xs) (du_buffer req) = bs
    \<and> sv_handler s' = hs \<and> sv_manager s' = sv_manager s
    \<and> (\<exists>ts'. sv_heap s' p = Some ts' \<and> ts_phase ts' = reading \<and> \<not> ts_stop ts'
        \<and> ts_sent ts' = ts_sent ts @ du_buffer resp)"
  using session_run_request [where handler = handler, OF assms] assms(2,3,7,8) by (simp add: du_buffer_def)

text \<open>C39: a message whose length field announces more bytes than the read delivered, a request that TCP
  split in two for example, is never passed to the handler, and nothing is answered. If the read delivered at
  least 10 bytes, the constructor of the data unit throws: the session's coroutine ends, the session stays
  registered, its socket stays open, and nothing reads from it any more. If it delivered 6 to 9 bytes, they are
  dropped as a malformed message and the session goes on to read, so the rest of the request is taken
  for the beginning of the next message.\<close>

theorem split_request_not_served:
  assumes "sv_heap s p = Some ts" "ts_phase ts = reading" "length (ts_buf ts) = MAX_APU_SIZE"
    and "6 \<le> length bs" "length bs \<le> MAX_APU_SIZE"
    and "length bs < 6 + 256 * unat (bs ! 4) + unat (bs ! 5)"
  shows "\<exists>s' ts'. server_exec handler (Read_done p None bs) s = Some s'
    \<and> sv_manager s' = sv_manager s \<and> sv_handler s' = sv_handler s \<and> sv_heap s' p = Some ts'
    \<and> ts_stop ts' = ts_stop ts \<and> ts_open ts' = ts_open ts \<and> ts_sent ts' = ts_sent ts
    \<and> (if length bs < 10 then ts_phase ts' = (if ts_stop ts then finished else reading)
       else ts_phase ts' = crashed \<and> (\<forall>err bs'. server_exec handler (Read_done p err bs') s' = None))"
proof (cases "length bs < 10")
  case True
  then show ?thesis using assms by (simp add: session_read_done_def Let_def loop_test_def)
next
  case False
  let ?b = "overwrite (ts_buf ts) 0 bs"
  have "10 \<le> length bs" "length bs \<le> length (ts_buf ts)" "length bs < 2 ^ 31" using False assms(3,5) by simp_all
  then have "tcp_data_unit_of_buffer ?b (of_nat (length bs)) request = Inl out_of_range"
    using of_buffer_received [of bs] assms(6) by (simp add: complete_def)
  then have "server_exec handler (Read_done p None bs) s =
      Some (set_session p (ts\<lparr>ts_buf := ?b, ts_read_err := None, ts_phase := crashed\<rparr>) s)"
    using assms(1-5) False by (simp add: session_read_done_def Let_def)
  then show ?thesis using False by simp
qed

theorem split_request_not_served_witness:
  "(\<exists>s' ts'. server_exec echo_handler (Read_done 1 None [0, 7, 0, 0, 0, 8, 1, 16, 0, 0])
      (set_session 1 (new_tcp_session\<lparr>ts_phase := reading, ts_buf := replicate MAX_APU_SIZE 0\<rparr>) demo_server) =
        Some s' \<and> sv_heap s' 1 = Some ts' \<and> ts_phase ts' = crashed \<and> ts_open ts')
   \<and> (\<exists>s' ts'. server_exec echo_handler (Read_done 1 None [0, 7, 0, 0, 0, 8, 1])
      (set_session 1 (new_tcp_session\<lparr>ts_phase := reading, ts_buf := replicate MAX_APU_SIZE 0\<rparr>) demo_server) =
        Some s' \<and> sv_heap s' 1 = Some ts' \<and> ts_phase ts' = reading \<and> ts_open ts')"
  using split_request_not_served [of "set_session 1 (new_tcp_session\<lparr>ts_phase := reading,
      ts_buf := replicate MAX_APU_SIZE 0\<rparr>) demo_server" 1 "new_tcp_session\<lparr>ts_phase := reading,
      ts_buf := replicate MAX_APU_SIZE 0\<rparr>" "[0, 7, 0, 0, 0, 8, 1, 16, 0, 0]" echo_handler]
    split_request_not_served [of "set_session 1 (new_tcp_session\<lparr>ts_phase := reading,
      ts_buf := replicate MAX_APU_SIZE 0\<rparr>) demo_server" 1 "new_tcp_session\<lparr>ts_phase := reading,
      ts_buf := replicate MAX_APU_SIZE 0\<rparr>" "[0, 7, 0, 0, 0, 8, 1]" echo_handler]
  by (auto simp: new_tcp_session_def)

text \<open>When the client closes the connection or the read fails otherwise, the session ends, leaves the
  registry and closes its socket; other sessions are not touched.\<close>

lemma disconnect_ends_session:
  assumes "sv_heap s p = Some ts" "ts_phase ts = reading" "length bs \<le> length (ts_buf ts)"
    and "e \<noteq> operation_aborted"
  shows "\<exists>s' ts'. server_exec handler (Read_done p (Some e) bs) s = Some s'
    \<and> set (sm_sessions (sv_manager s')) = set (sm_sessions (sv_manager s)) - {p}
    \<and> sv_heap s' p = Some ts' \<and> ts_phase ts' = finished \<and> ts_stop ts' \<and> \<not> ts_open ts'
    \<and> (\<forall>q. q \<noteq> p \<longrightarrow> sv_heap s' q = sv_heap s q)"
  using assms
  by (auto simp: session_read_done_def Let_def stop_and_break_def manager_stop_def heap_stop_apply)

text \<open>The limit on sessions is off by one. With the default limit of four, a fifth session is
  registered and only the sixth is refused and closed; \<open>max_connections\<close> of the configuration is not
  used.\<close>

lemma five_sessions_admitted:
  "\<exists>s. server_run echo_handler (Listen True # concat (map (\<lambda>p. [Accept p True, Run_start p]) [1, 2, 3, 4, 5, 6]))
      (new_tcp_server (server_set_max_connections 1 server_config_default) ()) = Some s
    \<and> max_sessions (sv_manager s) = 4 \<and> set (sm_sessions (sv_manager s)) = {1, 2, 3, 4, 5}
    \<and> \<not> live_in (sv_manager s, sv_heap s) 6"
proof -
  let ?r = "server_run echo_handler (Listen True # concat (map (\<lambda>p. [Accept p True, Run_start p]) [1, 2, 3, 4, 5, 6]))
      (new_tcp_server (server_set_max_connections 1 server_config_default) ())"
  have "case ?r of None \<Rightarrow> False | Some s \<Rightarrow> max_sessions (sv_manager s) = 4
    \<and> sm_sessions (sv_manager s) = [5, 4, 3, 2, 1] \<and> \<not> live_in (sv_manager s, sv_heap s) 6"
    by code_simp
  then obtain s where s: "?r = Some s" "max_sessions (sv_manager s) = 4"
      "sm_sessions (sv_manager s) = [5, 4, 3, 2, 1]" "\<not> live_in (sv_manager s, sv_heap s) 6"
    by (rule case_option_trueE) blast
  moreover have "set (sm_sessions (sv_manager s)) = {1, 2, 3, 4, 5}" using s(3) by auto
  ultimately show ?thesis by blast
qed

text \<open>A connection accepted just before \<open>stop()\<close>, whose start is still pending, is registered and
  served after the server has been stopped.\<close>

lemma session_survives_stop:
  "\<exists>s ts. server_run echo_handler [Listen True, Accept 1 True, Server_stop, Run_start 1, Begin 1 True]
      (new_tcp_server server_config_default ()) = Some s
    \<and> sv_stop s \<and> sm_sessions (sv_manager s) = [1] \<and> sv_heap s 1 = Some ts \<and> ts_phase ts = reading"
proof -
  let ?r = "server_run echo_handler [Listen True, Accept 1 True, Server_stop, Run_start 1, Begin 1 True]
      (new_tcp_server server_config_default ())"
  have "case ?r of None \<Rightarrow> False | Some s \<Rightarrow> sv_stop s \<and> sm_sessions (sv_manager s) = [1]
    \<and> (case sv_heap s 1 of None \<Rightarrow> False | Some ts \<Rightarrow> ts_phase ts = reading)"
    by code_simp
  then obtain s where s: "?r = Some s" "sv_stop s" "sm_sessions (sv_manager s) = [1]"
      "case sv_heap s 1 of None \<Rightarrow> False | Some ts \<Rightarrow> ts_phase ts = reading"
    by (rule case_option_trueE) blast
  from s(4) obtain ts where "sv_heap s 1 = Some ts" "ts_phase ts = reading"
    by (rule case_option_trueE)
  with s(1-3) show ?thesis by blast
qed

text \<open>A client that is gone by the time its connection is accepted ends the accept loop by an exception:
  the server is not stopped, and accepts nothing any more.\<close>

lemma vanished_client_ends_accept_loop:
  assumes "sv_accepting s" "sv_heap s p = None"
  shows "\<exists>s'. server_exec handler (Accept p False) s = Some s' \<and> sv_stop s' = sv_stop s
    \<and> (\<forall>q connected. server_exec handler (Accept q connected) s' = None)"
  using assms by (simp add: server_accept_def)

end
