(* ===== verification/Example_Server.thy ===== *)
theory Example_Server
  imports Server_Helper Modbus_Requests Modbus_Responses Tcp_Server
begin

text \<open>
  The request handlers of test/tcp_server_test.cpp: \<open>request_handler\<close>, a server with four memories that uses
  all of server/server_helper.hpp, \<open>false_handler\<close> and \<open>slow_handler\<close>. They are the handlers a
  \<open>tcp_server\<close> is run with, so the type is the \<open>request_handler_t\<close> of \<open>Tcp_Server\<close>.

  A branch of \<open>request_handler::operator()\<close> gives the answer and the handler after it. The memory of a call
  that fails is left as it was: what can fail after a write to it has started is undefined behaviour. The mutex
  makes the access to the memory one step; log lines are left out, and the pause of \<open>slow_handler\<close> is in
  \<open>Suspending_Handlers\<close>.
\<close>

subsection \<open>The handler\<close>

record request_handler =
  memorySpace :: "buffer_t list"
  validAddresses :: "buffer_t list"

definition new_request_handler :: request_handler where
  "new_request_handler =
     \<lparr>memorySpace =
       [[0x9A, 0xA9, 0x01],
        [0xA9, 0x9A, 0x06],
        [0x0F, 0xF0, 0x0F, 0xF0, 0x00, 0x00, 0x0F, 0xF0],
        [0xF0, 0x0F, 0xF0, 0x0F, 0x00, 0x00, 0xF0, 0x0F]],
      validAddresses =
       [[0xFF, 0xFF, 0x07],
        [0xFF, 0xFF, 0x07],
        [0x0B],
        [0x0B]]\<rparr>"

text \<open>\<open>co_return tcp_data_unit(transaction_id, exception_response(unit_id, function_code, code))\<close>.\<close>

definition exception_answer :: "uint16 \<Rightarrow> uint8 \<Rightarrow> function_code_t \<Rightarrow> exception_code_enum \<Rightarrow> tcp_data_unit result" where
  "exception_answer tid uid fc code =
     ub (tcp_data_unit_of_pdu exception_response_size exception_response_serialize exception_response_type tid
           (new_exception_response uid fc (exception_code_value code)))"

text \<open>What every branch starts with: no request in the data unit is a \<open>server_device_failure\<close>, a request for an
  address that is not valid an \<open>illegal_data_address\<close>. \<open>act\<close> is the rest of the branch.\<close>

definition with_legal_request ::
  "uint16 \<Rightarrow> uint8 \<Rightarrow> function_code_t \<Rightarrow> 'm option result \<Rightarrow> ('m \<Rightarrow> uint16) \<Rightarrow> ('m \<Rightarrow> int) \<Rightarrow> nat \<Rightarrow> request_handler \<Rightarrow>
   ('m \<Rightarrow> buffer_t \<Rightarrow> (tcp_data_unit \<times> request_handler) result) \<Rightarrow> (tcp_data_unit \<times> request_handler) result" where
  "with_legal_request tid uid fc optionalRequest address count dataRow h act =
     res_bind optionalRequest (\<lambda>r. case r of
       None \<Rightarrow> res_bind (exception_answer tid uid fc server_device_failure) (\<lambda>du. Inr (du, h))
     | Some q \<Rightarrow>
         res_bind (create_request_bit_map (uint (address q)) (count q)) (\<lambda>requestBitmap.
         res_bind (ub (vec_get (validAddresses h) dataRow)) (\<lambda>valid.
         res_bind (legal_address valid requestBitmap (uint (address q))) (\<lambda>legal.
         if \<not> legal
         then res_bind (exception_answer tid uid fc illegal_data_address) (\<lambda>du. Inr (du, h))
         else act q requestBitmap))))"

text \<open>The ways the branches end: the answer alone, the answer after a change to the memory of a row, and the
  answer with what was copied from a row.\<close>

definition answer_with :: "tcp_data_unit option \<Rightarrow> request_handler \<Rightarrow> (tcp_data_unit \<times> request_handler) result" where
  "answer_with answer h = res_bind (ub answer) (\<lambda>du. Inr (du, h))"

definition on_row ::
  "nat \<Rightarrow> request_handler \<Rightarrow> (buffer_t \<Rightarrow> buffer_t result) \<Rightarrow> tcp_data_unit option \<Rightarrow>
   (tcp_data_unit \<times> request_handler) result" where
  "on_row dataRow h change answer =
     res_bind (ub (vec_get (memorySpace h) dataRow)) (\<lambda>data.
     res_bind (change data) (\<lambda>data.
     answer_with answer (h\<lparr>memorySpace := (memorySpace h)[dataRow := data]\<rparr>)))"

definition from_row ::
  "nat \<Rightarrow> request_handler \<Rightarrow> (buffer_t \<Rightarrow> buffer_t result) \<Rightarrow> (buffer_t \<Rightarrow> tcp_data_unit option) \<Rightarrow>
   (tcp_data_unit \<times> request_handler) result" where
  "from_row dataRow h copy answer =
     res_bind (ub (vec_get (memorySpace h) dataRow)) (\<lambda>data.
     res_bind (copy data) (\<lambda>inputs. answer_with (answer inputs) h))"

definition read_discrete_inputs_act ::
  "uint16 \<Rightarrow> uint8 \<Rightarrow> request_handler \<Rightarrow> read_discrete_inputs_request \<Rightarrow> buffer_t \<Rightarrow> (tcp_data_unit \<times> request_handler) result" where
  "read_discrete_inputs_act tid uid h q bm =
     from_row 1 h
     (\<lambda>data. copy_data_bits data bm (uint (read_discrete_inputs_request.start_address q))
        (uint (read_discrete_inputs_request.len q)))
     (\<lambda>inputs. tcp_data_unit_of_pdu read_discrete_inputs_response_size read_discrete_inputs_response_serialize
        read_discrete_inputs_response_type tid (new_read_discrete_inputs_response uid inputs))"

definition handle_read_discrete_inputs ::
  "tcp_data_unit \<Rightarrow> function_code_t \<Rightarrow> uint16 \<Rightarrow> uint8 \<Rightarrow> request_handler \<Rightarrow> (tcp_data_unit \<times> request_handler) result" where
  "handle_read_discrete_inputs req fc tid uid h =
     with_legal_request tid uid fc
       (pdu read_discrete_inputs_request_function_code read_discrete_inputs_request_type
          read_discrete_inputs_request_of_iterator req)
       read_discrete_inputs_request.start_address (\<lambda>q. uint (read_discrete_inputs_request.len q)) 1 h
       (read_discrete_inputs_act tid uid h)"

definition read_coils_act ::
  "uint16 \<Rightarrow> uint8 \<Rightarrow> request_handler \<Rightarrow> read_coils_request \<Rightarrow> buffer_t \<Rightarrow> (tcp_data_unit \<times> request_handler) result" where
  "read_coils_act tid uid h q bm =
     from_row 0 h
     (\<lambda>data. copy_data_bits data bm (uint (read_coils_request.start_address q))
        (uint (read_coils_request.len q)))
     (\<lambda>inputs. tcp_data_unit_of_pdu read_coils_response_size read_coils_response_serialize
        read_coils_response_type tid (new_read_coils_response uid inputs))"

definition handle_read_coils ::
  "tcp_data_unit \<Rightarrow> function_code_t \<Rightarrow> uint16 \<Rightarrow> uint8 \<Rightarrow> request_handler \<Rightarrow> (tcp_data_unit \<times> request_handler) result" where
  "handle_read_coils req fc tid uid h =
     with_legal_request tid uid fc
       (pdu read_coils_request_function_code read_coils_request_type read_coils_request_of_iterator req)
       read_coils_request.start_address (\<lambda>q. uint (read_coils_request.len q)) 0 h
       (read_coils_act tid uid h)"

text \<open>A coil is written only when it is switched on. The answer mirrors the request.\<close>

definition write_single_coil_act ::
  "uint16 \<Rightarrow> uint8 \<Rightarrow> request_handler \<Rightarrow> write_single_coil_request \<Rightarrow> buffer_t \<Rightarrow> (tcp_data_unit \<times> request_handler) result" where
  "write_single_coil_act tid uid h q bm =
     (let answer = tcp_data_unit_of_pdu write_single_coil_request_size
            write_single_coil_request_serialize write_single_coil_request_type tid q
      in if write_single_coil_request.coil_value q = True
         then on_row 0 h (\<lambda>data. write_coil data (write_single_coil_request.coil_value q)
                (uint (write_single_coil_request.start_address q))) answer
         else answer_with answer h)"

definition handle_write_single_coil ::
  "tcp_data_unit \<Rightarrow> function_code_t \<Rightarrow> uint16 \<Rightarrow> uint8 \<Rightarrow> request_handler \<Rightarrow> (tcp_data_unit \<times> request_handler) result" where
  "handle_write_single_coil req fc tid uid h =
     with_legal_request tid uid fc
       (pdu write_single_coil_request_function_code write_single_coil_request_type
          write_single_coil_request_of_iterator req)
       write_single_coil_request.start_address (\<lambda>q. 1) 0 h
       (write_single_coil_act tid uid h)"

definition write_multiple_coils_act ::
  "uint16 \<Rightarrow> uint8 \<Rightarrow> request_handler \<Rightarrow> write_multiple_coils_request \<Rightarrow> buffer_t \<Rightarrow> (tcp_data_unit \<times> request_handler) result" where
  "write_multiple_coils_act tid uid h q bm =
     on_row 0 h
     (\<lambda>data. write_coils data bm (write_multiple_coils_request.vals q)
        (uint (write_multiple_coils_request.start_address q)))
     (tcp_data_unit_of_pdu write_multiple_coils_response_size write_multiple_coils_response_serialize
        write_multiple_coils_response_type tid
        (new_write_multiple_coils_response uid (write_multiple_coils_request.start_address q)
           (write_multiple_coils_request.len q)))"

definition handle_write_multiple_coils ::
  "tcp_data_unit \<Rightarrow> function_code_t \<Rightarrow> uint16 \<Rightarrow> uint8 \<Rightarrow> request_handler \<Rightarrow> (tcp_data_unit \<times> request_handler) result" where
  "handle_write_multiple_coils req fc tid uid h =
     with_legal_request tid uid fc
       (pdu write_multiple_coils_request_function_code write_multiple_coils_request_type
          write_multiple_coils_request_of_iterator req)
       write_multiple_coils_request.start_address (\<lambda>q. uint (write_multiple_coils_request.len q)) 0 h
       (write_multiple_coils_act tid uid h)"

definition read_holding_registers_act ::
  "uint16 \<Rightarrow> uint8 \<Rightarrow> request_handler \<Rightarrow> read_holding_registers_request \<Rightarrow> buffer_t \<Rightarrow> (tcp_data_unit \<times> request_handler) result" where
  "read_holding_registers_act tid uid h q bm =
     from_row 2 h
     (\<lambda>data. copy_data_registers data (uint (read_holding_registers_request.start_address q))
        (uint (read_holding_registers_request.len q)))
     (\<lambda>inputs. tcp_data_unit_of_pdu read_holding_registers_response_size
        read_holding_registers_response_serialize read_holding_registers_response_type tid
        (new_read_holding_registers_response uid inputs))"

definition handle_read_holding_registers ::
  "tcp_data_unit \<Rightarrow> function_code_t \<Rightarrow> uint16 \<Rightarrow> uint8 \<Rightarrow> request_handler \<Rightarrow> (tcp_data_unit \<times> request_handler) result" where
  "handle_read_holding_registers req fc tid uid h =
     with_legal_request tid uid fc
       (pdu read_holding_registers_request_function_code read_holding_registers_request_type
          read_holding_registers_request_of_iterator req)
       read_holding_registers_request.start_address (\<lambda>q. uint (read_holding_registers_request.len q)) 2 h
       (read_holding_registers_act tid uid h)"

definition read_input_registers_act ::
  "uint16 \<Rightarrow> uint8 \<Rightarrow> request_handler \<Rightarrow> read_input_registers_request \<Rightarrow> buffer_t \<Rightarrow> (tcp_data_unit \<times> request_handler) result" where
  "read_input_registers_act tid uid h q bm =
     from_row 3 h
     (\<lambda>data. copy_data_registers data (uint (read_input_registers_request.start_address q))
        (uint (read_input_registers_request.len q)))
     (\<lambda>inputs. tcp_data_unit_of_pdu read_input_registers_response_size
        read_input_registers_response_serialize read_input_registers_response_type tid
        (new_read_input_registers_response uid inputs))"

definition handle_read_input_registers ::
  "tcp_data_unit \<Rightarrow> function_code_t \<Rightarrow> uint16 \<Rightarrow> uint8 \<Rightarrow> request_handler \<Rightarrow> (tcp_data_unit \<times> request_handler) result" where
  "handle_read_input_registers req fc tid uid h =
     with_legal_request tid uid fc
       (pdu read_input_registers_request_function_code read_input_registers_request_type
          read_input_registers_request_of_iterator req)
       read_input_registers_request.start_address (\<lambda>q. uint (read_input_registers_request.len q)) 3 h
       (read_input_registers_act tid uid h)"

definition write_single_register_act ::
  "uint16 \<Rightarrow> uint8 \<Rightarrow> request_handler \<Rightarrow> write_single_register_request \<Rightarrow> buffer_t \<Rightarrow> (tcp_data_unit \<times> request_handler) result" where
  "write_single_register_act tid uid h q bm =
     on_row 2 h
     (\<lambda>data. write_register (write_single_register_request.reg_value q) data
        (uint (write_single_register_request.start_address q)))
     (tcp_data_unit_of_pdu write_single_register_request_size write_single_register_request_serialize
        write_single_register_request_type tid q)"

definition handle_write_single_register ::
  "tcp_data_unit \<Rightarrow> function_code_t \<Rightarrow> uint16 \<Rightarrow> uint8 \<Rightarrow> request_handler \<Rightarrow> (tcp_data_unit \<times> request_handler) result" where
  "handle_write_single_register req fc tid uid h =
     with_legal_request tid uid fc
       (pdu write_single_register_request_function_code write_single_register_request_type
          write_single_register_request_of_iterator req)
       write_single_register_request.start_address (\<lambda>q. 1) 2 h
       (write_single_register_act tid uid h)"

text \<open>The answer to a write of several registers is the whole request again.\<close>

definition write_multiple_registers_act ::
  "uint16 \<Rightarrow> uint8 \<Rightarrow> request_handler \<Rightarrow> write_multiple_registers_request \<Rightarrow> buffer_t \<Rightarrow> (tcp_data_unit \<times> request_handler) result" where
  "write_multiple_registers_act tid uid h q bm =
     on_row 2 h
     (\<lambda>data. write_registers (write_multiple_registers_request.vals q) data
        (uint (write_multiple_registers_request.start_address q)) (uint (write_multiple_registers_request.len q)))
     (tcp_data_unit_of_pdu write_multiple_registers_request_size write_multiple_registers_request_serialize
        write_multiple_registers_request_type tid q)"

definition handle_write_multiple_registers ::
  "tcp_data_unit \<Rightarrow> function_code_t \<Rightarrow> uint16 \<Rightarrow> uint8 \<Rightarrow> request_handler \<Rightarrow> (tcp_data_unit \<times> request_handler) result" where
  "handle_write_multiple_registers req fc tid uid h =
     with_legal_request tid uid fc
       (pdu write_multiple_registers_request_function_code write_multiple_registers_request_type
          write_multiple_registers_request_of_iterator req)
       write_multiple_registers_request.start_address (\<lambda>q. uint (write_multiple_registers_request.len q)) 2 h
       (write_multiple_registers_act tid uid h)"

definition handle_request ::
  "tcp_data_unit \<Rightarrow> request_handler \<Rightarrow> (tcp_data_unit \<times> request_handler) result" where
  "handle_request req h =
     res_bind (function_code req) (\<lambda>fc.
     res_bind (transaction_id req) (\<lambda>tid.
     res_bind (unit_id_of req) (\<lambda>uid.
     if fc = function_code_value read_discrete_inputs then handle_read_discrete_inputs req fc tid uid h
     else if fc = function_code_value read_coils then handle_read_coils req fc tid uid h
     else if fc = function_code_value write_single_coil then handle_write_single_coil req fc tid uid h
     else if fc = function_code_value write_multiple_coils then handle_write_multiple_coils req fc tid uid h
     else if fc = function_code_value read_holding_registers then handle_read_holding_registers req fc tid uid h
     else if fc = function_code_value read_input_registers then handle_read_input_registers req fc tid uid h
     else if fc = function_code_value write_single_register then handle_write_single_register req fc tid uid h
     else if fc = function_code_value write_multiple_registers then handle_write_multiple_registers req fc tid uid h
     else res_bind (exception_answer tid uid fc illegal_function) (\<lambda>du. Inr (du, h)))))"

definition request_handler_call :: "request_handler request_handler_t" where
  "request_handler_call req h = (case handle_request req h of
     Inl e \<Rightarrow> (Inl e, h) | Inr (du, h') \<Rightarrow> (Inr du, h'))"

text \<open>\<open>false_handler\<close> answers every request with \<open>illegal_function\<close>.\<close>

definition false_handler :: "'h request_handler_t" where
  "false_handler req h =
     (res_bind (function_code req) (\<lambda>fc.
      res_bind (transaction_id req) (\<lambda>tid.
      res_bind (unit_id_of req) (\<lambda>uid. exception_answer tid uid fc illegal_function))), h)"

text \<open>\<open>slow_handler\<close> serves the two kinds of registers from vectors of its own, in the same way; they are put at
  the rows \<open>request_handler\<close> has them in.\<close>

definition slow_memory :: request_handler where
  "slow_memory =
     \<lparr>memorySpace = [[], [], [0x0F, 0xF0, 0x0F, 0xF0, 0x00, 0x00, 0x0F, 0xF0],
        [0xF0, 0x0F, 0xF0, 0x0F, 0x00, 0x00, 0xF0, 0x0F]],
      validAddresses = [[], [], [0x0B], [0x0B]]\<rparr>"

definition slow_handler :: "'h request_handler_t" where
  "slow_handler req hs =
     (res_bind (function_code req) (\<lambda>fc.
      res_bind (transaction_id req) (\<lambda>tid.
      res_bind (unit_id_of req) (\<lambda>uid.
      if fc \<noteq> function_code_value read_input_registers \<and> fc \<noteq> function_code_value read_holding_registers
      then exception_answer tid uid fc illegal_function
      else if fc = function_code_value read_holding_registers
      then res_bind (handle_read_holding_registers req fc tid uid slow_memory) (\<lambda>(du, _). Inr du)
      else if fc = function_code_value read_input_registers
      then res_bind (handle_read_input_registers req fc tid uid slow_memory) (\<lambda>(du, _). Inr du)
      else exception_answer tid uid fc server_device_failure))), hs)"

subsection \<open>Every answer belongs to its request\<close>

definition answered :: "uint16 \<Rightarrow> uint8 \<Rightarrow> function_code_t \<Rightarrow> tcp_data_unit \<Rightarrow> bool" where
  "answered tid uid fc du \<longleftrightarrow>
     transaction_id du = Inr tid \<and> unit_id_of du = Inr uid \<and> function_code du = Inr fc"

lemma exception_answer_image:
  "exception_answer tid uid fc code =
     Inr \<lparr>m_buffer = mbap tid 3 @ [uid, fc OR 0x80, exception_code_value code], m_type = response\<rparr>"
  by (simp add: exception_answer_def exr.tcp_data_unit_of_pdu_image exception_response_size_def
      exception_response_encode_def new_exception_response_def exception_response.defs
      exception_response_type_def eval_nat_numeral)

lemma exception_answered:
  "\<not> bit fc 7 \<Longrightarrow> exception_answer tid uid fc code = Inr du \<Longrightarrow> answered tid uid fc du"
  by (auto simp: exception_answer_image answered_def or_0x80_and_0x7F)

context pdu_message
begin

lemma encode_ne [simp]: "encode m \<noteq> []"
  using size_min [of m] length_encode [of m] by auto

lemma answered_image:
  "tcp_data_unit_of_pdu size_of serialize ty tid m = Some du \<Longrightarrow> answered tid (encode m ! 0) fcode du"
  using data_unit_code(1) [of tid m ty] by (auto simp: answered_def tcp_data_unit_of_pdu_image simp del: mbap_function_code)

text \<open>What the accessors say of a received request of the class.\<close>

lemma received_fields:
  assumes "req = \<lparr>m_buffer = mbap tid (size_of m) @ encode m @ rest, m_type = ty\<rparr>"
  shows "answered tid (encode m ! 0) fcode req"
proof -
  let ?xs = "encode m @ rest"
  have "?xs \<noteq> []" "1 < length ?xs" "?xs ! 0 = encode m ! 0" "?xs ! 1 = fcode"
    using encode_fcode [of m] by (simp_all add: nth_append trans_less_add1)
  then show ?thesis
    unfolding assms answered_def using and_0x7F [OF fcode_msb]
    by (simp only: mbap_transaction_id mbap_unit_id mbap_function_code) simp
qed

end

text \<open>The ways a branch ends.\<close>

lemma with_legal_request_cases:
  assumes "with_legal_request tid uid fc opt address count row h act = Inr (du, h')"
  shows "(\<exists>code. exception_answer tid uid fc code = Inr du \<and> h' = h)
    \<or> (\<exists>q bm. opt = Inr (Some q) \<and> act q bm = Inr (du, h'))"
  using assms
  by (auto simp: with_legal_request_def res_bind_def split: sum.splits option.splits if_splits)

lemma pdu_someD:
  assumes "pdu fcode ty parser du = Inr (Some m)"
  shows "parser (m_buffer du, 6) = Some m" "function_code du = Inr fcode" "m_type du = ty"
  using assms
  by (auto simp: pdu_def catch_all_def parse_pdu_def res_bind_def ub_def
      split: sum.splits if_splits option.splits cpp_error.splits bind_splits)

text \<open>The state a request may leave behind: the same addresses, the same number of rows, and the two rows of
  inputs as they were.\<close>

definition keeps_inputs :: "request_handler \<Rightarrow> request_handler \<Rightarrow> bool" where
  "keeps_inputs h h' \<longleftrightarrow> validAddresses h' = validAddresses h
     \<and> length (memorySpace h') = length (memorySpace h)
     \<and> (\<forall>row. row \<noteq> 0 \<and> row \<noteq> 2 \<longrightarrow> memorySpace h' ! row = memorySpace h ! row)"

lemma keeps_inputs_simps [simp]:
  "keeps_inputs h h" "row = 0 \<or> row = 2 \<Longrightarrow> keeps_inputs h (h\<lparr>memorySpace := (memorySpace h)[row := data]\<rparr>)"
  by (auto simp: keeps_inputs_def nth_list_update)

text \<open>The unit id a parser reads.\<close>

lemma parsed_unit_id:
  "write_single_coil_request_of_iterator (b, p) = Some q1 \<Longrightarrow> write_single_coil_request.unit_id q1 = b ! p"
  "write_single_register_request_of_iterator (b, p) = Some q2 \<Longrightarrow> write_single_register_request.unit_id q2 = b ! p"
  "write_multiple_registers_request_of_iterator (b, p) = Some q3 \<Longrightarrow> write_multiple_registers_request.unit_id q3 = b ! p"
  by (auto simp: scq_defs srq_defs wrq_defs split: if_splits bind_splits)

definition serves :: "uint16 \<Rightarrow> uint8 \<Rightarrow> function_code_t \<Rightarrow> request_handler \<Rightarrow> (tcp_data_unit \<times> request_handler) result \<Rightarrow> bool" where
  "serves tid uid fc h r \<longleftrightarrow> (\<forall>du h'. r = Inr (du, h') \<longrightarrow> answered tid uid fc du \<and> keeps_inputs h h')"

lemma serves_with_legal_request:
  assumes "\<not> bit fc 7" "\<And>q bm. opt = Inr (Some q) \<Longrightarrow> serves tid uid fc h (act q bm)"
  shows "serves tid uid fc h (with_legal_request tid uid fc opt address count row h act)"
  unfolding serves_def
proof (intro allI impI)
  fix du h' assume "with_legal_request tid uid fc opt address count row h act = Inr (du, h')"
  from with_legal_request_cases [OF this] show "answered tid uid fc du \<and> keeps_inputs h h'"
    using exception_answered [OF assms(1)] assms(2) by (auto simp: serves_def)
qed

lemma serves_ends:
  assumes "\<And>du. answer = Some du \<Longrightarrow> answered tid uid fc du"
  shows "serves tid uid fc h (answer_with answer h)"
    and "row = 0 \<or> row = 2 \<Longrightarrow> serves tid uid fc h (on_row row h change answer)"
  using assms
  by (auto simp: serves_def answer_with_def on_row_def res_bind_def ub_def split: sum.splits option.splits)

lemma serves_from_row:
  assumes "\<And>inputs du. answer inputs = Some du \<Longrightarrow> answered tid uid fc du"
  shows "serves tid uid fc h (from_row row h copy answer)"
  using assms serves_ends(1)
  by (fastforce simp: serves_def from_row_def answer_with_def res_bind_def ub_def split: sum.splits option.splits)

lemma answers_unit_id:
  "read_discrete_inputs_response_encode (new_read_discrete_inputs_response uid b) ! 0 = uid"
  "read_coils_response_encode (new_read_coils_response uid b) ! 0 = uid"
  "read_holding_registers_response_encode (new_read_holding_registers_response uid b) ! 0 = uid"
  "read_input_registers_response_encode (new_read_input_registers_response uid b) ! 0 = uid"
  "write_multiple_coils_response_encode (new_write_multiple_coils_response uid a n) ! 0 = uid"
  by (simp_all add: rdr_defs rcr_defs rhr_defs rir_defs wcr_defs new_read_discrete_inputs_response_def
      new_read_coils_response_def new_read_holding_registers_response_def new_read_input_registers_response_def
      new_write_multiple_coils_response_def)

lemma serves_reads:
  "serves tid uid 2 h (handle_read_discrete_inputs req 2 tid uid h)"
  "serves tid uid 1 h (handle_read_coils req 1 tid uid h)"
  "serves tid uid 3 h (handle_read_holding_registers req 3 tid uid h)"
  "serves tid uid 4 h (handle_read_input_registers req 4 tid uid h)"
  unfolding handle_read_discrete_inputs_def read_discrete_inputs_act_def handle_read_coils_def read_coils_act_def handle_read_holding_registers_def read_holding_registers_act_def
    handle_read_input_registers_def read_input_registers_act_def
  by (intro serves_with_legal_request serves_from_row,
      auto dest!: rdr.answered_image rcr.answered_image rhr.answered_image rir.answered_image simp: answers_unit_id
        read_discrete_inputs_response_function_code_def read_coils_response_function_code_def
        read_holding_registers_response_function_code_def read_input_registers_response_function_code_def)+

lemma mirrored_unit_id:
  "write_single_coil_request_encode q1 ! 0 = write_single_coil_request.unit_id q1"
  "write_single_register_request_encode q2 ! 0 = write_single_register_request.unit_id q2"
  "write_multiple_registers_request_encode q3 ! 0 = write_multiple_registers_request.unit_id q3"
  by (simp_all add: scq_defs srq_defs wrq_defs)

lemma serves_writes:
  assumes "unit_id_of req = Inr uid"
  shows "serves tid uid 5 h (handle_write_single_coil req 5 tid uid h)"
    and "serves tid uid 15 h (handle_write_multiple_coils req 15 tid uid h)"
    and "serves tid uid 6 h (handle_write_single_register req 6 tid uid h)"
    and "serves tid uid 16 h (handle_write_multiple_registers req 16 tid uid h)"
proof -
  have u: "m_buffer req ! 6 = uid" using assms by (auto simp: unit_id_of_def vec_at_def split: if_splits)
  have "answered tid uid 5 du" if "pdu write_single_coil_request_function_code write_single_coil_request_type
        write_single_coil_request_of_iterator req = Inr (Some q)"
      "tcp_data_unit_of_pdu write_single_coil_request_size write_single_coil_request_serialize
        write_single_coil_request_type tid q = Some du" for q du
    using scq.answered_image [OF that(2)] parsed_unit_id(1) [OF pdu_someD(1) [OF that(1)]] u
    by (simp add: mirrored_unit_id write_single_coil_request_function_code_def)
  then show "serves tid uid 5 h (handle_write_single_coil req 5 tid uid h)"
    unfolding handle_write_single_coil_def write_single_coil_act_def Let_def
    by (intro serves_with_legal_request) (auto intro: serves_ends)
  show "serves tid uid 15 h (handle_write_multiple_coils req 15 tid uid h)"
    unfolding handle_write_multiple_coils_def write_multiple_coils_act_def
    by (intro serves_with_legal_request serves_ends)
      (auto dest!: wcr.answered_image simp: answers_unit_id write_multiple_coils_response_function_code_def)
  have "answered tid uid 6 du" if "pdu write_single_register_request_function_code write_single_register_request_type
        write_single_register_request_of_iterator req = Inr (Some q)"
      "tcp_data_unit_of_pdu write_single_register_request_size write_single_register_request_serialize
        write_single_register_request_type tid q = Some du" for q du
    using srq.answered_image [OF that(2)] parsed_unit_id(2) [OF pdu_someD(1) [OF that(1)]] u
    by (simp add: mirrored_unit_id write_single_register_request_function_code_def)
  then show "serves tid uid 6 h (handle_write_single_register req 6 tid uid h)"
    unfolding handle_write_single_register_def write_single_register_act_def
    by (intro serves_with_legal_request) (auto intro: serves_ends)
  have "answered tid uid 16 du" if "pdu write_multiple_registers_request_function_code
        write_multiple_registers_request_type write_multiple_registers_request_of_iterator req = Inr (Some q)"
      "tcp_data_unit_of_pdu write_multiple_registers_request_size write_multiple_registers_request_serialize
        write_multiple_registers_request_type tid q = Some du" for q du
    using wrq.answered_image [OF that(2)] parsed_unit_id(3) [OF pdu_someD(1) [OF that(1)]] u
    by (simp add: mirrored_unit_id write_multiple_registers_request_function_code_def)
  then show "serves tid uid 16 h (handle_write_multiple_registers req 16 tid uid h)"
    unfolding handle_write_multiple_registers_def write_multiple_registers_act_def
    by (intro serves_with_legal_request) (auto intro: serves_ends)
qed

lemma masked_code: "\<not> bit ((b :: uint8) AND 0x7F) 7"
  by (simp add: bit_and_iff)

lemma handle_request_serves:
  assumes "function_code req = Inr fc" "transaction_id req = Inr tid" "unit_id_of req = Inr uid"
  shows "serves tid uid fc h (handle_request req h)"
proof -
  have "\<not> bit fc 7" using assms(1) masked_code by (auto simp: function_code_def res_bind_def split: sum.splits)
  then have other: "serves tid uid fc h (res_bind (exception_answer tid uid fc illegal_function) (\<lambda>du. Inr (du, h)))"
    using exception_answered by (auto simp: serves_def res_bind_def split: sum.splits)
  show ?thesis
    unfolding handle_request_def assms res_bind_def [of "Inr _"]
    using serves_reads serves_writes [OF assms(3)] other by auto
qed

subsection \<open>Properties\<close>

text \<open>C15: every answer of the example server belongs to its request: it has the transaction id, the unit id and
  the function code of the request, so the first two tests of \<open>validate_response\<close> accept it; and no request
  changes the memories of the discrete inputs and input registers or the valid addresses.\<close>

theorem example_server_answers:
  assumes "request_handler_call req h = (Inr du, h')"
  shows "transaction_id du = transaction_id req \<and> unit_id_of du = unit_id_of req
    \<and> function_code du = function_code req
    \<and> validAddresses h' = validAddresses h \<and> length (memorySpace h') = length (memorySpace h)
    \<and> memorySpace h' ! 1 = memorySpace h ! 1 \<and> memorySpace h' ! 3 = memorySpace h ! 3"
proof -
  from assms have r: "handle_request req h = Inr (du, h')"
    by (auto simp: request_handler_call_def split: sum.splits prod.splits)
  then obtain fc tid uid where a: "function_code req = Inr fc" "transaction_id req = Inr tid" "unit_id_of req = Inr uid"
    by (auto simp: handle_request_def res_bind_def split: sum.splits)
  from handle_request_serves [OF this] r a show ?thesis by (simp add: serves_def answered_def keeps_inputs_def)
qed

theorem example_server_answers_witness:
  "\<exists>du h'. request_handler_call \<lparr>m_buffer = [0, 7, 0, 0, 0, 6, 1, 6, 0, 1, 0xAB, 0xCD], m_type = request\<rparr>
      new_request_handler = (Inr du, h') \<and> transaction_id du = Inr 7 \<and> memorySpace h' ! 3 = memorySpace new_request_handler ! 3"
proof -
  let ?req = "\<lparr>m_buffer = [0, 7, 0, 0, 0, 6, 1, 6, 0, 1, 0xAB, 0xCD], m_type = request\<rparr>"
  have "case request_handler_call ?req new_request_handler of (Inl e, h') \<Rightarrow> False | (Inr du, h') \<Rightarrow> True"
    by code_simp
  then obtain du h' where r: "request_handler_call ?req new_request_handler = (Inr du, h')"
    by (auto split: prod.splits sum.splits)
  have "transaction_id ?req = Inr 7" by code_simp
  with example_server_answers [OF r] r show ?thesis by auto
qed

text \<open>A request for addresses that make \<open>create_request_bit_map\<close> read outside its table, such as seven coils
  from address seven, is undefined behaviour in the server, whatever its memories and valid addresses: the
  bitmap is built before the addresses are checked.\<close>

lemma example_server_undefined:
  assumes "q = new_read_coils_request u a n" "unat n \<noteq> 0" "8 < unat n mod 8 + unat a mod 8"
    and "req = \<lparr>m_buffer = mbap tid (read_coils_request_size q) @ read_coils_request_encode q @ rest, m_type = request\<rparr>"
  shows "request_handler_call req h = (Inl undefined_behaviour, h)"
proof -
  have p: "pdu read_coils_request_function_code read_coils_request_type read_coils_request_of_iterator req = Inr (Some q)"
    using rcq.pdu_received [where m = q] assms(4) by (simp add: read_coils_request_type_def)
  have f: "answered tid u 1 req"
    using rcq.received_fields [OF assms(4)] assms(1)
    by (simp add: rcq_defs new_read_coils_request_def)
  have b: "create_request_bit_map (uint a) (uint n) = Inl undefined_behaviour"
  proof -
    have "unat n < 65536" using unsigned_less [of n] by simp
    with create_request_bit_map_nat [of "unat n" "unat a"] assms(2,3) show ?thesis
      by (auto simp: high_bits_def)
  qed
  show ?thesis
    using f p b assms(1)
    by (simp add: request_handler_call_def handle_request_def answered_def res_bind_def handle_read_coils_def read_coils_act_def
        with_legal_request_def new_read_coils_request_def read_coils_request.defs)
qed

text \<open>Switching a coil off is answered as done and changes nothing.\<close>

lemma example_server_ignores_off:
  assumes "q = new_write_single_coil_request u a False"
    and "req = \<lparr>m_buffer = mbap tid (write_single_coil_request_size q) @ write_single_coil_request_encode q @ rest,
      m_type = request\<rparr>"
    and "request_handler_call req h = (r, h')"
  shows "h' = h"
proof -
  have p: "pdu write_single_coil_request_function_code write_single_coil_request_type
      write_single_coil_request_of_iterator req = Inr (Some q)"
    using scq.pdu_received [where m = q] assms(2) by (simp add: write_single_coil_request_type_def)
  have f: "answered tid u 5 req"
    using scq.received_fields [OF assms(2)] assms(1)
    by (simp add: scq_defs new_write_single_coil_request_def)
  have h: "handle_request req h = handle_write_single_coil req 5 tid u h"
    using f by (simp add: handle_request_def answered_def res_bind_def)
  have "\<not> write_single_coil_request.coil_value q"
    using assms(1) by (simp add: new_write_single_coil_request_def write_single_coil_request.defs)
  then have "h'' = h" if "handle_request req h = Inr (du, h'')" for du h''
    using that p unfolding h handle_write_single_coil_def write_single_coil_act_def
    by (auto simp: with_legal_request_def answer_with_def res_bind_def split: sum.splits if_splits)
  with assms(3) show ?thesis by (auto simp: request_handler_call_def split: sum.splits prod.splits)
qed

subsection \<open>What a branch does\<close>

text \<open>The request is in the data unit: the branch goes on, or refuses the addresses.\<close>

context pdu_message
begin

lemma legal_request_branch:
  assumes "req = \<lparr>m_buffer = mbap t n @ encode m @ rest, m_type = ty\<rparr>" "wf m"
    and "row < length (validAddresses h)" "create_request_bit_map (uint (address m)) (count m) = Inr bm"
    and "legal_address (validAddresses h ! row) bm (uint (address m)) = Inr legal"
  shows "with_legal_request tid uid fc (pdu fcode ty of_iterator req) address count row h act =
    (if legal then act m bm else res_bind (exception_answer tid uid fc illegal_data_address) (\<lambda>du. Inr (du, h)))"
  using assms pdu_received [OF assms(2)] by (simp add: with_legal_request_def res_bind_def)

end

lemma dispatch:
  assumes "answered tid uid fc req"
  shows "fc = 1 \<Longrightarrow> handle_request req h = handle_read_coils req fc tid uid h"
    "fc = 2 \<Longrightarrow> handle_request req h = handle_read_discrete_inputs req fc tid uid h"
    "fc = 3 \<Longrightarrow> handle_request req h = handle_read_holding_registers req fc tid uid h"
    "fc = 4 \<Longrightarrow> handle_request req h = handle_read_input_registers req fc tid uid h"
    "fc = 5 \<Longrightarrow> handle_request req h = handle_write_single_coil req fc tid uid h"
    "fc = 6 \<Longrightarrow> handle_request req h = handle_write_single_register req fc tid uid h"
    "fc = 15 \<Longrightarrow> handle_request req h = handle_write_multiple_coils req fc tid uid h"
    "fc = 16 \<Longrightarrow> handle_request req h = handle_write_multiple_registers req fc tid uid h"
  using assms by (simp_all add: handle_request_def answered_def res_bind_def)

lemma row_ends:
  assumes "row < length (memorySpace h)"
  shows "change (memorySpace h ! row) = Inr mem \<Longrightarrow> on_row row h change (Some du) =
      Inr (du, h\<lparr>memorySpace := (memorySpace h)[row := mem]\<rparr>)"
    "copy (memorySpace h ! row) = Inr bytes \<Longrightarrow> answer bytes = Some du \<Longrightarrow> from_row row h copy answer = Inr (du, h)"
  using assms by (simp_all add: on_row_def from_row_def answer_with_def res_bind_def)

text \<open>Legal requests on the registers, as the handler finds them in the receive buffer of a session.\<close>

lemma read_holding_registers_served:
  assumes "q = new_read_holding_registers_request u a n" "0 < unat n" "unat n \<le> 65535"
    and "req = \<lparr>m_buffer = mbap tid (read_holding_registers_request_size q) @ read_holding_registers_request_encode q @ rest,
      m_type = request\<rparr>"
    and "2 < length (memorySpace h)" "2 < length (validAddresses h)"
    and "create_request_bit_map (uint a) (uint n) = Inr bm" "legal_address (validAddresses h ! 2) bm (uint a) = Inr True"
    and "copy_data_registers (memorySpace h ! 2) (uint a) (uint n) = Inr bytes"
    and "tcp_data_unit_of_pdu read_holding_registers_response_size read_holding_registers_response_serialize
      read_holding_registers_response_type tid (new_read_holding_registers_response u bytes) = Some du"
  shows "request_handler_call req h = (Inr du, h)"
proof -
  have q: "read_holding_registers_request.start_address q = a" "read_holding_registers_request.len q = n"
    using assms(1) by (simp_all add: new_read_holding_registers_request_def read_holding_registers_request.defs)
  have "answered tid u 3 req"
    using rhq.received_fields [OF assms(4)] assms(1)
    by (simp add: rhq_defs new_read_holding_registers_request_def)
  then have "handle_request req h = handle_read_holding_registers req 3 tid u h" by (simp add: dispatch)
  also have "\<dots> = Inr (du, h)"
    unfolding handle_read_holding_registers_def read_holding_registers_act_def read_holding_registers_request_type_def
    using rhq.legal_request_branch [OF assms(4), where h = h and row = 2 and legal = True] q assms(5-)
    by (simp add: row_ends)
  finally show ?thesis by (simp add: request_handler_call_def)
qed

lemma write_single_register_served:
  assumes "q = new_write_single_register_request u a v"
    and "req = \<lparr>m_buffer = mbap tid (write_single_register_request_size q) @ write_single_register_request_encode q @ rest,
      m_type = request\<rparr>"
    and "2 < length (memorySpace h)" "2 < length (validAddresses h)"
    and "create_request_bit_map (uint a) 1 = Inr bm" "legal_address (validAddresses h ! 2) bm (uint a) = Inr True"
    and "write_register v (memorySpace h ! 2) (uint a) = Inr mem"
    and "tcp_data_unit_of_pdu write_single_register_request_size write_single_register_request_serialize
      write_single_register_request_type tid q = Some du"
  shows "request_handler_call req h = (Inr du, h\<lparr>memorySpace := (memorySpace h)[2 := mem]\<rparr>)"
proof -
  have q: "write_single_register_request.start_address q = a" "write_single_register_request.reg_value q = v"
    using assms(1) by (simp_all add: new_write_single_register_request_def write_single_register_request.defs)
  have "answered tid u 6 req"
    using srq.received_fields [OF assms(2)] assms(1)
    by (simp add: srq_defs new_write_single_register_request_def)
  then have "handle_request req h = handle_write_single_register req 6 tid u h" by (simp add: dispatch)
  also have "\<dots> = Inr (du, h\<lparr>memorySpace := (memorySpace h)[2 := mem]\<rparr>)"
    unfolding handle_write_single_register_def write_single_register_act_def
    using srq.legal_request_branch [OF assms(2), where h = h and row = 2 and legal = True] q assms(3-)
    by (simp add: row_ends write_single_register_request_type_def)
  finally show ?thesis by (simp add: request_handler_call_def)
qed

text \<open>A register written through the example server is what a later read of it returns. The write is
  answered with the request, the read with the value written, and between the two only that register of the
  memory has changed.\<close>

lemma written_register_is_read:
  assumes "2 < length (memorySpace h)" "2 < length (validAddresses h)"
    and "create_request_bit_map (uint a) 1 = Inr bm" "legal_address (validAddresses h ! 2) bm (uint a) = Inr True"
    and "2 * unat a + 1 < length (memorySpace h ! 2)"
    and "w = new_write_single_register_request u a v" "r = new_read_holding_registers_request u a 1"
  shows "\<exists>wdu h' rdu.
      request_handler_call \<lparr>m_buffer = mbap t (write_single_register_request_size w)
        @ write_single_register_request_encode w @ pad, m_type = request\<rparr> h = (Inr wdu, h')
    \<and> (\<forall>k. get_reg (memorySpace h' ! 2) k = (if k = unat a then v else get_reg (memorySpace h ! 2) k))
    \<and> request_handler_call \<lparr>m_buffer = mbap t' (read_holding_registers_request_size r)
        @ read_holding_registers_request_encode r @ pad', m_type = request\<rparr> h' = (Inr rdu, h')
    \<and> pdu write_single_register_request_function_code write_single_register_request_type
        write_single_register_request_of_iterator wdu = Inr (Some w)
    \<and> pdu read_holding_registers_response_function_code read_holding_registers_response_type
        read_holding_registers_response_of_iterator rdu =
          Inr (Some (new_read_holding_registers_response_words u [v]))"
proof -
  let ?mem = "(memorySpace h ! 2)[2 * unat a := hi8 v, 2 * unat a + 1 := lo8 v]"
  let ?h = "h\<lparr>memorySpace := (memorySpace h)[2 := ?mem]\<rparr>"
  have row: "memorySpace ?h ! 2 = ?mem" "validAddresses ?h = validAddresses h" "length (memorySpace ?h) = length (memorySpace h)"
    using assms(1) by simp_all
  have w: "write_register v (memorySpace h ! 2) (uint a) = Inr ?mem"
    using write_register_nat [of "unat a" "memorySpace h ! 2" v] unat_uint16 [of a] assms(5) by simp
  obtain wdu where wdu: "tcp_data_unit_of_pdu write_single_register_request_size write_single_register_request_serialize
      write_single_register_request_type t w = Some wdu"
      "pdu write_single_register_request_function_code write_single_register_request_type
        write_single_register_request_of_iterator wdu = Inr (Some w)"
    using srq.data_unit_roundtrip [where m = w and ty = write_single_register_request_type and tid = t] by auto
  have reg: "get_reg ?mem k = (if k = unat a then v else get_reg (memorySpace h ! 2) k)" for k
    using get_reg_update [OF assms(5)] by simp
  have "copy_data_registers ?mem (uint a) (uint (1 :: uint16)) = Inr (enc_words [v])"
    using copy_data_registers_nat [of "unat a" 1 ?mem] enc_regs [of "unat a" 1 ?mem] unat_uint16 [of a] assms(5) reg
    by simp
  then have bytes: "copy_data_registers (memorySpace ?h ! 2) (uint a) (uint (1 :: uint16)) = Inr (enc_words [v])"
    unfolding row(1) .
  let ?m = "new_read_holding_registers_response u (enc_words [v])"
  have m: "?m = new_read_holding_registers_response_words u [v]"
    by (simp add: new_read_holding_registers_response_def new_read_holding_registers_response_words_def emplace_words_enc)
  have "length (read_holding_registers_response.vals ?m) < 256"
    by (simp add: new_read_holding_registers_response_def read_holding_registers_response.defs)
  then obtain rdu where rdu: "tcp_data_unit_of_pdu read_holding_registers_response_size
      read_holding_registers_response_serialize read_holding_registers_response_type t' ?m = Some rdu"
      "pdu read_holding_registers_response_function_code read_holding_registers_response_type
        read_holding_registers_response_of_iterator rdu = Inr (Some ?m)"
    using rhr.data_unit_roundtrip [where m = ?m and ty = read_holding_registers_response_type and tid = t'] by auto
  have "request_handler_call \<lparr>m_buffer = mbap t' (read_holding_registers_request_size r)
        @ read_holding_registers_request_encode r @ pad', m_type = request\<rparr> ?h = (Inr rdu, ?h)"
    by (rule read_holding_registers_served [OF assms(7) _ _ refl _ _ _ _ bytes rdu(1)])
      (use assms(1-4) row in simp_all)
  with write_single_register_served [OF assms(6) refl assms(1-4) w wdu(1)] reg row(1) wdu(2) rdu(2) m
  show ?thesis by (intro exI [of _ wdu] exI [of _ ?h] exI [of _ rdu]) simp
qed

end
