(* ===== verification/Exchange.thy ===== *)
theory Exchange
  imports Tcp_Client Modbus_Response Example_Server
begin

text \<open>
  Both ends of a connection: the client (client/tcp_client.cpp), a session of the server
  (server/tcp_session.cpp) and the example handler (test/tcp_server_test.cpp), for a read of holding registers.
  The server's half is one turn of the session on the bytes the client wrote, the client's half a call of
  \<open>send_request\<close> with the bytes the session wrote on its stream.
\<close>

lemma validate_same_request:
  assumes "answered tid u fc req" "answered tid u fc resp"
    and "fc \<noteq> function_code_value write_single_coil" "fc \<noteq> function_code_value write_single_register"
  shows "validate_response req resp = Inr (make_client_error_code modbus_client_error_code.success)"
  using assms by (simp add: validate_response_def answered_def res_bind_def)

lemma registers_view:
  assumes "0 < n" "n \<le> 123" "a \<le> 65535" "2 * (a + n) \<le> length mem"
    and "copy_data_registers mem (int a) (int n) = Inr bytes"
  shows "bytes = enc_words (map (get_reg mem) [a..<a + n]) \<and> (\<forall>i < n. getUINT16 (of_nat i) normal (new_modbus_response holding_register
      (Some bytes) (of_nat a) (of_nat n)) = Inr (get_reg mem (a + i)))"
proof -
  let ?ws = "map (get_reg mem) [a..<a + n]"
  have bytes: "bytes = enc_words ?ws"
    using copy_data_registers_nat [of a n mem] enc_regs [OF assms(4)] assms(2-5) by simp
  have ws: "?ws \<noteq> []" "(of_nat n :: uint16) \<noteq> 0" "holding_register \<noteq> invalid_data_type"
    using assms(1,2) of_nat_uint16_eq [of n 0] by simp_all
  have "getUINT16 (of_nat i) normal (new_modbus_response holding_register
      (Some (enc_words ?ws)) (of_nat a) (of_nat n)) = Inr (get_reg mem (a + i))" if "i < n" for i
  proof -
    have "unat (of_nat i :: uint32) = i" using that assms(2) by (simp add: unat_of_nat)
    with view_of_words(3) [OF ws refl, of "of_nat i" "of_nat a"] that show ?thesis by simp
  qed
  with bytes show ?thesis by simp
qed

lemma created_request:
  assumes "create_request read_holding_registers_request_size read_holding_registers_request_serialize
      read_holding_registers_request_type q cl = (Some req, cl')"
  shows "req = \<lparr>m_buffer = frame (tc_transaction_id cl) (read_holding_registers_request_encode q), m_type = request\<rparr>"
  using assms rhq.length_encode [of q]
  by (auto simp: create_request_def reserve_transaction_id_def rhq.tcp_data_unit_of_pdu_image frame_def
      read_holding_registers_request_type_def)

lemma holding_response_image:
  "tcp_data_unit_of_pdu read_holding_registers_response_size read_holding_registers_response_serialize
      read_holding_registers_response_type tid (new_read_holding_registers_response u bytes) =
    Some \<lparr>m_buffer = frame tid ([u, 3, of_nat (length bytes)] @ bytes), m_type = response\<rparr>"
proof -
  let ?m = "new_read_holding_registers_response u bytes"
  have "read_holding_registers_response_encode ?m = [u, 3, of_nat (length bytes)] @ bytes"
    by (simp add: rhr_defs new_read_holding_registers_response_def)
  then show ?thesis
    using rhr.length_encode [of ?m]
    by (simp add: rhr.tcp_data_unit_of_pdu_image frame_def read_holding_registers_response_type_def)
qed

text \<open>The server's half of the exchange: one turn of the session.\<close>

lemma registers_served:
  assumes "sv_heap s p = Some ts" "ts_phase ts = reading" "\<not> ts_stop ts" "length (ts_buf ts) = MAX_APU_SIZE"
    and "2 < length (memorySpace (sv_handler s))" "2 < length (validAddresses (sv_handler s))"
    and "0 < unat n" "create_request_bit_map (uint a) (uint n) = Inr bm"
    and "legal_address (validAddresses (sv_handler s) ! 2) bm (uint a) = Inr True"
    and "copy_data_registers (memorySpace (sv_handler s) ! 2) (uint a) (uint n) = Inr bytes"
    and "tcp_data_unit_of_pdu read_holding_registers_response_size read_holding_registers_response_serialize
        read_holding_registers_response_type tid (new_read_holding_registers_response u bytes) = Some resp"
  shows "\<exists>s' ts'. server_run request_handler_call
      [Read_done p None (frame tid (read_holding_registers_request_encode (new_read_holding_registers_request u a n))),
       Handler_done p, Write_done p None (length (du_buffer resp))] s = Some s'
    \<and> sv_heap s' p = Some ts' \<and> ts_phase ts' = reading \<and> ts_sent ts' = ts_sent ts @ du_buffer resp
    \<and> sv_handler s' = sv_handler s"
proof -
  let ?q = "new_read_holding_registers_request u a n"
  let ?xs = "read_holding_registers_request_encode ?q"
  have size: "read_holding_registers_request_size ?q = 6" "length ?xs = 6"
    using rhq.length_encode [of ?q] by (simp_all add: read_holding_registers_request_size_def)
  let ?bs = "mbap tid (length ?xs) @ ?xs"
  let ?got = "\<lparr>m_buffer = ?bs @ drop (6 + length ?xs) (ts_buf ts), m_type = request\<rparr>"
  have "request_handler_call ?got (sv_handler s) = (Inr resp, sv_handler s)"
    by (rule read_holding_registers_served [OF refl assms(7) unat_uint16 _ assms(5,6,8-11)])
      (use size in simp)
  from session_run_request [where handler = request_handler_call, OF assms(1-4) _ _ refl refl this]
  show ?thesis unfolding frame_def using size by auto
qed

text \<open>The client's half: the answer is on the stream.\<close>

lemma registers_received:
  assumes "stream_contract ops incoming" "error_contract ops"
    and "req = \<lparr>m_buffer = frame tid (read_holding_registers_request_encode q), m_type = request\<rparr>"
    and "read_holding_registers_response.unit_id m = read_holding_registers_request.unit_id q"
    and "length (read_holding_registers_response.vals m) \<le> 247"
    and "tcp_data_unit_of_pdu read_holding_registers_response_size read_holding_registers_response_serialize
        read_holding_registers_response_type tid m = Some resp"
    and "get_connection ops (tc_con_pool cl) = (Some c, pool)"
    and "clear_buffer ops c = (client_error modbus_client_error_code.success, c0)"
    and "async_write ops (du_buffer req)
        (if timeout \<noteq> milliseconds_max then expires_after ops timeout c0 else expires_never ops c0) =
      ((no_error, length (du_buffer req)), c1)"
    and "incoming c1 = du_buffer resp"
  shows "\<exists>du c'. client_send_request ops req timeout cl =
        Some (Inr (du, no_error), cl\<lparr>tc_con_pool := release_connection ops (expires_never ops c') pool\<rparr>)
    \<and> validate_response req du = Inr (make_client_error_code modbus_client_error_code.success)
    \<and> pdu read_holding_registers_response_function_code read_holding_registers_response_type
        read_holding_registers_response_of_iterator du = Inr (Some m)"
proof -
  let ?xs = "read_holding_registers_response_encode m" and ?u = "read_holding_registers_request.unit_id q"
  have len: "length ?xs = read_holding_registers_response_size m" "?xs \<noteq> []" "length ?xs \<le> 250"
    using rhr.length_encode [of m] assms(5) by (simp_all add: read_holding_registers_response_size_def)
  have resp: "du_buffer resp = frame tid ?xs"
    using assms(6) len by (auto simp: rhr.tcp_data_unit_of_pdu_image frame_def du_buffer_def)
  have "transaction_id req = Inr tid" by (simp add: assms(3) frame_def)
  then obtain c' where c': "send_request ops req timeout (tc_con_pool cl) = Some (Inr (padded_unit tid ?xs, no_error),
      release_connection ops (expires_never ops c') pool)"
    using send_request_frames [OF assms(1,2,7) _ assms(8,9), of tid "[]" tid ?xs "[]"] len(2,3) assms(10) resp
    by auto
  have "answered tid ?u 3 req"
    using rhq.received_fields [of req tid q "[]" request] rhq.length_encode [of q]
    by (simp add: assms(3) frame_def) (simp add: rhq_defs)
  moreover have "answered tid ?u 3 (padded_unit tid ?xs)"
    using rhr.received_fields [of "padded_unit tid ?xs" tid m _ response] len assms(4)
    by (simp add: padded_unit_def frame_def) (simp add: rhr_defs)
  ultimately have "validate_response req (padded_unit tid ?xs) = Inr (make_client_error_code modbus_client_error_code.success)"
    by (rule validate_same_request) simp_all
  moreover have "pdu read_holding_registers_response_function_code read_holding_registers_response_type
      read_holding_registers_response_of_iterator (padded_unit tid ?xs) = Inr (Some m)"
    using rhr.pdu_received [of m] len assms(5)
    by (simp add: padded_unit_def frame_def read_holding_registers_response_type_def)
  ultimately show ?thesis using c' by (auto simp: client_send_request_def)
qed

subsection \<open>A client and a server for concrete runs\<close>

definition exchange_server :: "request_handler tcp_server" where
  "exchange_server = set_session 1 (new_tcp_session\<lparr>ts_phase := reading, ts_buf := replicate MAX_APU_SIZE 0\<rparr>)
     (new_tcp_server server_config_default new_request_handler)"

definition exchange_client :: "sim_connection option tcp_client" where
  "exchange_client = new_tcp_client (\<lambda>_. Some ([], frame 1 [1, 3, 4, 0x0F, 0xF0, 0x0F, 0xF0])) client_config_default"

end
