(* ===== verification/Loopback.thy ===== *)
theory Loopback
  imports Exchange
begin

text \<open>
  A network between the client (client/tcp_client.cpp) and a session of the server (server/tcp_session.cpp): the
  operations of the connection library (\<open>cpool_ops\<close>) on a link whose other end is the server's state machine.
  A write delivers its bytes to the session, which takes its turn (read, handler, write); the bytes the
  session writes arrive at the client. \<open>lk_delay\<close> is the time the handler takes: an answer that comes after the
  client's timeout is under way (\<open>lk_late\<close>) until a later answer arrives behind it. A read for bytes that never
  come fails with \<open>timed_out\<close> when a deadline is set, and with \<open>eof\<close>, the end of the connection, when there is none.

  This is one network among others, with one client and answers that arrive whole: it is for running client and
  server against each other, and it is an instance of what the client's theorems assume of a connection.
\<close>

subsection \<open>A turn of a session\<close>

text \<open>Events one after the other, as far as somebody waits for them.\<close>

fun follow :: "'h request_handler_t \<Rightarrow> server_event list \<Rightarrow> 'h tcp_server \<Rightarrow> 'h tcp_server" where
  "follow handler [] s = s"
| "follow handler (ev # evs) s = (case server_exec handler ev s of
     None \<Rightarrow> s | Some s' \<Rightarrow> follow handler evs s')"

definition written :: "session_ptr \<Rightarrow> 'h tcp_server \<Rightarrow> uint8 list" where
  "written p s = (case sv_heap s p of None \<Rightarrow> [] | Some ts \<Rightarrow> ts_sent ts)"

text \<open>The read delivers the bytes, the handler runs, and the write takes the whole answer.\<close>

definition session_turn ::
  "'h request_handler_t \<Rightarrow> session_ptr \<Rightarrow> uint8 list \<Rightarrow> 'h tcp_server \<Rightarrow> 'h tcp_server" where
  "session_turn handler p bs s =
     (let s = follow handler [Read_done p None bs, Handler_done p] s
      in case map_option ts_phase (sv_heap s p) of
           Some (writing resp) \<Rightarrow> follow handler [Write_done p None (length (du_buffer resp))] s
         | _ \<Rightarrow> s)"

subsection \<open>The link\<close>

record 'h link =
  lk_server :: "'h tcp_server"
  lk_received :: "uint8 list"
  lk_late :: "uint8 list"
  lk_timeout :: "int option"
  lk_delay :: int

definition in_time :: "'h link \<Rightarrow> bool" where
  "in_time l = (case lk_timeout l of None \<Rightarrow> True | Some t \<Rightarrow> lk_delay l \<le> t)"

definition link_write ::
  "'h request_handler_t \<Rightarrow> session_ptr \<Rightarrow> uint8 list \<Rightarrow> 'h link \<Rightarrow> 'h link" where
  "link_write handler p bs l =
     (let s = session_turn handler p bs (lk_server l);
          late = lk_late l @ drop (length (written p (lk_server l))) (written p s)
      in if in_time l then l\<lparr>lk_server := s, lk_received := lk_received l @ late, lk_late := []\<rparr>
         else l\<lparr>lk_server := s, lk_late := late\<rparr>)"

definition link_ops :: "'h request_handler_t \<Rightarrow> session_ptr \<Rightarrow> ('h link option, 'h link) cpool_ops" where
  "link_ops handler p =
     \<lparr>get_connection = (\<lambda>pool. (pool, None)),
      release_connection = (\<lambda>l pool. Some l),
      expires_never = (\<lambda>l. l\<lparr>lk_timeout := None\<rparr>),
      expires_after = (\<lambda>t l. l\<lparr>lk_timeout := Some t\<rparr>),
      bytes_available = (\<lambda>l. (length (lk_received l), no_error)),
      async_read = (\<lambda>n l. if n \<le> length (lk_received l)
         then ((no_error, take n (lk_received l)), l\<lparr>lk_received := drop n (lk_received l)\<rparr>)
         else ((net_error (if lk_timeout l = None then eof else timed_out), []), l)),
      async_write = (\<lambda>b l. ((no_error, length b), link_write handler p b l)),
      err_bool = err_bool sim_ops,
      is_timed_out = is_timed_out sim_ops\<rparr>"

lemma link_ops_fields [simp]:
  "get_connection (link_ops handler p) pool = (pool, None)"
  "release_connection (link_ops handler p) l pool = Some l"
  "expires_never (link_ops handler p) l = l\<lparr>lk_timeout := None\<rparr>"
  "expires_after (link_ops handler p) t l = l\<lparr>lk_timeout := Some t\<rparr>"
  "async_write (link_ops handler p) b l = ((no_error, length b), link_write handler p b l)"
  by (simp_all add: link_ops_def)

lemma link_error_contract: "error_contract (link_ops handler p)"
  using sim_error_contract by (simp add: error_contract_def link_ops_def)

lemma link_stream_contract: "stream_contract (link_ops handler p) lk_received"
  by (simp add: stream_contract_def link_ops_def)

lemma link_deadline: "deadline_contract (link_ops handler p) lk_received (\<lambda>l. lk_timeout l \<noteq> None)"
  by (simp add: deadline_contract_def link_ops_def sim_ops_def link_write_def Let_def)

lemma link_clear_buffer:
  "clear_buffer (link_ops handler p) l =
     (client_error modbus_client_error_code.success, l\<lparr>lk_received := []\<rparr>)"
  by (simp add: clear_buffer_def link_ops_def sim_ops_def)

subsection \<open>A session that serves\<close>

definition serving :: "session_ptr \<Rightarrow> 'h tcp_server \<Rightarrow> bool" where
  "serving p s = (case sv_heap s p of
     None \<Rightarrow> False
   | Some ts \<Rightarrow> ts_phase ts = reading \<and> \<not> ts_stop ts \<and> length (ts_buf ts) = MAX_APU_SIZE)"

lemma servingE:
  assumes "serving p s"
  obtains ts where "sv_heap s p = Some ts" "ts_phase ts = reading" "\<not> ts_stop ts" "length (ts_buf ts) = MAX_APU_SIZE"
  using assms that by (auto simp: serving_def split: option.splits)

text \<open>A handler whose answer does not depend on what an earlier request left behind in the receive buffer.\<close>

definition answers :: "'h request_handler_t \<Rightarrow> uint8 list \<Rightarrow> 'h \<Rightarrow> tcp_data_unit \<Rightarrow> 'h \<Rightarrow> bool" where
  "answers handler bs hs resp hs' \<longleftrightarrow>
     (\<forall>rest. handler \<lparr>m_buffer = bs @ rest, m_type = request\<rparr> hs = (Inr resp, hs'))"

lemma follow_run: "server_run handler evs s = Some s' \<Longrightarrow> follow handler evs s = s'"
  by (induction evs arbitrary: s) (auto split: option.splits)

lemma session_turn_answer:
  assumes "serving p s" "4 \<le> length xs" "length xs \<le> 250"
    and "answers handler (frame tid xs) (sv_handler s) resp hs"
  defines "s' \<equiv> session_turn handler p (frame tid xs) s"
  shows "serving p s'" "sv_handler s' = hs" "written p s' = written p s @ du_buffer resp"
    "sv_manager s' = sv_manager s" "q \<noteq> p \<Longrightarrow> sv_heap s' q = sv_heap s q"
proof -
  from assms(1) obtain ts where ts: "sv_heap s p = Some ts" "ts_phase ts = reading" "\<not> ts_stop ts"
      "length (ts_buf ts) = MAX_APU_SIZE" by (rule servingE)
  let ?req = "\<lparr>m_buffer = frame tid xs @ drop (6 + length xs) (ts_buf ts), m_type = request\<rparr>"
  let ?ts = "ts\<lparr>ts_buf := m_buffer ?req, ts_read_err := None, ts_phase := writing resp\<rparr>"
  have h: "handler ?req (sv_handler s) = (Inr resp, hs)"
    using assms(4) by (simp add: answers_def)
  have "server_run handler [Read_done p None (frame tid xs), Handler_done p] s =
      Some (set_session p ?ts (s\<lparr>sv_handler := hs\<rparr>))"
    by (rule session_run_handler [where handler = handler, OF ts(1,2,4) assms(2,3) _ refl h]) (simp add: frame_def)
  from follow_run [OF this] ts(3)
  have s': "s' = set_session p (ts\<lparr>ts_buf := m_buffer ?req, ts_read_err := None,
      ts_sent := ts_sent ts @ du_buffer resp, ts_phase := reading\<rparr>) (s\<lparr>sv_handler := hs\<rparr>)"
    unfolding s'_def session_turn_def Let_def
    by (simp add: session_write_done_def Let_def loop_test_def set_session_def)
  show "serving p s'" "sv_handler s' = hs" "written p s' = written p s @ du_buffer resp"
    "sv_manager s' = sv_manager s" "q \<noteq> p \<Longrightarrow> sv_heap s' q = sv_heap s q"
    using ts assms(3) by (simp_all add: s' serving_def written_def)
qed

subsection \<open>Calls of the client over the link\<close>

text \<open>A call whose answer comes in time: older answers that were under way come first and are skipped.\<close>

lemma link_answer:
  assumes "tc_con_pool cl = Some l" "serving p (lk_server l)"
    and "req = \<lparr>m_buffer = frame tid xs, m_type = request\<rparr>" "4 \<le> length xs" "length xs \<le> 250"
    and "answers handler (frame tid xs) (sv_handler (lk_server l)) resp hs"
    and "du_buffer resp = frame tid ys" "ys \<noteq> []" "length ys \<le> 250"
    and "timeout = milliseconds_max \<or> lk_delay l \<le> timeout"
    and "lk_late l = concat (map (\<lambda>(t, zs). frame t zs) stale)"
    and "\<forall>(t, zs) \<in> set stale. t < tid \<and> zs \<noteq> [] \<and> length zs \<le> 250"
  shows "client_send_request (link_ops handler p) req timeout cl =
    Some (Inr (padded_unit tid ys, no_error), cl\<lparr>tc_con_pool := Some
      (l\<lparr>lk_server := session_turn handler p (frame tid xs) (lk_server l), lk_received := [], lk_late := [],
         lk_timeout := None\<rparr>)\<rparr>)"
proof -
  let ?ops = "link_ops handler p"
  let ?l0 = "l\<lparr>lk_received := []\<rparr>" and ?s = "session_turn handler p (frame tid xs) (lk_server l)"
  let ?l1 = "if timeout \<noteq> milliseconds_max then expires_after ?ops timeout ?l0 else expires_never ?ops ?l0"
  let ?l2 = "link_write handler p (du_buffer req) ?l1"
  have req: "du_buffer req = frame tid xs" "transaction_id req = Inr tid"
    by (simp_all add: assms(3) du_buffer_def frame_def)
  have l1: "in_time ?l1" "lk_server ?l1 = lk_server l" "lk_late ?l1 = lk_late l" "lk_received ?l1 = []"
    using assms(10) by (auto simp: in_time_def)
  have l2: "?l2 = ?l1\<lparr>lk_server := ?s, lk_received := lk_late l @ frame tid ys, lk_late := []\<rparr>"
    using session_turn_answer(3) [OF assms(2,4,5,6)] assms(7) l1
    by (simp add: link_write_def Let_def req)
  have "lk_received ?l2 = concat (map (\<lambda>(t, zs). frame t zs) stale) @ frame tid ys @ []"
    using l2 assms(11) by simp
  from send_request_frames [OF link_stream_contract link_error_contract _ req(2) link_clear_buffer _ assms(12)
      order_refl assms(8,9) this, where pool = "tc_con_pool cl" and ?pool1.0 = None and timeout = timeout] assms(1)
  obtain l' where l': "send_request ?ops req timeout (tc_con_pool cl) =
        Some (Inr (padded_unit tid ys, no_error), Some (l'\<lparr>lk_timeout := None\<rparr>))"
      "lk_received l' = []" "response_loop ?ops tid ?l2 = Some (Inr (padded_unit tid ys, no_error), l')"
    by auto
  have "l'\<lparr>lk_received := []\<rparr> = ?l2\<lparr>lk_received := []\<rparr>"
    by (rule response_loop_keeps [OF l'(3)]) (simp add: link_ops_def)
  then have "l'\<lparr>lk_timeout := None\<rparr> =
      l\<lparr>lk_server := ?s, lk_received := [], lk_late := [], lk_timeout := None\<rparr>"
    using l2 l'(2) by (cases l', cases l) (auto split: if_splits)
  with l'(1) show ?thesis by (simp add: client_send_request_def)
qed

text \<open>A call whose answer comes too late: the client gets \<open>read_timeout\<close>, but the server has served the
  request, and its answer is under way.\<close>

lemma link_timeout:
  assumes "tc_con_pool cl = Some l" "serving p (lk_server l)"
    and "req = \<lparr>m_buffer = frame tid xs, m_type = request\<rparr>" "4 \<le> length xs" "length xs \<le> 250"
    and "answers handler (frame tid xs) (sv_handler (lk_server l)) resp hs"
    and "timeout \<noteq> milliseconds_max" "timeout < lk_delay l"
  shows "client_send_request (link_ops handler p) req timeout cl =
    Some (Inr (tcp_data_unit_empty, client_error read_timeout), cl\<lparr>tc_con_pool := Some
      (l\<lparr>lk_server := session_turn handler p (frame tid xs) (lk_server l), lk_received := [],
         lk_late := lk_late l @ du_buffer resp, lk_timeout := None\<rparr>)\<rparr>)"
proof -
  let ?ops = "link_ops handler p" and ?s = "session_turn handler p (frame tid xs) (lk_server l)"
  let ?l2 = "l\<lparr>lk_received := [], lk_timeout := Some timeout, lk_server := ?s, lk_late := lk_late l @ du_buffer resp\<rparr>"
  have req: "du_buffer req = frame tid xs" "transaction_id req = Inr tid"
    by (simp_all add: assms(3) du_buffer_def frame_def)
  have "send_buffer ?ops (frame tid xs) (l\<lparr>lk_received := [], lk_timeout := Some timeout\<rparr>) = (no_error, ?l2)"
    using session_turn_answer(3) [OF assms(2,4,5,6)] assms(8)
    by (intro send_buffer_all [OF link_error_contract]) (simp add: link_write_def Let_def in_time_def)
  moreover have "read_response ?ops ?l2 = (Inr (tcp_data_unit_empty, net_error timed_out), ?l2)"
    by (simp add: read_response_def Let_def link_ops_def sim_ops_def)
  then have "response_loop ?ops tid ?l2 = Some (Inr (tcp_data_unit_empty, net_error timed_out), ?l2)"
    by (subst response_loop.simps) (simp add: error_contract_simps [OF link_error_contract])
  ultimately have "send_on_connection ?ops req timeout l =
      Some (Inr (tcp_data_unit_empty, client_error read_timeout), ?l2)"
    using assms(7)
    by (simp add: send_on_connection_def link_clear_buffer req Let_def map_timeout_def
        error_contract_simps [OF link_error_contract])
  then show ?thesis
    using assms(1) by (simp add: client_send_request_def send_request_def)
qed

end
