(* ===== verification/Example_Requests.thy ===== *)
theory Example_Requests
  imports Loopback
begin

text \<open>
  What the example handler (test/tcp_server_test.cpp) does with each kind of request, on the wire: the bytes of a
  request with its transaction id are answered by the bytes of a response with the same id. A request for
  addresses that are not accessible is refused with \<open>illegal_data_address\<close>, any other is carried out.

  The branches of \<open>request_handler::operator()\<close> have the same shape, stated as the locale
  \<open>server_function\<close> and interpreted for the eight functions of the handler.
\<close>

subsection \<open>The handler's memories\<close>

abbreviation memory_row :: "request_handler \<Rightarrow> nat \<Rightarrow> buffer_t" where
  "memory_row h row \<equiv> memorySpace h ! row"

abbreviation access_row :: "request_handler \<Rightarrow> nat \<Rightarrow> buffer_t" where
  "access_row h row \<equiv> validAddresses h ! row"

text \<open>Every accessible address has its coil, input or register in the memory.\<close>

definition handler_ok :: "request_handler \<Rightarrow> bool" where
  "handler_ok h \<longleftrightarrow> length (memorySpace h) = 4 \<and> length (validAddresses h) = 4
     \<and> (\<forall>row < 4. length (access_row h row) < 2 ^ 64)
     \<and> (\<forall>row < 2. length (access_row h row) \<le> length (memory_row h row))
     \<and> (\<forall>row \<in> {2, 3}. \<forall>k < 8 * length (access_row h row).
          get_bit (access_row h row) k \<longrightarrow> 2 * k + 2 \<le> length (memory_row h row))"

definition accessible :: "buffer_t \<Rightarrow> nat \<Rightarrow> nat \<Rightarrow> bool" where
  "accessible valid a n \<longleftrightarrow> a + n < 8 * length valid \<and> (\<forall>k < n. get_bit valid (a + k))"

text \<open>The requests whose bitmap the source builds exactly.\<close>

definition exact_range :: "nat \<Rightarrow> nat \<Rightarrow> bool" where
  "exact_range a n \<longleftrightarrow> 0 < n \<and> n \<le> 65535 \<and> a \<le> 65535 \<and> n mod 8 + a mod 8 < 8"

lemma accessible_range:
  "accessible valid a n \<longleftrightarrow> a + n < 8 * length valid \<and> (\<forall>k. a \<le> k \<and> k < a + n \<longrightarrow> get_bit valid k)"
proof -
  have "(\<forall>k < n. get_bit valid (a + k)) \<longleftrightarrow> (\<forall>k. a \<le> k \<and> k < a + n \<longrightarrow> get_bit valid k)"
    by (metis add_less_cancel_left le_add1 le_add_diff_inverse)
  then show ?thesis by (simp add: accessible_def)
qed

lemma exact_range_legal:
  assumes "exact_range a n" "length valid < 2 ^ 64"
  obtains bm where "create_request_bit_map (int a) (int n) = Inr bm"
    "legal_address valid bm (int a) = Inr (accessible valid a n)"
  using that create_exact [of n a] legal_exact [of n a valid] assms
  by (auto simp: exact_range_def res_bind_def accessible_range)

lemma handler_okD:
  assumes "handler_ok h" "row < 4"
  shows "row < length (memorySpace h)" "row < length (validAddresses h)" "length (access_row h row) < 2 ^ 64"
  using assms by (simp_all add: handler_ok_def)

lemma bits_in_memory:
  "handler_ok h \<Longrightarrow> row < 2 \<Longrightarrow> accessible (access_row h row) a n \<Longrightarrow> a + n < 8 * length (memory_row h row)"
  by (force simp: handler_ok_def accessible_def)

lemma words_in_memory:
  assumes "handler_ok h" "row \<in> {2, 3}" "0 < n" "accessible (access_row h row) a n"
  shows "2 * (a + n) \<le> length (memory_row h row)"
proof -
  have "get_bit (access_row h row) (a + (n - 1))" "a + (n - 1) < 8 * length (access_row h row)"
    using assms(3,4) unfolding accessible_def by (blast intro: diff_less zero_less_one, linarith)
  then have "2 * (a + (n - 1)) + 2 \<le> length (memory_row h row)"
    using assms(1,2) unfolding handler_ok_def by blast
  then show ?thesis using assms(3) by simp
qed

lemma handler_ok_update:
  assumes "handler_ok h" "row < 4" "length mem = length (memory_row h row)"
  shows "handler_ok (h\<lparr>memorySpace := (memorySpace h)[row := mem]\<rparr>)"
proof -
  have "length ((memorySpace h)[row := mem] ! i) = length (memory_row h i)" if "i < 4" for i
    using that assms by (cases "i = row") (auto simp: handler_ok_def)
  with assms(1) show ?thesis by (simp add: handler_ok_def)
qed

subsection \<open>A function of the server\<close>

locale server_function = pdu_message serialize size_of encode of_iterator fcode wf
  for serialize :: "'m \<Rightarrow> buffer_iterator \<Rightarrow> buffer_iterator option"
    and size_of :: "'m \<Rightarrow> nat"
    and encode :: "'m \<Rightarrow> uint8 list"
    and of_iterator :: "const_buffer_iterator \<Rightarrow> 'm option"
    and fcode :: function_code_t
    and wf :: "'m \<Rightarrow> bool" +
  fixes row :: nat
    and address :: "'m \<Rightarrow> uint16"
    and count :: "'m \<Rightarrow> int"
    and act :: "uint16 \<Rightarrow> uint8 \<Rightarrow> request_handler \<Rightarrow> 'm \<Rightarrow> buffer_t \<Rightarrow> (tcp_data_unit \<times> request_handler) result"
  assumes row: "row < 4"
    and branch: "answered tid uid fcode req \<Longrightarrow> handle_request req h =
      with_legal_request tid uid fcode (pdu fcode request of_iterator req) address count row h (act tid uid h)"
begin

lemma handled:
  assumes "handler_ok h" "wf m" "exact_range (unat (address m)) n" "count m = int n"
  obtains bm where "create_request_bit_map (uint (address m)) (int n) = Inr bm"
    "handle_request \<lparr>m_buffer = frame tid (encode m) @ rest, m_type = request\<rparr> h =
      (if accessible (access_row h row) (unat (address m)) n then act tid (encode m ! 0) h m bm
       else res_bind (exception_answer tid (encode m ! 0) fcode illegal_data_address) (\<lambda>du. Inr (du, h)))"
proof -
  let ?req = "\<lparr>m_buffer = frame tid (encode m) @ rest, m_type = request\<rparr>"
  note ok = handler_okD [OF assms(1) row]
  have ua: "uint (address m) = int (unat (address m))" by simp
  obtain bm where bm: "create_request_bit_map (uint (address m)) (int n) = Inr bm"
    "legal_address (access_row h row) bm (uint (address m)) = Inr (accessible (access_row h row) (unat (address m)) n)"
    unfolding ua by (rule exact_range_legal [OF assms(3) ok(3)])
  have req: "?req = \<lparr>m_buffer = mbap tid (size_of m) @ encode m @ rest, m_type = request\<rparr>"
    by (simp add: frame_def length_encode)
  show thesis
  proof (rule that [OF bm(1)])
    show "handle_request ?req h =
      (if accessible (access_row h row) (unat (address m)) n then act tid (encode m ! 0) h m bm
       else res_bind (exception_answer tid (encode m ! 0) fcode illegal_data_address) (\<lambda>du. Inr (du, h)))"
      unfolding branch [OF received_fields [OF req]]
      by (rule legal_request_branch [where address = address and count = count, OF req assms(2) ok(2) _ bm(2)]) (simp only: assms(4) bm(1))
  qed
qed

text \<open>Refused, and carried out.\<close>

lemma refused:
  assumes "handler_ok h" "wf m" "exact_range (unat (address m)) n" "count m = int n"
    and "\<not> accessible (access_row h row) (unat (address m)) n"
  shows "answers request_handler_call (frame tid (encode m)) h
    \<lparr>m_buffer = frame tid [encode m ! 0, fcode OR 0x80, 2], m_type = response\<rparr> h"
  unfolding answers_def
proof
  fix rest
  show "request_handler_call \<lparr>m_buffer = frame tid (encode m) @ rest, m_type = request\<rparr> h =
      (Inr \<lparr>m_buffer = frame tid [encode m ! 0, fcode OR 0x80, 2], m_type = response\<rparr>, h)"
    by (rule handled [OF assms(1-4), of tid rest])
      (use assms(5) in \<open>simp add: request_handler_call_def exception_answer_image frame_def res_bind_def eval_nat_numeral\<close>)
qed

lemma carried_out:
  assumes "handler_ok h" "wf m" "exact_range (unat (address m)) n" "count m = int n"
    and "accessible (access_row h row) (unat (address m)) n"
    and "\<And>bm. create_request_bit_map (uint (address m)) (int n) = Inr bm \<Longrightarrow>
      act tid (encode m ! 0) h m bm = Inr (resp, h')"
  shows "answers request_handler_call (frame tid (encode m)) h resp h'"
  unfolding answers_def
proof
  fix rest
  show "request_handler_call \<lparr>m_buffer = frame tid (encode m) @ rest, m_type = request\<rparr> h = (Inr resp, h')"
    by (rule handled [OF assms(1-4), of tid rest]) (use assms(5,6) in \<open>simp add: request_handler_call_def\<close>)
qed

end

subsection \<open>The eight functions\<close>

interpretation rcq_served: server_function read_coils_request_serialize read_coils_request_size
  read_coils_request_encode read_coils_request_of_iterator read_coils_request_function_code
  "\<lambda>_. True" 0 read_coils_request.start_address
  "\<lambda>q. uint (read_coils_request.len q)" read_coils_act
  by (intro server_function.intro rcq.pdu_message_axioms server_function_axioms.intro)
    (simp_all add: dispatch handle_read_coils_def read_coils_request_function_code_def read_coils_request_type_def)

interpretation rdq_served: server_function read_discrete_inputs_request_serialize read_discrete_inputs_request_size
  read_discrete_inputs_request_encode read_discrete_inputs_request_of_iterator read_discrete_inputs_request_function_code
  "\<lambda>_. True" 1 read_discrete_inputs_request.start_address
  "\<lambda>q. uint (read_discrete_inputs_request.len q)" read_discrete_inputs_act
  by (intro server_function.intro rdq.pdu_message_axioms server_function_axioms.intro)
    (simp_all add: dispatch handle_read_discrete_inputs_def read_discrete_inputs_request_function_code_def read_discrete_inputs_request_type_def)

interpretation rhq_served: server_function read_holding_registers_request_serialize read_holding_registers_request_size
  read_holding_registers_request_encode read_holding_registers_request_of_iterator read_holding_registers_request_function_code
  "\<lambda>_. True" 2 read_holding_registers_request.start_address
  "\<lambda>q. uint (read_holding_registers_request.len q)" read_holding_registers_act
  by (intro server_function.intro rhq.pdu_message_axioms server_function_axioms.intro)
    (simp_all add: dispatch handle_read_holding_registers_def read_holding_registers_request_function_code_def read_holding_registers_request_type_def)

interpretation riq_served: server_function read_input_registers_request_serialize read_input_registers_request_size
  read_input_registers_request_encode read_input_registers_request_of_iterator read_input_registers_request_function_code
  "\<lambda>_. True" 3 read_input_registers_request.start_address
  "\<lambda>q. uint (read_input_registers_request.len q)" read_input_registers_act
  by (intro server_function.intro riq.pdu_message_axioms server_function_axioms.intro)
    (simp_all add: dispatch handle_read_input_registers_def read_input_registers_request_function_code_def read_input_registers_request_type_def)

interpretation scq_served: server_function write_single_coil_request_serialize write_single_coil_request_size
  write_single_coil_request_encode write_single_coil_request_of_iterator write_single_coil_request_function_code
  "\<lambda>_. True" 0 write_single_coil_request.start_address
  "\<lambda>q. 1" write_single_coil_act
  by (intro server_function.intro scq.pdu_message_axioms server_function_axioms.intro)
    (simp_all add: dispatch handle_write_single_coil_def write_single_coil_request_function_code_def write_single_coil_request_type_def)

interpretation srq_served: server_function write_single_register_request_serialize write_single_register_request_size
  write_single_register_request_encode write_single_register_request_of_iterator write_single_register_request_function_code
  "\<lambda>_. True" 2 write_single_register_request.start_address
  "\<lambda>q. 1" write_single_register_act
  by (intro server_function.intro srq.pdu_message_axioms server_function_axioms.intro)
    (simp_all add: dispatch handle_write_single_register_def write_single_register_request_function_code_def write_single_register_request_type_def)

interpretation wcq_served: server_function write_multiple_coils_request_serialize write_multiple_coils_request_size
  write_multiple_coils_request_encode write_multiple_coils_request_of_iterator write_multiple_coils_request_function_code
  "\<lambda>m. length (write_multiple_coils_request.vals m) < 256" 0 write_multiple_coils_request.start_address
  "\<lambda>q. uint (write_multiple_coils_request.len q)" write_multiple_coils_act
  by (intro server_function.intro wcq.pdu_message_axioms server_function_axioms.intro)
    (simp_all add: dispatch handle_write_multiple_coils_def write_multiple_coils_request_function_code_def write_multiple_coils_request_type_def)

interpretation wrq_served: server_function write_multiple_registers_request_serialize write_multiple_registers_request_size
  write_multiple_registers_request_encode write_multiple_registers_request_of_iterator write_multiple_registers_request_function_code
  "\<lambda>m. length (write_multiple_registers_request.vals m) < 128" 2 write_multiple_registers_request.start_address
  "\<lambda>q. uint (write_multiple_registers_request.len q)" write_multiple_registers_act
  by (intro server_function.intro wrq.pdu_message_axioms server_function_axioms.intro)
    (simp_all add: dispatch handle_write_multiple_registers_def write_multiple_registers_request_function_code_def write_multiple_registers_request_type_def)

end
