(* ===== verification/Device.thy ===== *)
theory Device
  imports Example_Requests
begin

text \<open>
  What the whole system is for: a client sees the memories of the server as a device it can read and write.
  \<open>device_step\<close> is that device, with no network, message or byte in it. \<open>command_pdu\<close> is a command on the wire, a
  request of core/messages, and \<open>command_decode\<close> what a client program makes of the response (\<open>is_exception\<close>,
  \<open>pdu<T>\<close>, \<open>modbus_response_t\<close>), as the programs of test/tcp_server_test.cpp do. The refinement says that the
  example server answers the request of a command with the reply of the device and changes its memories as the
  device does.
\<close>

subsection \<open>The device\<close>

datatype command =
    Read_coils uint16 uint16
  | Read_discrete_inputs uint16 uint16
  | Read_holding_registers uint16 uint16
  | Read_input_registers uint16 uint16
  | Switch_on uint16
  | Write_coils uint16 "bool list"
  | Write_register uint16 uint16
  | Write_registers uint16 "uint16 list"

datatype reply =
    Bits "bool list"
  | Words "uint16 list"
  | Done
  | Refused exception_code_t
  | Failed

record device =
  dv_coils :: "nat \<Rightarrow> bool"
  dv_inputs :: "nat \<Rightarrow> bool"
  dv_holding :: "nat \<Rightarrow> uint16"
  dv_input_registers :: "nat \<Rightarrow> uint16"

definition overlay :: "nat \<Rightarrow> 'v list \<Rightarrow> (nat \<Rightarrow> 'v) \<Rightarrow> nat \<Rightarrow> 'v" where
  "overlay a vs f k = (if a \<le> k \<and> k < a + length vs then vs ! (k - a) else f k)"

text \<open>The memory a command is about, its address and its number of values.\<close>

fun command_row :: "command \<Rightarrow> nat" where
  "command_row (Read_coils _ _) = 0"
| "command_row (Read_discrete_inputs _ _) = 1"
| "command_row (Read_holding_registers _ _) = 2"
| "command_row (Read_input_registers _ _) = 3"
| "command_row (Switch_on _) = 0"
| "command_row (Write_coils _ _) = 0"
| "command_row (Write_register _ _) = 2"
| "command_row (Write_registers _ _) = 2"

fun command_range :: "command \<Rightarrow> nat \<times> nat" where
  "command_range (Read_coils a n) = (unat a, unat n)"
| "command_range (Read_discrete_inputs a n) = (unat a, unat n)"
| "command_range (Read_holding_registers a n) = (unat a, unat n)"
| "command_range (Read_input_registers a n) = (unat a, unat n)"
| "command_range (Switch_on a) = (unat a, 1)"
| "command_range (Write_coils a bs) = (unat a, length bs)"
| "command_range (Write_register a _) = (unat a, 1)"
| "command_range (Write_registers a ws) = (unat a, length ws)"

text \<open>A command the device carries out.\<close>

fun device_act :: "command \<Rightarrow> device \<Rightarrow> reply \<times> device" where
  "device_act (Read_coils a n) d = (Bits (map (dv_coils d) [unat a..<unat a + unat n]), d)"
| "device_act (Read_discrete_inputs a n) d = (Bits (map (dv_inputs d) [unat a..<unat a + unat n]), d)"
| "device_act (Read_holding_registers a n) d = (Words (map (dv_holding d) [unat a..<unat a + unat n]), d)"
| "device_act (Read_input_registers a n) d = (Words (map (dv_input_registers d) [unat a..<unat a + unat n]), d)"
| "device_act (Switch_on a) d = (Done, d\<lparr>dv_coils := overlay (unat a) [True] (dv_coils d)\<rparr>)"
| "device_act (Write_coils a bs) d = (Done, d\<lparr>dv_coils := overlay (unat a) bs (dv_coils d)\<rparr>)"
| "device_act (Write_register a v) d = (Done, d\<lparr>dv_holding := overlay (unat a) [v] (dv_holding d)\<rparr>)"
| "device_act (Write_registers a ws) d = (Done, d\<lparr>dv_holding := overlay (unat a) ws (dv_holding d)\<rparr>)"

text \<open>\<open>valid\<close> are the access maps of the four memories.\<close>

definition device_step :: "buffer_t list \<Rightarrow> command \<Rightarrow> device \<Rightarrow> reply \<times> device" where
  "device_step valid c d = (case command_range c of (a, n) \<Rightarrow>
     if accessible (valid ! command_row c) a n then device_act c d
     else (Refused (exception_code_value illegal_data_address), d))"

fun device_run :: "buffer_t list \<Rightarrow> command list \<Rightarrow> device \<Rightarrow> reply list \<times> device" where
  "device_run valid [] d = ([], d)"
| "device_run valid (c # cs) d =
     (case device_step valid c d of (r, d) \<Rightarrow>
      case device_run valid cs d of (rs, d) \<Rightarrow> (r # rs, d))"

text \<open>The commands the library carries without the errors of the server's helpers and the client's limit on
  responses: the bitmap is exact, a write of coils is not a multiple of eight and starts on a byte boundary or
  touches two bytes, and neither request nor response is longer than the buffers.\<close>

fun command_ok :: "command \<Rightarrow> bool" where
  "command_ok (Read_coils a n) \<longleftrightarrow> exact_range (unat a) (unat n) \<and> unat n \<le> 1976"
| "command_ok (Read_discrete_inputs a n) \<longleftrightarrow> exact_range (unat a) (unat n) \<and> unat n \<le> 1976"
| "command_ok (Read_holding_registers a n) \<longleftrightarrow> exact_range (unat a) (unat n) \<and> unat n \<le> 123"
| "command_ok (Read_input_registers a n) \<longleftrightarrow> exact_range (unat a) (unat n) \<and> unat n \<le> 123"
| "command_ok (Switch_on a) \<longleftrightarrow> exact_range (unat a) 1"
| "command_ok (Write_coils a bs) \<longleftrightarrow> exact_range (unat a) (length bs) \<and> length bs \<le> 1944
     \<and> length bs mod 8 \<noteq> 0 \<and> (unat a mod 8 = 0 \<or> length bs + unat a mod 8 < 16)"
| "command_ok (Write_register a v) \<longleftrightarrow> exact_range (unat a) 1"
| "command_ok (Write_registers a ws) \<longleftrightarrow> exact_range (unat a) (length ws) \<and> length ws \<le> 121"

subsection \<open>Commands on the wire\<close>

text \<open>The PDU of a command's request, and what a client program makes of the response.\<close>

definition decode_pdu ::
  "function_code_t \<Rightarrow> message_type \<Rightarrow> (const_buffer_iterator \<Rightarrow> 'm option) \<Rightarrow> ('m \<Rightarrow> reply) \<Rightarrow> tcp_data_unit \<Rightarrow> reply" where
  "decode_pdu fc ty of_iterator f du =
     (case is_exception du of
        Inl _ \<Rightarrow> Failed
      | Inr True \<Rightarrow> (case pdu_exception exception_response_type exception_response_of_iterator du of
            Inr (Some m) \<Rightarrow> Refused (exception_response.exception_code m) | _ \<Rightarrow> Failed)
      | Inr False \<Rightarrow> (case pdu fc ty of_iterator du of Inr (Some m) \<Rightarrow> f m | _ \<Rightarrow> Failed))"

text \<open>The values of a typed view, one by one.\<close>

definition view_values :: "(uint32 \<Rightarrow> modbus_response_t \<Rightarrow> 'v result) \<Rightarrow> nat \<Rightarrow> modbus_response_t \<Rightarrow> 'v list option" where
  "view_values get n r = those (map (\<lambda>k. case get (of_nat k) r of Inl _ \<Rightarrow> None | Inr v \<Rightarrow> Some v) [0..<n])"

definition bits_reply :: "function_code_t \<Rightarrow> uint16 \<Rightarrow> uint16 \<Rightarrow> buffer_t \<Rightarrow> reply" where
  "bits_reply fc a n vs = (case view_values getBool (unat n)
       (new_modbus_response (data_type fc) (Some vs) a (of_nat (length vs))) of
     None \<Rightarrow> Failed | Some bs \<Rightarrow> Bits bs)"

definition words_reply :: "function_code_t \<Rightarrow> uint16 \<Rightarrow> uint16 \<Rightarrow> buffer_t \<Rightarrow> reply" where
  "words_reply fc a n vs = (case view_values (\<lambda>i. getUINT16 i normal) (unat n)
       (new_modbus_response (data_type fc) (Some vs) a (of_nat (length vs))) of
     None \<Rightarrow> Failed | Some ws \<Rightarrow> Words ws)"

fun command_decode :: "command \<Rightarrow> tcp_data_unit \<Rightarrow> reply" where
  "command_decode (Read_coils a n) =
     decode_pdu read_coils_response_function_code read_coils_response_type read_coils_response_of_iterator
       (\<lambda>m. bits_reply read_coils_response_function_code a n (read_coils_response.vals m))"
| "command_decode (Read_discrete_inputs a n) =
     decode_pdu read_discrete_inputs_response_function_code read_discrete_inputs_response_type read_discrete_inputs_response_of_iterator
       (\<lambda>m. bits_reply read_discrete_inputs_response_function_code a n (read_discrete_inputs_response.inputs m))"
| "command_decode (Read_holding_registers a n) =
     decode_pdu read_holding_registers_response_function_code read_holding_registers_response_type read_holding_registers_response_of_iterator
       (\<lambda>m. words_reply read_holding_registers_response_function_code a n (read_holding_registers_response.vals m))"
| "command_decode (Read_input_registers a n) =
     decode_pdu read_input_registers_response_function_code read_input_registers_response_type read_input_registers_response_of_iterator
       (\<lambda>m. words_reply read_input_registers_response_function_code a n (read_input_registers_response.vals m))"
| "command_decode (Switch_on a) =
     decode_pdu write_single_coil_response_function_code write_single_coil_response_type write_single_coil_response_of_iterator
       (\<lambda>m. Done)"
| "command_decode (Write_coils a bs) =
     decode_pdu write_multiple_coils_response_function_code write_multiple_coils_response_type write_multiple_coils_response_of_iterator
       (\<lambda>m. Done)"
| "command_decode (Write_register a v) =
     decode_pdu write_single_register_response_function_code write_single_register_response_type write_single_register_response_of_iterator
       (\<lambda>m. Done)"
| "command_decode (Write_registers a ws) =
     decode_pdu write_multiple_registers_response_function_code write_multiple_registers_response_type write_multiple_registers_response_of_iterator
       (\<lambda>m. Done)"

fun command_pdu :: "uint8 \<Rightarrow> command \<Rightarrow> uint8 list" where
  "command_pdu u (Read_coils a n) = read_coils_request_encode
     (new_read_coils_request u a n)"
| "command_pdu u (Read_discrete_inputs a n) = read_discrete_inputs_request_encode
     (new_read_discrete_inputs_request u a n)"
| "command_pdu u (Read_holding_registers a n) = read_holding_registers_request_encode
     (new_read_holding_registers_request u a n)"
| "command_pdu u (Read_input_registers a n) = read_input_registers_request_encode
     (new_read_input_registers_request u a n)"
| "command_pdu u (Switch_on a) = write_single_coil_request_encode
     (new_write_single_coil_request u a True)"
| "command_pdu u (Write_coils a bs) = (case new_write_multiple_coils_request_bools u a bs of
     None \<Rightarrow> [] | Some q \<Rightarrow> write_multiple_coils_request_encode q)"
| "command_pdu u (Write_register a v) = write_single_register_request_encode
     (new_write_single_register_request u a v)"
| "command_pdu u (Write_registers a ws) = write_multiple_registers_request_encode
     (new_write_multiple_registers_request u a (of_nat (length ws)) ws)"

subsection \<open>A request of a command\<close>

context pdu_message
begin

lemma decode_received:
  "wf m \<Longrightarrow> decode_pdu fcode response of_iterator f (padded_unit tid (encode m @ xs)) = f m"
  using pdu_received [of m response tid _ "xs @ _"] received_not_exception(1) [of tid _ m "xs @ _" response]
  by (simp add: decode_pdu_def padded_unit_def frame_def)

end

lemma decode_refused:
  assumes "bit c 7"
  shows "decode_pdu fc ty parser f (padded_unit tid [u, c, code]) = Refused code"
  using assms
  by (simp add: decode_pdu_def padded_unit_def frame_def pdu_exception_def res_bind_def exception_response_type_def
      exr_defs wire_simps nth_append ub_def catch_all_def)

lemma view_values_ok:
  assumes "\<And>k. k < n \<Longrightarrow> get (of_nat k) r = Inr (f k)"
  shows "view_values get n r = Some (map f [0..<n])"
proof -
  have "map (\<lambda>k. case get (of_nat k) r of Inl _ \<Rightarrow> None | Inr v \<Rightarrow> Some v) [0..<n] = map (\<lambda>k. Some (f k)) [0..<n]"
    using assms by simp
  moreover have "those (map (\<lambda>k. Some (f k)) ks) = Some (map f ks)" for ks by (induction ks) simp_all
  ultimately show ?thesis unfolding view_values_def by metis
qed

lemma bits_reply_ok:
  assumes "fc \<in> {1, 2}" "0 < length vs" "length vs \<le> 247" "unat n \<le> 8 * length vs"
  shows "bits_reply fc a n vs = Bits (map (get_bit vs) [0..<unat n])"
proof -
  let ?r = "new_modbus_response (data_type fc) (Some vs) a (of_nat (length vs))"
  have v: "isValid ?r" "mr_data ?r = Some vs"
    using assms(1-3) of_nat_uint16_eq [of "length vs" 0] by (auto simp: new_modbus_response_def isValid_def data_type_def)
  have "getBool (of_nat k) ?r = Inr (get_bit vs k)" if "k < unat n" for k
  proof -
    have "unat (of_nat k :: uint32) = k" using that assms(3,4) by (simp add: unat_of_nat)
    then show ?thesis using getBool_reads [OF v, of "of_nat k"] that assms(4) by simp
  qed
  then show ?thesis
    using view_values_ok [of "unat n" getBool ?r "get_bit vs"] by (simp add: bits_reply_def)
qed

lemma words_reply_ok:
  assumes "fc \<in> {3, 4}" "0 < length ws" "length ws \<le> 123" "unat n = length ws"
  shows "words_reply fc a n (enc_words ws) = Words ws"
proof -
  let ?r = "new_modbus_response (data_type fc) (Some (enc_words ws)) a (of_nat (length (enc_words ws)))"
  have v: "ws \<noteq> []" "(of_nat (length (enc_words ws)) :: uint16) \<noteq> 0" "data_type fc \<noteq> invalid_data_type"
    using assms(1-3) of_nat_uint16_eq [of "2 * length ws" 0] by (auto simp: data_type_def)
  have "getUINT16 (of_nat k) normal ?r = Inr (ws ! k)" if "k < unat n" for k
  proof -
    have "unat (of_nat k :: uint32) = k" using that assms(3,4) by (simp add: unat_of_nat)
    then show ?thesis using view_of_words(3) [OF v refl, of "of_nat k" a] that assms(4) by simp
  qed
  then show ?thesis
    using view_values_ok [of "unat n" "\<lambda>i. getUINT16 i normal" ?r "nth ws"] assms(4)
    by (simp add: words_reply_def map_nth)
qed

context pdu_message
begin

lemma unit_image:
  "tcp_data_unit_of_pdu size_of serialize ty tid m = Some \<lparr>m_buffer = frame tid (encode m), m_type = ty\<rparr>"
  by (simp add: tcp_data_unit_of_pdu_image frame_def length_encode)

end

text \<open>What a request comes to, whatever is left in the receive buffer: the server refuses it, or carries it
  out, with the reply \<open>r\<close> for the client and a memory as \<open>P\<close> says.\<close>

definition served_as ::
  "uint16 \<Rightarrow> request_handler \<Rightarrow> bool \<Rightarrow> reply \<Rightarrow> (request_handler \<Rightarrow> bool) \<Rightarrow> uint8 list \<Rightarrow>
   (tcp_data_unit \<Rightarrow> reply) \<Rightarrow> bool" where
  "served_as tid h acc r P xs decode \<longleftrightarrow>
     (\<exists>resp ys h'. answers request_handler_call (frame tid xs) h resp h'
        \<and> du_buffer resp = frame tid ys \<and> ys \<noteq> [] \<and> length ys \<le> 250
        \<and> decode (padded_unit tid ys) = (if acc then r else Refused (exception_code_value illegal_data_address))
        \<and> (if acc then P h' else h' = h))"

text \<open>A function of the server with the class of its responses. The answer may be longer than the response, as
  the handler mirrors some requests.\<close>

locale client_function = server_function serialize size_of encode of_iterator fcode wf row address count act
  + r: pdu_message r_serialize r_size r_encode r_of_iterator fcode r_wf
  for serialize :: "'m \<Rightarrow> buffer_iterator \<Rightarrow> buffer_iterator option"
    and size_of :: "'m \<Rightarrow> nat"
    and encode :: "'m \<Rightarrow> uint8 list"
    and of_iterator :: "const_buffer_iterator \<Rightarrow> 'm option"
    and fcode :: function_code_t
    and wf :: "'m \<Rightarrow> bool"
    and row :: nat
    and address :: "'m \<Rightarrow> uint16"
    and count :: "'m \<Rightarrow> int"
    and act :: "uint16 \<Rightarrow> uint8 \<Rightarrow> request_handler \<Rightarrow> 'm \<Rightarrow> buffer_t \<Rightarrow> (tcp_data_unit \<times> request_handler) result"
    and r_serialize :: "'r \<Rightarrow> buffer_iterator \<Rightarrow> buffer_iterator option"
    and r_size :: "'r \<Rightarrow> nat"
    and r_encode :: "'r \<Rightarrow> uint8 list"
    and r_of_iterator :: "const_buffer_iterator \<Rightarrow> 'r option"
    and r_wf :: "'r \<Rightarrow> bool"
begin

lemma command_served:
  assumes "handler_ok h" "wf m"
    and "address m = a" "encode m ! 0 = u" "count m = int n" "exact_range (unat a) n"
    and carry: "accessible (access_row h row) (unat a) n \<Longrightarrow> \<exists>ty m' xs h'.
      (\<forall>bm. create_request_bit_map (int (unat a)) (int n) = Inr bm \<longrightarrow>
         act tid u h m bm =
           Inr (\<lparr>m_buffer = frame tid (r_encode m' @ xs), m_type = ty\<rparr>, h'))
      \<and> r_wf m' \<and> r_size m' + length xs \<le> 250 \<and> f m' = r \<and> P h'"
  shows "served_as tid h (accessible (access_row h row) (unat a) n) r P
    (encode m) (decode_pdu fcode response r_of_iterator f)"
proof (cases "accessible (access_row h row) (unat a) n")
  case True
  from carry [OF this] obtain ty m' xs h' where act:
      "\<And>bm. create_request_bit_map (int (unat a)) (int n) = Inr bm \<Longrightarrow>
         act tid u h m bm = Inr (\<lparr>m_buffer = frame tid (r_encode m' @ xs), m_type = ty\<rparr>, h')"
      and m': "r_wf m'" "r_size m' + length xs \<le> 250" "f m' = r" "P h'"
    by blast
  have "answers request_handler_call (frame tid (encode m)) h \<lparr>m_buffer = frame tid (r_encode m' @ xs), m_type = ty\<rparr> h'"
    by (rule carried_out [OF assms(1,2)]) (use assms(3-6) True act in simp_all)
  moreover have "r_encode m' @ xs \<noteq> []" "length (r_encode m' @ xs) \<le> 250" using m'(2) by (simp_all add: r.length_encode)
  ultimately show ?thesis
    using True m' r.decode_received [OF m'(1), of f tid xs] unfolding served_as_def by (fastforce simp: du_buffer_def)
next
  case False
  have "answers request_handler_call (frame tid (encode m)) h
      \<lparr>m_buffer = frame tid [u, fcode OR 0x80, 2], m_type = response\<rparr> h"
    using refused [OF assms(1,2), of n tid] assms(3-6) False by simp
  with False decode_refused [OF bit_or_0x80] show ?thesis
    unfolding served_as_def by (fastforce simp: du_buffer_def)
qed

text \<open>A branch that copies from its memory, and one that changes it.\<close>

lemma read_served:
  assumes "handler_ok h" "wf m"
    and "address m = a" "encode m ! 0 = u" "count m = int n" "exact_range (unat a) n"
    and act: "\<And>bm. act tid u h m bm =
      from_row row h (copy bm) (\<lambda>bytes. tcp_data_unit_of_pdu r_size r_serialize response tid (mk bytes))"
    and "accessible (access_row h row) (unat a) n \<Longrightarrow> \<exists>bytes.
      (\<forall>bm. create_request_bit_map (int (unat a)) (int n) = Inr bm \<longrightarrow> copy bm (memory_row h row) = Inr bytes)
      \<and> r_wf (mk bytes) \<and> r_size (mk bytes) \<le> 250 \<and> f (mk bytes) = r"
  shows "served_as tid h (accessible (access_row h row) (unat a) n) r (\<lambda>h'. h' = h)
    (encode m) (decode_pdu fcode response r_of_iterator f)"
proof (rule command_served [OF assms(1-6)])
  assume "accessible (access_row h row) (unat a) n"
  with assms(8) obtain bytes where
    "\<forall>bm. create_request_bit_map (int (unat a)) (int n) = Inr bm \<longrightarrow> copy bm (memory_row h row) = Inr bytes"
    "r_wf (mk bytes)" "r_size (mk bytes) \<le> 250" "f (mk bytes) = r" by blast
  then show "\<exists>ty m' xs h'. (\<forall>bm. create_request_bit_map (int (unat a)) (int n) = Inr bm \<longrightarrow>
       act tid u h m bm =
         Inr (\<lparr>m_buffer = frame tid (r_encode m' @ xs), m_type = ty\<rparr>, h'))
     \<and> r_wf m' \<and> r_size m' + length xs \<le> 250 \<and> f m' = r \<and> h' = h"
    by (intro exI [of _ response] exI [of _ "mk bytes"] exI [of _ "[]"] exI [of _ h])
      (simp add: act row_ends handler_okD(1) [OF assms(1) row] r.unit_image)
qed

lemma write_served:
  assumes "handler_ok h" "wf m"
    and "address m = a" "encode m ! 0 = u" "count m = int n" "exact_range (unat a) n"
    and act: "\<And>bm. act tid u h m bm =
      on_row row h (change bm) (Some \<lparr>m_buffer = frame tid (r_encode m' @ xs), m_type = ty\<rparr>)"
    and m': "r_wf m'" "r_size m' + length xs \<le> 250" "f m' = r"
    and "accessible (access_row h row) (unat a) n \<Longrightarrow> \<exists>mem.
      (\<forall>bm. create_request_bit_map (int (unat a)) (int n) = Inr bm \<longrightarrow> change bm (memory_row h row) = Inr mem)
      \<and> length mem = length (memory_row h row) \<and> Q mem"
  shows "served_as tid h (accessible (access_row h row) (unat a) n) r
    (\<lambda>h'. \<exists>mem. length mem = length (memory_row h row) \<and> Q mem
      \<and> h' = h\<lparr>memorySpace := (memorySpace h)[row := mem]\<rparr>)
    (encode m) (decode_pdu fcode response r_of_iterator f)"
proof (rule command_served [OF assms(1-6)])
  assume "accessible (access_row h row) (unat a) n"
  with assms(11) obtain mem where mem:
    "\<forall>bm. create_request_bit_map (int (unat a)) (int n) = Inr bm \<longrightarrow> change bm (memory_row h row) = Inr mem"
    "length mem = length (memory_row h row)" "Q mem" by blast
  then show "\<exists>ty m' xs h'. (\<forall>bm. create_request_bit_map (int (unat a)) (int n) = Inr bm \<longrightarrow>
       act tid u h m bm =
         Inr (\<lparr>m_buffer = frame tid (r_encode m' @ xs), m_type = ty\<rparr>, h'))
     \<and> r_wf m' \<and> r_size m' + length xs \<le> 250 \<and> f m' = r
     \<and> (\<exists>mem. length mem = length (memory_row h row) \<and> Q mem
          \<and> h' = h\<lparr>memorySpace := (memorySpace h)[row := mem]\<rparr>)"
    using m' by (intro exI [of _ ty] exI [of _ m'] exI [of _ xs]
        exI [of _ "h\<lparr>memorySpace := (memorySpace h)[row := mem]\<rparr>"])
      (auto simp: act row_ends handler_okD(1) [OF assms(1) row])
qed

end

subsection \<open>The eight functions and their responses\<close>

text \<open>A response has the function code of its request.\<close>

lemma response_codes:
  "read_coils_response_function_code = read_coils_request_function_code"
  "read_discrete_inputs_response_function_code = read_discrete_inputs_request_function_code"
  "read_holding_registers_response_function_code = read_holding_registers_request_function_code"
  "read_input_registers_response_function_code = read_input_registers_request_function_code"
  "write_single_coil_response_function_code = write_single_coil_request_function_code"
  "write_single_register_response_function_code = write_single_register_request_function_code"
  "write_multiple_coils_response_function_code = write_multiple_coils_request_function_code"
  "write_multiple_registers_response_function_code = write_multiple_registers_request_function_code"
  by (simp_all add: read_coils_response_function_code_def read_coils_request_function_code_def
      read_discrete_inputs_response_function_code_def read_discrete_inputs_request_function_code_def
      read_holding_registers_response_function_code_def read_holding_registers_request_function_code_def
      read_input_registers_response_function_code_def read_input_registers_request_function_code_def
      write_single_coil_response_function_code_def write_single_coil_request_function_code_def
      write_single_register_response_function_code_def write_single_register_request_function_code_def
      write_multiple_coils_response_function_code_def write_multiple_coils_request_function_code_def
      write_multiple_registers_response_function_code_def write_multiple_registers_request_function_code_def)

lemmas request_types = read_coils_request_type_def read_coils_response_type_def
  read_discrete_inputs_request_type_def read_discrete_inputs_response_type_def
  read_holding_registers_request_type_def read_holding_registers_response_type_def
  read_input_registers_request_type_def read_input_registers_response_type_def
  write_single_coil_request_type_def write_single_coil_response_type_def
  write_single_register_request_type_def write_single_register_response_type_def
  write_multiple_coils_request_type_def write_multiple_coils_response_type_def
  write_multiple_registers_request_type_def write_multiple_registers_response_type_def

interpretation rcq_client: client_function read_coils_request_serialize read_coils_request_size
  read_coils_request_encode read_coils_request_of_iterator read_coils_request_function_code
  "\<lambda>_. True" 0 read_coils_request.start_address
  "\<lambda>q. uint (read_coils_request.len q)" read_coils_act
  read_coils_response_serialize read_coils_response_size read_coils_response_encode read_coils_response_of_iterator
  "\<lambda>m. length (read_coils_response.vals m) < 256"
  by (rule client_function.intro [OF rcq_served.server_function_axioms rcr.pdu_message_axioms [unfolded response_codes]])

interpretation rdq_client: client_function read_discrete_inputs_request_serialize read_discrete_inputs_request_size
  read_discrete_inputs_request_encode read_discrete_inputs_request_of_iterator read_discrete_inputs_request_function_code
  "\<lambda>_. True" 1 read_discrete_inputs_request.start_address
  "\<lambda>q. uint (read_discrete_inputs_request.len q)" read_discrete_inputs_act
  read_discrete_inputs_response_serialize read_discrete_inputs_response_size read_discrete_inputs_response_encode read_discrete_inputs_response_of_iterator
  "\<lambda>m. length (read_discrete_inputs_response.inputs m) < 256"
  by (rule client_function.intro [OF rdq_served.server_function_axioms rdr.pdu_message_axioms [unfolded response_codes]])

interpretation rhq_client: client_function read_holding_registers_request_serialize read_holding_registers_request_size
  read_holding_registers_request_encode read_holding_registers_request_of_iterator read_holding_registers_request_function_code
  "\<lambda>_. True" 2 read_holding_registers_request.start_address
  "\<lambda>q. uint (read_holding_registers_request.len q)" read_holding_registers_act
  read_holding_registers_response_serialize read_holding_registers_response_size read_holding_registers_response_encode read_holding_registers_response_of_iterator
  "\<lambda>m. length (read_holding_registers_response.vals m) < 256"
  by (rule client_function.intro [OF rhq_served.server_function_axioms rhr.pdu_message_axioms [unfolded response_codes]])

interpretation riq_client: client_function read_input_registers_request_serialize read_input_registers_request_size
  read_input_registers_request_encode read_input_registers_request_of_iterator read_input_registers_request_function_code
  "\<lambda>_. True" 3 read_input_registers_request.start_address
  "\<lambda>q. uint (read_input_registers_request.len q)" read_input_registers_act
  read_input_registers_response_serialize read_input_registers_response_size read_input_registers_response_encode read_input_registers_response_of_iterator
  "\<lambda>m. length (read_input_registers_response.vals m) < 256"
  by (rule client_function.intro [OF riq_served.server_function_axioms rir.pdu_message_axioms [unfolded response_codes]])

interpretation scq_client: client_function write_single_coil_request_serialize write_single_coil_request_size
  write_single_coil_request_encode write_single_coil_request_of_iterator write_single_coil_request_function_code
  "\<lambda>_. True" 0 write_single_coil_request.start_address
  "\<lambda>q. 1" write_single_coil_act
  write_single_coil_response_serialize write_single_coil_response_size write_single_coil_response_encode write_single_coil_response_of_iterator
  "\<lambda>_. True"
  by (rule client_function.intro [OF scq_served.server_function_axioms scr.pdu_message_axioms [unfolded response_codes]])

interpretation srq_client: client_function write_single_register_request_serialize write_single_register_request_size
  write_single_register_request_encode write_single_register_request_of_iterator write_single_register_request_function_code
  "\<lambda>_. True" 2 write_single_register_request.start_address
  "\<lambda>q. 1" write_single_register_act
  write_single_register_response_serialize write_single_register_response_size write_single_register_response_encode write_single_register_response_of_iterator
  "\<lambda>_. True"
  by (rule client_function.intro [OF srq_served.server_function_axioms srr.pdu_message_axioms [unfolded response_codes]])

interpretation wcq_client: client_function write_multiple_coils_request_serialize write_multiple_coils_request_size
  write_multiple_coils_request_encode write_multiple_coils_request_of_iterator write_multiple_coils_request_function_code
  "\<lambda>m. length (write_multiple_coils_request.vals m) < 256" 0 write_multiple_coils_request.start_address
  "\<lambda>q. uint (write_multiple_coils_request.len q)" write_multiple_coils_act
  write_multiple_coils_response_serialize write_multiple_coils_response_size write_multiple_coils_response_encode write_multiple_coils_response_of_iterator
  "\<lambda>_. True"
  by (rule client_function.intro [OF wcq_served.server_function_axioms wcr.pdu_message_axioms [unfolded response_codes]])

interpretation wrq_client: client_function write_multiple_registers_request_serialize write_multiple_registers_request_size
  write_multiple_registers_request_encode write_multiple_registers_request_of_iterator write_multiple_registers_request_function_code
  "\<lambda>m. length (write_multiple_registers_request.vals m) < 128" 2 write_multiple_registers_request.start_address
  "\<lambda>q. uint (write_multiple_registers_request.len q)" write_multiple_registers_act
  write_multiple_registers_response_serialize write_multiple_registers_response_size write_multiple_registers_response_encode write_multiple_registers_response_of_iterator
  "\<lambda>_. True"
  by (rule client_function.intro [OF wrq_served.server_function_axioms wrr.pdu_message_axioms [unfolded response_codes]])

subsection \<open>The memories as the commands see them\<close>

lemma bits_row:
  assumes "handler_ok h" "row < 2" "exact_range (unat a) (unat n)" "unat n \<le> 1976"
    and "accessible (access_row h row) (unat a) (unat n)" "fc \<in> {1, 2}"
  shows "\<exists>bytes. (\<forall>bm. create_request_bit_map (int (unat a)) (int (unat n)) = Inr bm \<longrightarrow>
      copy_data_bits (memory_row h row) bm (uint a) (uint n) = Inr bytes) \<and> length bytes \<le> 247
    \<and> bits_reply fc a n bytes = Bits (map (get_bit (memory_row h row)) [unat a..<unat a + unat n])"
proof -
  obtain bytes where bytes:
    "\<And>bm. create_request_bit_map (int (unat a)) (int (unat n)) = Inr bm \<Longrightarrow>
      copy_data_bits (memory_row h row) bm (int (unat a)) (int (unat n)) = Inr bytes"
    "length bytes = (unat n - 1) div 8 + 1"
    "\<And>k. get_bit bytes k \<longleftrightarrow> k < unat n \<and> get_bit (memory_row h row) (unat a + k)"
    using load_bits_spec [of "unat n" "unat a" "memory_row h row"] bits_in_memory [OF assms(1,2,5)] assms(3)
    by (auto simp: exact_range_def res_bind_def split: sum.splits)
  have len: "0 < length bytes" "length bytes \<le> 247" "unat n \<le> 8 * length bytes"
    using bytes(2) assms(4) by simp_all
  have "map (get_bit bytes) [0..<unat n] = map (get_bit (memory_row h row)) [unat a..<unat a + unat n]"
    using bytes(3) by (intro nth_equalityI) simp_all
  with bits_reply_ok [OF assms(6) len] bytes(1) len(2) show ?thesis by (intro exI [of _ bytes]) simp
qed

lemma words_row:
  assumes "handler_ok h" "row \<in> {2, 3}" "exact_range (unat a) (unat n)" "unat n \<le> 123"
    and "accessible (access_row h row) (unat a) (unat n)" "fc \<in> {3, 4}"
  shows "\<exists>bytes. copy_data_registers (memory_row h row) (uint a) (uint n) = Inr bytes \<and> length bytes \<le> 247
    \<and> words_reply fc a n bytes = Words (map (get_reg (memory_row h row)) [unat a..<unat a + unat n])"
proof -
  let ?ws = "map (get_reg (memory_row h row)) [unat a..<unat a + unat n]"
  have n: "0 < unat n" using assms(3) by (simp add: exact_range_def)
  have "2 * (unat a + unat n) \<le> length (memory_row h row)" "unat a < 2 ^ 30" "unat n < 2 ^ 30"
    using words_in_memory [OF assms(1,2) n assms(5)] assms(3) by (simp_all add: exact_range_def)
  then have "copy_data_registers (memory_row h row) (int (unat a)) (int (unat n)) = Inr (enc_words ?ws)"
    using copy_data_registers_nat enc_regs by metis
  with words_reply_ok [OF assms(6), of ?ws n a] n assms(4) show ?thesis by (intro exI [of _ "enc_words ?ws"]) simp
qed

definition device_of :: "request_handler \<Rightarrow> device" where
  "device_of h = \<lparr>dv_coils = get_bit (memory_row h 0), dv_inputs = get_bit (memory_row h 1),
     dv_holding = get_reg (memory_row h 2), dv_input_registers = get_reg (memory_row h 3)\<rparr>"

lemma device_of_fields [simp]:
  "dv_coils (device_of h) = get_bit (memory_row h 0)" "dv_inputs (device_of h) = get_bit (memory_row h 1)"
  "dv_holding (device_of h) = get_reg (memory_row h 2)" "dv_input_registers (device_of h) = get_reg (memory_row h 3)"
  by (simp_all add: device_of_def)

text \<open>The request of a command is answered, and does to the device what \<open>device_step\<close> says.\<close>

definition refines :: "uint16 \<Rightarrow> uint8 \<Rightarrow> command \<Rightarrow> request_handler \<Rightarrow> bool" where
  "refines tid u c h \<longleftrightarrow> (\<exists>resp ys h'.
     answers request_handler_call (frame tid (command_pdu u c)) h resp h'
     \<and> du_buffer resp = frame tid ys \<and> ys \<noteq> [] \<and> length ys \<le> 250
     \<and> handler_ok h' \<and> validAddresses h' = validAddresses h
     \<and> device_step (validAddresses h) c (device_of h) = (command_decode c (padded_unit tid ys), device_of h'))"

lemma refinesI:
  assumes "handler_ok h" "command_range c = (a, n)" "command_row c = row"
    and "served_as tid h (accessible (access_row h row) a n) r P (command_pdu u c) (command_decode c)"
    and "\<And>h'. P h' \<Longrightarrow> handler_ok h' \<and> validAddresses h' = validAddresses h
      \<and> device_act c (device_of h) = (r, device_of h')"
  shows "refines tid u c h"
proof -
  from assms(4) obtain resp ys h' where
    "answers request_handler_call (frame tid (command_pdu u c)) h resp h'" "du_buffer resp = frame tid ys"
    "ys \<noteq> []" "length ys \<le> 250"
    "command_decode c (padded_unit tid ys) =
      (if accessible (access_row h row) a n then r else Refused (exception_code_value illegal_data_address))"
    "if accessible (access_row h row) a n then P h' else h' = h"
    unfolding served_as_def by blast
  with assms(1-3,5) show ?thesis
    unfolding refines_def device_step_def
    by (intro exI [of _ resp] exI [of _ ys] exI [of _ h']) (auto split: if_splits)
qed

lemma read_coils_refines:
  assumes "handler_ok h" "command_ok (Read_coils a n)"
  shows "refines tid u (Read_coils a n) h"
proof (rule refinesI [OF assms(1)])
  have range: "exact_range (unat a) (unat n)" "unat n \<le> 1976" using assms(2) by simp_all
  show "served_as tid h (accessible (access_row h 0) (unat a) (unat n))
      (Bits (map (get_bit (memory_row h 0)) [unat a..<unat a + unat n])) (\<lambda>h'. h' = h)
      (command_pdu u (Read_coils a n)) (command_decode (Read_coils a n))"
    unfolding command_pdu.simps command_decode.simps request_types response_codes
  proof (rule rcq_client.read_served [where copy = "\<lambda>bm data. copy_data_bits data bm (uint a) (uint n)"
        and mk = "new_read_coils_response u", OF assms(1) _ _ _ _ range(1)])
    assume "accessible (access_row h 0) (unat a) (unat n)"
    then show "\<exists>bytes. (\<forall>bm. create_request_bit_map (int (unat a)) (int (unat n)) = Inr bm \<longrightarrow>
          copy_data_bits (memory_row h 0) bm (uint a) (uint n) = Inr bytes)
        \<and> length (read_coils_response.vals (new_read_coils_response u bytes)) < 256
        \<and> read_coils_response_size (new_read_coils_response u bytes) \<le> 250
        \<and> bits_reply read_coils_request_function_code a n
            (read_coils_response.vals (new_read_coils_response u bytes)) =
          Bits (map (get_bit (memory_row h 0)) [unat a..<unat a + unat n])"
      using bits_row [OF assms(1) _ range, of 0 read_coils_request_function_code]
      by (fastforce simp: read_coils_request_function_code_def read_coils_response_size_def
          new_read_coils_response_def read_coils_response.defs)
  qed (simp_all add: read_coils_act_def new_read_coils_request_def rcq_defs request_types)
qed (simp_all add: assms)

lemma read_discrete_inputs_refines:
  assumes "handler_ok h" "command_ok (Read_discrete_inputs a n)"
  shows "refines tid u (Read_discrete_inputs a n) h"
proof (rule refinesI [OF assms(1)])
  have range: "exact_range (unat a) (unat n)" "unat n \<le> 1976" using assms(2) by simp_all
  show "served_as tid h (accessible (access_row h 1) (unat a) (unat n))
      (Bits (map (get_bit (memory_row h 1)) [unat a..<unat a + unat n])) (\<lambda>h'. h' = h)
      (command_pdu u (Read_discrete_inputs a n)) (command_decode (Read_discrete_inputs a n))"
    unfolding command_pdu.simps command_decode.simps request_types response_codes
  proof (rule rdq_client.read_served [where copy = "\<lambda>bm data. copy_data_bits data bm (uint a) (uint n)"
        and mk = "new_read_discrete_inputs_response u", OF assms(1) _ _ _ _ range(1)])
    assume "accessible (access_row h 1) (unat a) (unat n)"
    then show "\<exists>bytes. (\<forall>bm. create_request_bit_map (int (unat a)) (int (unat n)) = Inr bm \<longrightarrow>
          copy_data_bits (memory_row h 1) bm (uint a) (uint n) = Inr bytes)
        \<and> length (read_discrete_inputs_response.inputs (new_read_discrete_inputs_response u bytes)) < 256
        \<and> read_discrete_inputs_response_size (new_read_discrete_inputs_response u bytes) \<le> 250
        \<and> bits_reply read_discrete_inputs_request_function_code a n
            (read_discrete_inputs_response.inputs (new_read_discrete_inputs_response u bytes)) =
          Bits (map (get_bit (memory_row h 1)) [unat a..<unat a + unat n])"
      using bits_row [OF assms(1) _ range, of 1 read_discrete_inputs_request_function_code]
      by (fastforce simp: read_discrete_inputs_request_function_code_def read_discrete_inputs_response_size_def
          new_read_discrete_inputs_response_def read_discrete_inputs_response.defs)
  qed (simp_all add: read_discrete_inputs_act_def new_read_discrete_inputs_request_def rdq_defs request_types)
qed (simp_all add: assms)

lemma read_holding_registers_refines:
  assumes "handler_ok h" "command_ok (Read_holding_registers a n)"
  shows "refines tid u (Read_holding_registers a n) h"
proof (rule refinesI [OF assms(1)])
  have range: "exact_range (unat a) (unat n)" "unat n \<le> 123" using assms(2) by simp_all
  show "served_as tid h (accessible (access_row h 2) (unat a) (unat n))
      (Words (map (get_reg (memory_row h 2)) [unat a..<unat a + unat n])) (\<lambda>h'. h' = h)
      (command_pdu u (Read_holding_registers a n)) (command_decode (Read_holding_registers a n))"
    unfolding command_pdu.simps command_decode.simps request_types response_codes
  proof (rule rhq_client.read_served [where copy = "\<lambda>bm data. copy_data_registers data (uint a) (uint n)"
        and mk = "new_read_holding_registers_response u", OF assms(1) _ _ _ _ range(1)])
    assume "accessible (access_row h 2) (unat a) (unat n)"
    then show "\<exists>bytes. (\<forall>bm. create_request_bit_map (int (unat a)) (int (unat n)) = Inr bm \<longrightarrow>
          copy_data_registers (memory_row h 2) (uint a) (uint n) = Inr bytes)
        \<and> length (read_holding_registers_response.vals (new_read_holding_registers_response u bytes)) < 256
        \<and> read_holding_registers_response_size (new_read_holding_registers_response u bytes) \<le> 250
        \<and> words_reply read_holding_registers_request_function_code a n
            (read_holding_registers_response.vals (new_read_holding_registers_response u bytes)) =
          Words (map (get_reg (memory_row h 2)) [unat a..<unat a + unat n])"
      using words_row [OF assms(1) _ range, of 2 read_holding_registers_request_function_code]
      by (fastforce simp: read_holding_registers_request_function_code_def read_holding_registers_response_size_def
          new_read_holding_registers_response_def read_holding_registers_response.defs)
  qed (simp_all add: read_holding_registers_act_def new_read_holding_registers_request_def rhq_defs request_types)
qed (simp_all add: assms)

lemma read_input_registers_refines:
  assumes "handler_ok h" "command_ok (Read_input_registers a n)"
  shows "refines tid u (Read_input_registers a n) h"
proof (rule refinesI [OF assms(1)])
  have range: "exact_range (unat a) (unat n)" "unat n \<le> 123" using assms(2) by simp_all
  show "served_as tid h (accessible (access_row h 3) (unat a) (unat n))
      (Words (map (get_reg (memory_row h 3)) [unat a..<unat a + unat n])) (\<lambda>h'. h' = h)
      (command_pdu u (Read_input_registers a n)) (command_decode (Read_input_registers a n))"
    unfolding command_pdu.simps command_decode.simps request_types response_codes
  proof (rule riq_client.read_served [where copy = "\<lambda>bm data. copy_data_registers data (uint a) (uint n)"
        and mk = "new_read_input_registers_response u", OF assms(1) _ _ _ _ range(1)])
    assume "accessible (access_row h 3) (unat a) (unat n)"
    then show "\<exists>bytes. (\<forall>bm. create_request_bit_map (int (unat a)) (int (unat n)) = Inr bm \<longrightarrow>
          copy_data_registers (memory_row h 3) (uint a) (uint n) = Inr bytes)
        \<and> length (read_input_registers_response.vals (new_read_input_registers_response u bytes)) < 256
        \<and> read_input_registers_response_size (new_read_input_registers_response u bytes) \<le> 250
        \<and> words_reply read_input_registers_request_function_code a n
            (read_input_registers_response.vals (new_read_input_registers_response u bytes)) =
          Words (map (get_reg (memory_row h 3)) [unat a..<unat a + unat n])"
      using words_row [OF assms(1) _ range, of 3 read_input_registers_request_function_code]
      by (fastforce simp: read_input_registers_request_function_code_def read_input_registers_response_size_def
          new_read_input_registers_response_def read_input_registers_response.defs)
  qed (simp_all add: read_input_registers_act_def new_read_input_registers_request_def riq_defs request_types)
qed (simp_all add: assms)

lemma device_of_update:
  assumes "handler_ok h"
  shows "device_of (h\<lparr>memorySpace := (memorySpace h)[0 := mem]\<rparr>) = (device_of h)\<lparr>dv_coils := get_bit mem\<rparr>"
    "device_of (h\<lparr>memorySpace := (memorySpace h)[2 := mem]\<rparr>) = (device_of h)\<lparr>dv_holding := get_reg mem\<rparr>"
  using assms by (simp_all add: device_of_def handler_ok_def)

lemma write_coil_row:
  assumes "handler_ok h" "accessible (access_row h 0) (unat a) 1"
  shows "\<exists>mem. write_coil (memory_row h 0) True (uint a) = Inr mem \<and> length mem = length (memory_row h 0)
    \<and> get_bit mem = overlay (unat a) [True] (get_bit (memory_row h 0))"
proof -
  have "unat a < 8 * length (memory_row h 0)" using bits_in_memory [OF assms(1) _ assms(2)] by simp
  from write_coil_nat [OF this, of True] show ?thesis
    by (auto simp: overlay_def fun_eq_iff less_Suc_eq_le)
qed

lemma write_coils_row:
  assumes "handler_ok h" "accessible (access_row h 0) (unat a) (length bs)" "command_ok (Write_coils a bs)"
    and "length vs = (length bs + 7) div 8" "\<And>k. get_bit vs k \<longleftrightarrow> k < length bs \<and> bs ! k"
  shows "\<exists>mem. (\<forall>bm. create_request_bit_map (int (unat a)) (int (length bs)) = Inr bm \<longrightarrow>
      write_coils (memory_row h 0) bm vs (uint a) = Inr mem) \<and> length mem = length (memory_row h 0)
    \<and> get_bit mem = overlay (unat a) bs (get_bit (memory_row h 0))"
proof -
  have r: "0 < length bs" "length bs \<le> 65535" "length bs mod 8 + unat a mod 8 < 8" "length bs mod 8 \<noteq> 0"
      "unat a mod 8 = 0 \<or> length bs + unat a mod 8 < 16"
    using assms(3) by (auto simp: exact_range_def)
  have "(length bs + unat a mod 8) div 8 < length vs"
    unfolding assms(4) by (rule coil_bytes_cover [OF r(4,3)])
  with r have ok: "coils_ok vs (unat a) (length bs)" by simp
  have "unat a + length bs < 8 * length (memory_row h 0)" using bits_in_memory [OF assms(1) _ assms(2)] by simp
  from store_coils_spec [OF ok this] obtain mem where
    "store_coils vs (memory_row h 0) (unat a) (length bs) = Inr mem" "length mem = length (memory_row h 0)"
    "\<forall>k. get_bit mem k = (if unat a \<le> k \<and> k < unat a + length bs then get_bit vs (k - unat a)
        else get_bit (memory_row h 0) k)"
    by blast
  then show ?thesis
    using assms(5) by (intro exI [of _ mem]) (auto simp: overlay_def fun_eq_iff res_bind_def split: sum.splits)
qed

lemma write_words_row:
  assumes "handler_ok h" "accessible (access_row h 2) (unat a) (length ws)" "exact_range (unat a) (length ws)"
  shows "\<exists>mem. write_registers ws (memory_row h 2) (uint a) (int (length ws)) = Inr mem
    \<and> length mem = length (memory_row h 2) \<and> get_reg mem = overlay (unat a) ws (get_reg (memory_row h 2))"
proof -
  have "2 * (unat a + length ws) \<le> length (memory_row h 2)" "unat a < 2 ^ 30" "length ws < 2 ^ 29"
    using words_in_memory [OF assms(1) _ _ assms(2)] assms(3) by (simp_all add: exact_range_def)
  from write_registers_nat [OF order_refl this] show ?thesis
    by (auto simp: overlay_def fun_eq_iff)
qed

lemma write_word_row:
  assumes "handler_ok h" "accessible (access_row h 2) (unat a) 1" "exact_range (unat a) 1"
  shows "\<exists>mem. write_register v (memory_row h 2) (uint a) = Inr mem
    \<and> length mem = length (memory_row h 2) \<and> get_reg mem = overlay (unat a) [v] (get_reg (memory_row h 2))"
proof -
  have b: "2 * unat a + 1 < length (memory_row h 2)" "unat a < 2 ^ 30"
    using words_in_memory [OF assms(1) _ _ assms(2)] assms(3) by (simp_all add: exact_range_def)
  from write_register_nat [OF this, of v] get_reg_update [OF b(1), of v] show ?thesis
    by (auto simp: overlay_def fun_eq_iff less_Suc_eq_le)
qed

lemma write_single_coil_refines:
  assumes "handler_ok h" "command_ok (Switch_on a)"
  shows "refines tid u (Switch_on a) h"
proof (rule refinesI [OF assms(1)])
  have range: "exact_range (unat a) 1" using assms(2) by simp
  show "served_as tid h (accessible (access_row h 0) (unat a) 1) Done
      (\<lambda>h'. \<exists>mem. length mem = length (memory_row h 0) \<and> get_bit mem = overlay (unat a) [True] (get_bit (memory_row h 0))
        \<and> h' = h\<lparr>memorySpace := (memorySpace h)[0 := mem]\<rparr>)
      (command_pdu u (Switch_on a)) (command_decode (Switch_on a))"
    unfolding command_pdu.simps command_decode.simps request_types response_codes
    by (rule scq_client.write_served [where change = "\<lambda>bm data. write_coil data True (uint a)"
        and m' = "new_write_single_coil_response u a True" and xs = "[]" and ty = request, OF assms(1) _ _ _ _ range])
      (use write_coil_row [OF assms(1)] in
        \<open>simp_all add: write_single_coil_act_def new_write_single_coil_request_def
            new_write_single_coil_response_def scq.unit_image request_types scq_defs scr_defs, blast\<close>)
qed (use assms(1) in \<open>auto simp: handler_ok_update device_of_update\<close>)

lemma write_single_register_refines:
  assumes "handler_ok h" "command_ok (Write_register a v)"
  shows "refines tid u (Write_register a v) h"
proof (rule refinesI [OF assms(1)])
  have range: "exact_range (unat a) 1" using assms(2) by simp
  show "served_as tid h (accessible (access_row h 2) (unat a) 1) Done
      (\<lambda>h'. \<exists>mem. length mem = length (memory_row h 2) \<and> get_reg mem = overlay (unat a) [v] (get_reg (memory_row h 2))
        \<and> h' = h\<lparr>memorySpace := (memorySpace h)[2 := mem]\<rparr>)
      (command_pdu u (Write_register a v)) (command_decode (Write_register a v))"
    unfolding command_pdu.simps command_decode.simps request_types response_codes
    by (rule srq_client.write_served [where change = "\<lambda>bm data. write_register v data (uint a)"
        and m' = "new_write_single_register_response u a v" and xs = "[]" and ty = request, OF assms(1) _ _ _ _ range])
      (use write_word_row [OF assms(1) _ range] in
        \<open>simp_all add: write_single_register_act_def new_write_single_register_request_def
            new_write_single_register_response_def srq.unit_image request_types srq_defs srr_defs, blast\<close>)
qed (use assms(1) in \<open>auto simp: handler_ok_update device_of_update\<close>)

lemma write_multiple_coils_refines:
  assumes "handler_ok h" "command_ok (Write_coils a bs)"
  shows "refines tid u (Write_coils a bs) h"
proof (rule refinesI [OF assms(1)])
  have range: "exact_range (unat a) (length bs)" "length bs \<le> 1944" using assms(2) by simp_all
  have n: "uint (of_nat (length bs) :: uint16) = int (length bs)"
    using range by (simp add: exact_range_def unsigned_of_nat take_bit_nat_eq_self)
  obtain vs where vs: "new_write_multiple_coils_request_bools u a bs =
      Some (write_multiple_coils_request.make u a (of_nat (length bs)) vs)"
    "length vs = (length bs + 7) div 8" "\<And>k. get_bit vs k \<longleftrightarrow> k < length bs \<and> bs ! k"
    using new_bools_packs [of bs u a] range(2) by auto
  show "served_as tid h (accessible (access_row h 0) (unat a) (length bs)) Done
      (\<lambda>h'. \<exists>mem. length mem = length (memory_row h 0) \<and> get_bit mem = overlay (unat a) bs (get_bit (memory_row h 0))
        \<and> h' = h\<lparr>memorySpace := (memorySpace h)[0 := mem]\<rparr>)
      (command_pdu u (Write_coils a bs)) (command_decode (Write_coils a bs))"
    unfolding command_pdu.simps command_decode.simps request_types response_codes vs(1) option.simps
    by (rule wcq_client.write_served [where change = "\<lambda>bm data. write_coils data bm vs (uint a)"
        and m' = "new_write_multiple_coils_response u a (of_nat (length bs))" and xs = "[]" and ty = response,
        OF assms(1) _ _ _ _ range(1)])
      (use write_coils_row [OF assms(1) _ assms(2) vs(2,3)] vs(2) range(2) n in
        \<open>simp_all add: write_multiple_coils_act_def wcr.unit_image request_types wcq_defs wcr_defs\<close>)
qed (use assms(1) in \<open>auto simp: handler_ok_update device_of_update\<close>)

lemma write_multiple_registers_refines:
  assumes "handler_ok h" "command_ok (Write_registers a ws)"
  shows "refines tid u (Write_registers a ws) h"
proof (rule refinesI [OF assms(1)])
  have range: "exact_range (unat a) (length ws)" "length ws \<le> 121" using assms(2) by simp_all
  have n: "uint (of_nat (length ws) :: uint16) = int (length ws)"
    using range by (simp add: exact_range_def unsigned_of_nat take_bit_nat_eq_self)
  show "served_as tid h (accessible (access_row h 2) (unat a) (length ws)) Done
      (\<lambda>h'. \<exists>mem. length mem = length (memory_row h 2) \<and> get_reg mem = overlay (unat a) ws (get_reg (memory_row h 2))
        \<and> h' = h\<lparr>memorySpace := (memorySpace h)[2 := mem]\<rparr>)
      (command_pdu u (Write_registers a ws)) (command_decode (Write_registers a ws))"
    unfolding command_pdu.simps command_decode.simps request_types response_codes
    by (rule wrq_client.write_served [where change = "\<lambda>bm data. write_registers ws data (uint a) (int (length ws))"
        and m' = "new_write_multiple_registers_response u a (of_nat (length ws))"
        and xs = "of_nat (length ws * 2) # enc_words ws" and ty = request, OF assms(1) _ _ _ _ range(1)])
      (use write_words_row [OF assms(1) _ range(1)] range(2) n in
        \<open>simp_all add: write_multiple_registers_act_def new_write_multiple_registers_request_def
            new_write_multiple_registers_response_def wrq.unit_image request_types wrq_defs wrr_defs, blast\<close>)
qed (use assms(1) in \<open>auto simp: handler_ok_update device_of_update\<close>)

subsection \<open>The refinement\<close>

lemma command_refines:
  assumes "handler_ok h" "command_ok c"
  shows "refines tid u c h"
  using assms(2)
  by (cases c)
    (simp_all only: read_coils_refines [OF assms(1)] read_discrete_inputs_refines [OF assms(1)]
      read_holding_registers_refines [OF assms(1)] read_input_registers_refines [OF assms(1)]
      write_single_coil_refines [OF assms(1)] write_multiple_coils_refines [OF assms(1)]
      write_single_register_refines [OF assms(1)] write_multiple_registers_refines [OF assms(1)])

text \<open>A command's request fits into the buffers of client and server.\<close>

lemma command_pdu_size:
  assumes "command_ok c"
  shows "4 \<le> length (command_pdu u c)" "length (command_pdu u c) \<le> 250"
proof -
  have "4 \<le> length (command_pdu u c) \<and> length (command_pdu u c) \<le> 250"
  proof (cases c)
    case (Write_coils a bs)
    obtain vs where "new_write_multiple_coils_request_bools u a bs =
        Some (write_multiple_coils_request.make u a (of_nat (length bs)) vs)" "length vs = (length bs + 7) div 8"
      using new_bools_packs [of bs u a] assms Write_coils by auto
    moreover have "(length bs + 7) div 8 \<le> 243" using assms Write_coils div_le_mono [of "length bs + 7" 1951 8] by simp
    ultimately show ?thesis using Write_coils by (simp add: wcq_defs)
  qed (use assms in \<open>simp_all add: rcq_defs rdq_defs rhq_defs riq_defs scq_defs srq_defs wrq_defs
      new_write_multiple_registers_request_def\<close>)
  then show "4 \<le> length (command_pdu u c)" "length (command_pdu u c) \<le> 250" by simp_all
qed

lemma new_handler_ok: "handler_ok new_request_handler"
proof -
  have "k \<le> 3" if "bit (0x0B :: uint8) k" "k < 8" for k
  proof -
    have "k \<in> {0, 1, 2, 3, 4, 5, 6, 7}" using that(2) by auto
    with that(1) show ?thesis by (elim insertE) simp_all
  qed
  moreover have "(row < 4) = (row \<in> {0, 1, 2, 3})" "(row < 2) = (row \<in> {0, 1})" for row :: nat by auto
  ultimately show ?thesis by (force simp: handler_ok_def new_request_handler_def get_bit_def)
qed

end
