(* ===== verification/Server_Shutdown.thy ===== *)
theory Server_Shutdown
  imports Tcp_Server
begin

text \<open>
  What a session still does after it is told to stop: server/tcp_session.cpp under server/tcp_session_manager.cpp
  and tcp_server::stop of server/tcp_server.cpp. The socket is closed and \<open>stop_\<close> is set, but the coroutine
  only ends when the operation it waits for completes. \<open>session_rank\<close> is a measure that each of its steps
  decreases.
\<close>

text \<open>The events of a session's own coroutine, and how many it can still have once it is told to stop.\<close>

fun own_event :: "session_ptr \<Rightarrow> server_event \<Rightarrow> bool" where
  "own_event p (Begin q _) = (q = p)"
| "own_event p (Read_done q _ _) = (q = p)"
| "own_event p (Handler_done q) = (q = p)"
| "own_event p (Write_done q _ _) = (q = p)"
| "own_event p _ = False"

definition session_rank :: "tcp_session \<Rightarrow> nat" where
  "session_rank ts = (case ts_phase ts of
     reading \<Rightarrow> 3 | handling _ \<Rightarrow> 2 | writing _ \<Rightarrow> 1 | spawned \<Rightarrow> 1 | _ \<Rightarrow> 0)"

lemma session_rank_simps [simp]:
  "session_rank (ts\<lparr>ts_phase := finished\<rparr>) = 0" "session_rank (ts\<lparr>ts_phase := crashed\<rparr>) = 0"
  "session_rank (ts\<lparr>ts_phase := handling req\<rparr>) = 2" "session_rank (ts\<lparr>ts_phase := writing resp\<rparr>) = 1"
  "session_rank (session_stop ts) = session_rank ts"
  "ts_stop ts \<Longrightarrow> session_rank (loop_test ts) = 0"
  by (simp_all add: session_rank_def loop_test_def)

lemma session_rank_phase:
  "ts_phase ts = reading \<Longrightarrow> session_rank ts = 3" "ts_phase ts = handling req \<Longrightarrow> session_rank ts = 2"
  "ts_phase ts = writing resp \<Longrightarrow> session_rank ts = 1" "ts_phase ts = spawned \<Longrightarrow> session_rank ts = 1"
  by (simp_all add: session_rank_def)

lemma stop_and_break_heap [simp]:
  "sv_heap (stop_and_break p ts s) q =
     (if q = p then Some (session_stop (ts\<lparr>ts_phase := finished\<rparr>)) else sv_heap s q)"
  by (simp add: stop_and_break_def Let_def manager_stop_def heap_stop_apply)

lemma stop_and_break_handler [simp]: "sv_handler (stop_and_break p ts s) = sv_handler s"
  by (simp add: stop_and_break_def Let_def)

text \<open>An event of the coroutine brings a session that is told to stop closer to its end; any other event
  leaves it where it is.\<close>

lemma own_event_descends:
  assumes "sv_heap s p = Some ts" "ts_stop ts" "own_event p ev" "server_exec handler ev s = Some s'"
  shows "\<exists>ts'. sv_heap s' p = Some ts' \<and> ts_stop ts' \<and> session_rank ts' < session_rank ts"
proof (cases ev)
  case (Begin q connected)
  with assms show ?thesis
    by (auto simp: session_begin_def session_rank_phase split: if_splits)
next
  case (Read_done q err bs)
  with assms show ?thesis
    by (auto simp: session_read_done_def Let_def session_rank_phase split: if_splits sum.splits)
next
  case (Handler_done q)
  with assms show ?thesis
    by (auto simp: session_handler_done_def Let_def session_rank_phase
        split: prod.splits sum.splits session_phase.splits)
next
  case (Write_done q err n)
  with assms show ?thesis
    by (auto simp: session_write_done_def Let_def session_rank_phase split: if_splits session_phase.splits)
qed (use assms in auto)

lemma other_event_keeps:
  assumes "server_inv s" "sv_heap s p = Some ts" "ts_stop ts" "\<not> own_event p ev"
    and "server_exec handler ev s = Some s'"
  shows "\<exists>ts'. sv_heap s' p = Some ts' \<and> ts_stop ts' \<and> session_rank ts' = session_rank ts"
proof (cases ev)
  case (Run_start q)
  have "\<not> live_in (mh_of s) p" using assms(2,3) by (simp add: live_in_def)
  then have "p \<notin> set (sv_pending s)" using assms(1) by (auto simp: server_inv_def)
  with Run_start assms(5) have "q \<noteq> p" by (auto split: if_splits)
  obtain e m h where start: "manager_start q (mh_of s) = (e, m, h)" by (metis prod.collapse)
  from manager_start_heap(1) [OF start, of p] \<open>q \<noteq> p\<close> Run_start assms(2,3,5) start show ?thesis
    by (auto simp: server_run_start_def split: if_splits)
next
  case Server_stop
  with assms show ?thesis
    by (auto simp: server_stop_def manager_stop_all_def fold_heap_stop_apply session_stop_def session_rank_def)
next
  case (Read_done q err bs)
  with assms show ?thesis
    by (auto simp: session_read_done_def Let_def split: if_splits sum.splits option.splits)
next
  case (Handler_done q)
  with assms show ?thesis
    by (auto simp: session_handler_done_def Let_def split: option.splits prod.splits sum.splits session_phase.splits)
next
  case (Write_done q err n)
  with assms show ?thesis
    by (auto simp: session_write_done_def Let_def split: option.splits if_splits session_phase.splits)
qed (use assms in \<open>auto simp: server_listen_def server_accept_def server_accept_error_def session_begin_def
      split: if_splits option.splits\<close>)

lemma rank_0_iff:
  assumes "sv_heap s p = Some ts"
  shows "session_rank ts = 0 \<longleftrightarrow> (\<forall>ev. own_event p ev \<longrightarrow> server_exec handler ev s = None)"
proof
  assume r: "session_rank ts = 0"
  show "\<forall>ev. own_event p ev \<longrightarrow> server_exec handler ev s = None"
  proof (intro allI impI)
    fix ev assume "own_event p ev"
    with r assms show "server_exec handler ev s = None"
      by (cases ev) (auto simp: session_rank_def split: session_phase.splits)
  qed
next
  assume none: "\<forall>ev. own_event p ev \<longrightarrow> server_exec handler ev s = None"
  have "server_exec handler (Begin p True) s = None" "server_exec handler (Read_done p None []) s = None"
    "server_exec handler (Handler_done p) s = None" "server_exec handler (Write_done p None 0) s = None"
    by (rule none [rule_format], simp)+
  with assms show "session_rank ts = 0"
    by (cases "ts_phase ts") (auto simp: session_rank_def)
qed

lemma stopped_run:
  assumes "server_inv s" "sv_heap s p = Some ts" "ts_stop ts" "server_run handler evs s = Some s'"
  shows "\<exists>ts'. sv_heap s' p = Some ts' \<and> ts_stop ts'
    \<and> length (filter (own_event p) evs) + session_rank ts' \<le> session_rank ts"
  using assms
proof (induction evs arbitrary: s ts)
  case (Cons ev evs)
  from Cons.prems(4) obtain s1 where s1: "server_exec handler ev s = Some s1" "server_run handler evs s1 = Some s'"
    by (auto split: option.splits)
  have inv: "server_inv s1" using inv_exec [OF Cons.prems(1) s1(1)] .
  obtain ts1 where ts1: "sv_heap s1 p = Some ts1" "ts_stop ts1"
      "(if own_event p ev then 1 else 0) + session_rank ts1 \<le> session_rank ts"
    using own_event_descends [OF Cons.prems(2,3) _ s1(1)] other_event_keeps [OF Cons.prems(1-3) _ s1(1)]
    by (cases "own_event p ev") fastforce+
  from Cons.IH [OF inv ts1(1,2) s1(2)] ts1(3) show ?case by (auto split: if_splits)
qed simp

text \<open>C12: a session that is told to stop ends. Whatever happens in the rest of the server, its coroutine has at
  most three more steps (the read, the handler and the write it may be waiting for), and when it has no step
  left it has returned, ended by an exception, or never been started.\<close>

theorem stopped_session_ends:
  assumes "reachable handler config hs s" "sv_heap s p = Some ts" "ts_stop ts"
    and "server_run handler evs s = Some s'"
  shows "length (filter (own_event p) evs) \<le> 3
    \<and> (\<exists>ts'. sv_heap s' p = Some ts' \<and> ts_stop ts'
        \<and> ((\<forall>ev. own_event p ev \<longrightarrow> server_exec handler ev s' = None) \<longleftrightarrow>
            ts_phase ts' \<in> {finished, crashed, not_started}))"
proof -
  obtain ts' where ts': "sv_heap s' p = Some ts'" "ts_stop ts'"
      "length (filter (own_event p) evs) + session_rank ts' \<le> session_rank ts"
    using stopped_run [OF reachable_inv [OF assms(1)] assms(2-4)] by blast
  have "session_rank ts \<le> 3" by (simp add: session_rank_def split: session_phase.splits)
  moreover have "session_rank ts' = 0 \<longleftrightarrow> ts_phase ts' \<in> {finished, crashed, not_started}"
    by (simp add: session_rank_def split: session_phase.splits)
  ultimately show ?thesis using ts' rank_0_iff [OF ts'(1), of handler] by auto
qed

theorem stopped_session_ends_witness:
  "\<exists>s ts s'. server_run echo_handler (demo_events @ [Server_stop]) demo_server = Some s
    \<and> sv_heap s 1 = Some ts \<and> ts_stop ts
    \<and> server_run echo_handler [Handler_done 1, Write_done 1 None 9] s = Some s'
    \<and> length (filter (own_event 1) [Handler_done 1, Write_done 1 None 9]) \<le> 3"
proof -
  let ?r = "server_run echo_handler (demo_events @ [Server_stop]) demo_server"
  have "case ?r of None \<Rightarrow> False | Some s \<Rightarrow>
      (case sv_heap s 1 of None \<Rightarrow> False | Some ts \<Rightarrow> ts_stop ts)
      \<and> server_run echo_handler [Handler_done 1, Write_done 1 None 9] s \<noteq> None"
    by code_simp
  then obtain s where s: "?r = Some s" "case sv_heap s 1 of None \<Rightarrow> False | Some ts \<Rightarrow> ts_stop ts"
      "server_run echo_handler [Handler_done 1, Write_done 1 None 9] s \<noteq> None"
    by (rule case_option_trueE) blast
  then obtain ts s' where ts: "sv_heap s 1 = Some ts" "ts_stop ts"
      "server_run echo_handler [Handler_done 1, Write_done 1 None 9] s = Some s'"
    by (auto elim!: case_option_trueE)
  have "reachable echo_handler server_config_default () s"
    using reachable_run [OF reach_init] s(1) by (simp add: demo_server_def)
  from stopped_session_ends [OF this ts] s(1) ts show ?thesis by blast
qed

end
