(* ===== verification/Server_Service.thy ===== *)
theory Server_Service
  imports Server_Shutdown
begin

text \<open>
  What the server of server/tcp_server.cpp, with its sessions of server/tcp_session.cpp and the registry of
  server/tcp_session_manager.cpp, promises to the outside: an abstract service without sockets, buffers,
  registry and phases, and a simulation of the server by it.

  What can be seen of a run are the messages the sessions receive, the calls of the request handler with
  their results, and the bytes that are written. The service keeps one state of the handler and one
  conversation for each session. Every run of the server, for any interleaving of its sessions, is a run of the service,
  and each session answers its messages in the order in which they arrive, one at a time. As in \<open>Tcp_Server\<close>, a
  call of the handler takes effect in one step; handlers that suspend are in \<open>Suspending_Handlers\<close>.
\<close>

subsection \<open>What is seen of a run\<close>

datatype observation =
    Got session_ptr "uint8 list"
  | Called session_ptr tcp_data_unit "tcp_data_unit result"
  | Sent session_ptr "uint8 list"

fun observe :: "'h request_handler_t \<Rightarrow> server_event \<Rightarrow> 'h tcp_server \<Rightarrow> observation list" where
  "observe handler (Read_done p err bs) s = (if err = None then [Got p bs] else [])"
| "observe handler (Handler_done p) s = (case sv_heap s p of
     Some ts \<Rightarrow> (case ts_phase ts of
         handling req \<Rightarrow> [Called p req (fst (handler req (sv_handler s)))] | _ \<Rightarrow> [])
   | None \<Rightarrow> [])"
| "observe handler (Write_done p err n) s = (case sv_heap s p of
     Some ts \<Rightarrow> (case ts_phase ts of writing resp \<Rightarrow> [Sent p (take n (du_buffer resp))] | _ \<Rightarrow> [])
   | None \<Rightarrow> [])"
| "observe handler _ s = []"

definition server_trace :: "'h request_handler_t \<Rightarrow> server_event list \<Rightarrow> 'h tcp_server \<Rightarrow> observation list" where
  "server_trace handler = trace_of (server_exec handler) (observe handler)"

subsection \<open>The service\<close>

text \<open>A conversation waits for a message, has a message to answer, has an answer to send, or is broken.\<close>

datatype conversation =
    Idle
  | Asked "uint8 list"
  | Answered tcp_data_unit
  | Broken

type_synonym 'h service = "(session_ptr \<Rightarrow> conversation) \<times> 'h"

text \<open>A message is too short to be looked at, or it has all the bytes its length field announces, or not.\<close>

definition hear :: "uint8 list \<Rightarrow> conversation" where
  "hear bs = (if length bs < TCP_HEADER_SIZE + MIN_PDU_SIZE then Idle
     else if complete bs then Asked bs else Broken)"

text \<open>The handler is given a data unit that begins with the message; its result is the answer. What is sent
  is a beginning of the answer.\<close>

fun service_exec :: "'h request_handler_t \<Rightarrow> observation \<Rightarrow> 'h service \<Rightarrow> 'h service option" where
  "service_exec handler (Got p bs) (cs, hs) =
     (if cs p = Idle then Some (cs(p := hear bs), hs) else None)"
| "service_exec handler (Called p req r) (cs, hs) = (case cs p of
     Asked bs \<Rightarrow>
       if take (length bs) (du_buffer req) = bs \<and> du_type req = request \<and> r = fst (handler req hs)
       then Some (cs(p := case r of Inl _ \<Rightarrow> Broken | Inr resp \<Rightarrow> Answered resp), snd (handler req hs))
       else None
   | _ \<Rightarrow> None)"
| "service_exec handler (Sent p ws) (cs, hs) = (case cs p of
     Answered resp \<Rightarrow> if take (length ws) (du_buffer resp) = ws then Some (cs(p := Idle), hs) else None
   | _ \<Rightarrow> None)"

subsection \<open>The simulation\<close>

text \<open>The conversation of a session, by the phase of its coroutine.\<close>

fun converses :: "session_phase \<Rightarrow> conversation \<Rightarrow> bool" where
  "converses (handling req) c \<longleftrightarrow>
     (\<exists>bs. c = Asked bs \<and> take (length bs) (du_buffer req) = bs \<and> du_type req = request)"
| "converses (writing resp) c \<longleftrightarrow> c = Answered resp"
| "converses crashed c \<longleftrightarrow> c = Idle \<or> c = Broken"
| "converses _ c \<longleftrightarrow> c = Idle"

definition phase_at :: "'h tcp_server \<Rightarrow> session_ptr \<Rightarrow> session_phase" where
  "phase_at s p = (case sv_heap s p of None \<Rightarrow> not_started | Some ts \<Rightarrow> ts_phase ts)"

definition sim :: "'h tcp_server \<Rightarrow> 'h service \<Rightarrow> bool" where
  "sim s a \<longleftrightarrow> server_inv s \<and> snd a = sv_handler s \<and> (\<forall>p. converses (phase_at s p) (fst a p))"

lemma sim_set:
  assumes "sim s (cs, hs)" "server_exec handler ev s = Some s'" "sv_handler s' = hs'"
    and "\<And>q. q \<noteq> p \<Longrightarrow> sv_heap s' q = sv_heap s q" "converses (phase_at s' p) c"
  shows "sim s' (cs(p := c), hs')"
  using assms inv_exec [OF _ assms(2)] by (simp add: sim_def phase_at_def)

text \<open>Reads, calls and writes move one conversation.\<close>

lemma sim_read_done:
  assumes "sim s (cs, hs)" "server_exec handler (Read_done p err bs) s = Some s'"
  shows "\<exists>a. run_all (service_exec handler) (observe handler (Read_done p err bs) s) (cs, hs) = Some a \<and> sim s' a"
proof -
  from assms(2) obtain ts where ts: "sv_heap s p = Some ts" "ts_phase ts = reading" "length bs \<le> length (ts_buf ts)"
      and s': "s' = session_read_done p err bs ts s"
    by (auto split: option.splits if_splits)
  have "server_inv s" and conv: "converses (phase_at s p) (cs p)" using assms(1) by (simp_all add: sim_def)
  then have buf: "length (ts_buf ts) = 256" using inv_session_ok ts(1,2) by (fastforce simp: session_ok_def)
  have idle: "cs p = Idle" using conv ts by (simp add: phase_at_def)
  have hs: "sv_handler s' = hs" and other: "q \<noteq> p \<Longrightarrow> sv_heap s' q = sv_heap s q" for q
    using assms(1) s'
    by (auto simp: sim_def session_read_done_def Let_def split: sum.splits)
  have "converses (phase_at s' p) (if err = None then hear bs else Idle)"
  proof (cases "err = None \<and> 10 \<le> length bs")
    case True
    then have l: "10 \<le> length bs" "length bs < 2 ^ 31" using ts(3) buf by simp_all
    show ?thesis
      using True s' of_buffer_received [OF l(1) ts(3) l(2), of request]
      by (simp add: phase_at_def session_read_done_def Let_def hear_def du_buffer_def du_type_def)
  next
    case False
    then show ?thesis using s' by (auto simp: phase_at_def session_read_done_def Let_def hear_def loop_test_def)
  qed
  from sim_set [OF assms hs other this] idle show ?thesis by (auto simp: fun_upd_idem)
qed

lemma sim_handler_done:
  assumes "sim s (cs, hs)" "server_exec handler (Handler_done p) s = Some s'"
  shows "\<exists>a. run_all (service_exec handler) (observe handler (Handler_done p) s) (cs, hs) = Some a \<and> sim s' a"
proof -
  from assms(2) obtain ts req where ts: "sv_heap s p = Some ts" "ts_phase ts = handling req"
      and s': "s' = session_handler_done p (handler req (sv_handler s)) ts s"
    by (auto split: option.splits session_phase.splits)
  obtain r hs' where r: "handler req hs = (r, hs')" by (cases "handler req hs")
  have hs: "sv_handler s = hs" and conv: "converses (phase_at s p) (cs p)" using assms(1) by (simp_all add: sim_def)
  then obtain bs where bs: "cs p = Asked bs" "take (length bs) (du_buffer req) = bs" "du_type req = request"
    using ts by (auto simp: phase_at_def)
  let ?c = "case r of Inl _ \<Rightarrow> Broken | Inr resp \<Rightarrow> Answered resp"
  have hs': "sv_handler s' = hs'" and other: "q \<noteq> p \<Longrightarrow> sv_heap s' q = sv_heap s q" for q
    using s' r hs by (auto simp: session_handler_done_def Let_def split: sum.splits)
  have "converses (phase_at s' p) ?c"
    using s' r hs by (auto simp: phase_at_def session_handler_done_def Let_def split: sum.splits)
  from sim_set [OF assms hs' other this] ts bs r hs show ?thesis by simp
qed

lemma sim_write_done:
  assumes "sim s (cs, hs)" "server_exec handler (Write_done p err n) s = Some s'"
  shows "\<exists>a. run_all (service_exec handler) (observe handler (Write_done p err n) s) (cs, hs) = Some a \<and> sim s' a"
proof -
  from assms(2) obtain ts resp where ts: "sv_heap s p = Some ts" "ts_phase ts = writing resp"
      and n: "n \<le> length (du_buffer resp)" and s': "s' = session_write_done p err n resp ts s"
    by (auto split: option.splits session_phase.splits if_splits)
  have "converses (phase_at s p) (cs p)" using assms(1) by (simp add: sim_def)
  then have answered: "cs p = Answered resp" using ts by (simp add: phase_at_def)
  have hs: "sv_handler s' = hs" and other: "q \<noteq> p \<Longrightarrow> sv_heap s' q = sv_heap s q" for q
    using s' assms(1) by (auto simp: sim_def session_write_done_def Let_def)
  have "converses (phase_at s' p) Idle"
    using s' by (auto simp: phase_at_def session_write_done_def Let_def loop_test_def)
  from sim_set [OF assms hs other this] ts n answered show ?thesis by simp
qed

text \<open>All other events are not seen, and move no conversation.\<close>

lemma quiet_phases:
  assumes "server_inv s" "server_exec handler ev s = Some s'" "\<And>p. own_event p ev \<Longrightarrow> \<exists>connected. ev = Begin p connected"
  shows "sv_handler s' = sv_handler s \<and> (\<forall>c. converses (phase_at s q) c \<longrightarrow> converses (phase_at s' q) c)"
proof (cases ev)
  case (Accept p connected)
  with assms show ?thesis
    by (auto simp: phase_at_def server_accept_def new_tcp_session_def split: if_splits)
next
  case (Run_start p)
  then have p: "p \<in> set (sv_pending s)" and s': "s' = server_run_start p s" using assms(2) by (auto split: if_splits)
  from p assms(1) obtain ts where ts: "sv_heap s p = Some ts" "ts_phase ts = not_started"
    by (fastforce simp: server_inv_def live_in_def split: option.splits)
  then show ?thesis
    using s' by (auto simp: phase_at_def server_run_start_def manager_start_def spawn_apply heap_stop_apply)
next
  case (Begin p connected)
  with assms show ?thesis
    by (auto simp: phase_at_def session_begin_def loop_test_def split: option.splits if_splits)
next
  case Server_stop
  with assms show ?thesis
    by (auto simp: phase_at_def server_stop_def manager_stop_all_def fold_heap_stop_apply
        split: option.splits if_splits)
qed (use assms in \<open>auto simp: phase_at_def server_listen_def server_accept_error_def split: if_splits\<close>)

lemma sim_quiet:
  assumes "sim s a" "server_exec handler ev s = Some s'" "\<And>p. own_event p ev \<Longrightarrow> \<exists>connected. ev = Begin p connected"
  shows "sim s' a"
  using assms(1) inv_exec [OF _ assms(2)] quiet_phases [OF _ assms(2,3)] by (auto simp: sim_def)

lemma sim_step:
  assumes "sim s a" "server_exec handler ev s = Some s'"
  shows "\<exists>a'. run_all (service_exec handler) (observe handler ev s) a = Some a' \<and> sim s' a'"
proof -
  obtain cs hs where a: "a = (cs, hs)" by (cases a)
  show ?thesis
  proof (cases ev)
    case (Read_done p err bs)
    from sim_read_done [OF assms [unfolded a Read_done]] show ?thesis unfolding a Read_done .
  next
    case (Handler_done p)
    from sim_handler_done [OF assms [unfolded a Handler_done]] show ?thesis unfolding a Handler_done .
  next
    case (Write_done p err n)
    from sim_write_done [OF assms [unfolded a Write_done]] show ?thesis unfolding a Write_done .
  qed (auto intro!: sim_quiet [OF assms])
qed

interpretation svc: trace_simulation "server_exec handler" "observe handler" "service_exec handler" sim
  for handler
  by unfold_locales (rule sim_step)

subsection \<open>What the service promises\<close>

fun sequential :: "'h request_handler_t \<Rightarrow> tcp_data_unit list \<Rightarrow> 'h \<Rightarrow> tcp_data_unit result list \<times> 'h" where
  "sequential handler [] hs = ([], hs)"
| "sequential handler (req # reqs) hs = (case handler req hs of (r, hs1) \<Rightarrow>
     case sequential handler reqs hs1 of (rs, hs2) \<Rightarrow> (r # rs, hs2))"

fun calls :: "observation list \<Rightarrow> (tcp_data_unit \<times> tcp_data_unit result) list" where
  "calls [] = []"
| "calls (Called p req r # tr) = (req, r) # calls tr"
| "calls (_ # tr) = calls tr"

text \<open>Of one session: the messages to answer, the requests given to the handler, its answers, and what is sent.\<close>

fun messages :: "session_ptr \<Rightarrow> observation list \<Rightarrow> uint8 list list" where
  "messages p [] = []"
| "messages p (Got q bs # tr) = (if q = p \<and> hear bs = Asked bs then bs # messages p tr else messages p tr)"
| "messages p (_ # tr) = messages p tr"

fun all_messages :: "observation list \<Rightarrow> uint8 list list" where
  "all_messages [] = []"
| "all_messages (Got p bs # tr) = (if hear bs = Asked bs then bs # all_messages tr else all_messages tr)"
| "all_messages (_ # tr) = all_messages tr"

fun requests :: "session_ptr \<Rightarrow> observation list \<Rightarrow> tcp_data_unit list" where
  "requests p [] = []"
| "requests p (Called q req r # tr) = (if q = p then req # requests p tr else requests p tr)"
| "requests p (_ # tr) = requests p tr"

fun replies :: "session_ptr \<Rightarrow> observation list \<Rightarrow> tcp_data_unit list" where
  "replies p [] = []"
| "replies p (Called q req r # tr) =
     (case r of Inr resp \<Rightarrow> if q = p then resp # replies p tr else replies p tr | Inl _ \<Rightarrow> replies p tr)"
| "replies p (_ # tr) = replies p tr"

fun sents :: "session_ptr \<Rightarrow> observation list \<Rightarrow> uint8 list list" where
  "sents p [] = []"
| "sents p (Sent q ws # tr) = (if q = p then ws # sents p tr else sents p tr)"
| "sents p (_ # tr) = sents p tr"

lemma all_messages_iff: "bs \<in> set (all_messages tr) \<longleftrightarrow> (\<exists>p. bs \<in> set (messages p tr))"
  by (induction tr rule: all_messages.induct) (auto split: if_splits)

lemma service_sequential:
  "run_all (service_exec handler) tr (cs, hs) = Some (cs', hs') \<Longrightarrow>
     sequential handler (map fst (calls tr)) hs = (map snd (calls tr), hs')"
proof (induction tr arbitrary: cs hs)
  case (Cons ob tr)
  then show ?case
    by (cases ob) (fastforce split: option.splits if_splits conversation.splits prod.splits)+
qed simp

text \<open>What a conversation has still to answer and to send.\<close>

fun unanswered :: "conversation \<Rightarrow> uint8 list list" where
  "unanswered (Asked bs) = [bs]"
| "unanswered _ = []"

fun unsent :: "conversation \<Rightarrow> tcp_data_unit list" where
  "unsent (Answered resp) = [resp]"
| "unsent _ = []"

lemma hear_cases: "hear bs = Asked bs \<or> unanswered (hear bs) = [] \<and> hear bs \<noteq> Asked bs"
  by (simp add: hear_def)

lemma unsent_hear [simp]: "unsent (hear bs) = []"
  by (simp add: hear_def)

abbreviation begins :: "uint8 list \<Rightarrow> tcp_data_unit \<Rightarrow> bool" where
  "begins bs du \<equiv> take (length bs) (du_buffer du) = bs"

lemma service_requests:
  "run_all (service_exec handler) tr (cs, hs) = Some (cs', hs') \<Longrightarrow>
     \<exists>bss. unanswered (cs p) @ messages p tr = bss @ unanswered (cs' p) \<and> list_all2 begins bss (requests p tr)"
proof (induction tr arbitrary: cs hs)
  case (Cons ob tr)
  from Cons.prems obtain cs1 hs1 where s1: "service_exec handler ob (cs, hs) = Some (cs1, hs1)"
      "run_all (service_exec handler) tr (cs1, hs1) = Some (cs', hs')"
    by (auto split: option.splits)
  from Cons.IH [OF s1(2)] obtain bss where bss: "unanswered (cs1 p) @ messages p tr = bss @ unanswered (cs' p)"
      "list_all2 begins bss (requests p tr)"
    by blast
  show ?case
  proof (cases ob)
    case (Got q bs)
    with s1(1) bss hear_cases [of bs] show ?thesis
      by (intro exI [of _ bss]) (auto split: if_splits)
  next
    case (Called q req r)
    show ?thesis
    proof (cases "q = p")
      case True
      with Called s1(1) obtain bs where "cs p = Asked bs" "begins bs req" "unanswered (cs1 p) = []"
        by (auto split: conversation.splits if_splits sum.splits)
      with bss Called True show ?thesis by (intro exI [of _ "bs # bss"]) auto
    qed (use Called s1(1) bss in \<open>auto split: conversation.splits if_splits\<close>)
  qed (use s1(1) bss in \<open>intro exI [of _ bss], auto split: conversation.splits if_splits\<close>)
qed simp

lemma service_replies:
  "run_all (service_exec handler) tr (cs, hs) = Some (cs', hs') \<Longrightarrow>
     \<exists>resps. unsent (cs p) @ replies p tr = resps @ unsent (cs' p) \<and> list_all2 begins (sents p tr) resps"
proof (induction tr arbitrary: cs hs)
  case (Cons ob tr)
  from Cons.prems obtain cs1 hs1 where s1: "service_exec handler ob (cs, hs) = Some (cs1, hs1)"
      "run_all (service_exec handler) tr (cs1, hs1) = Some (cs', hs')"
    by (auto split: option.splits)
  from Cons.IH [OF s1(2)] obtain resps where resps: "unsent (cs1 p) @ replies p tr = resps @ unsent (cs' p)"
      "list_all2 begins (sents p tr) resps"
    by blast
  show ?case
  proof (cases ob)
    case (Sent q ws)
    show ?thesis
    proof (cases "q = p")
      case True
      with Sent s1(1) obtain resp where "cs p = Answered resp" "begins ws resp" "cs1 p = Idle"
        by (auto split: conversation.splits if_splits)
      with resps Sent True show ?thesis by (intro exI [of _ "resp # resps"]) auto
    qed (use Sent s1(1) resps in \<open>auto split: conversation.splits if_splits\<close>)
  next
    case (Called q req r)
    with s1(1) resps show ?thesis
      by (intro exI [of _ resps]) (auto split: conversation.splits if_splits sum.splits)
  qed (use s1(1) resps in \<open>intro exI [of _ resps], auto split: if_splits\<close>)
qed simp

subsection \<open>The bytes on the socket\<close>

definition sent_at :: "'h tcp_server \<Rightarrow> session_ptr \<Rightarrow> uint8 list" where
  "sent_at s p = (case sv_heap s p of None \<Rightarrow> [] | Some ts \<Rightarrow> ts_sent ts)"

lemma sents_append [simp]: "sents p (tr @ tr') = sents p tr @ sents p tr'"
  by (induction p tr rule: sents.induct) auto

lemma sent_step:
  assumes "server_exec handler ev s = Some s'"
  shows "sent_at s' p = sent_at s p @ concat (sents p (observe handler ev s))"
proof (cases ev)
  case (Run_start q)
  with assms show ?thesis
    by (auto simp: sent_at_def server_run_start_def manager_start_def spawn_apply heap_stop_apply
        split: if_splits option.splits)
next
  case Server_stop
  with assms show ?thesis
    by (auto simp: sent_at_def server_stop_def manager_stop_all_def fold_heap_stop_apply
        split: option.splits if_splits)
next
  case (Read_done q err bs)
  with assms show ?thesis
    by (auto simp: sent_at_def session_read_done_def Let_def loop_test_def split: if_splits sum.splits option.splits)
next
  case (Handler_done q)
  with assms show ?thesis
    by (auto simp: sent_at_def session_handler_done_def Let_def
        split: option.splits prod.splits sum.splits session_phase.splits if_splits)
next
  case (Write_done q err n)
  with assms show ?thesis
    by (auto simp: sent_at_def session_write_done_def Let_def loop_test_def
        split: option.splits if_splits session_phase.splits)
qed (use assms in \<open>auto simp: sent_at_def server_listen_def server_accept_def server_accept_error_def
      session_begin_def loop_test_def new_tcp_session_def split: if_splits option.splits\<close>)

lemma sent_run:
  "server_run handler evs s = Some s' \<Longrightarrow> sent_at s' p = sent_at s p @ concat (sents p (server_trace handler evs s))"
proof (induction evs arbitrary: s)
  case (Cons ev evs)
  then show ?case using sent_step [of handler ev s _ p] by (auto simp: server_trace_def split: option.splits)
qed (simp add: server_trace_def)

lemma service_run:
  assumes "server_run handler evs (new_tcp_server config hs) = Some s'"
  shows "\<exists>cs. run_all (service_exec handler) (server_trace handler evs (new_tcp_server config hs)) (\<lambda>_. Idle, hs) =
      Some (cs, sv_handler s') \<and> (\<forall>p. converses (phase_at s' p) (cs p))"
proof -
  have "sim (new_tcp_server config hs) (\<lambda>_. Idle, hs)"
    using inv_init [of config hs] by (simp add: sim_def phase_at_def new_tcp_server_def)
  from svc.run_sim [OF this assms [unfolded server_run_def]] show ?thesis
    by (auto simp: sim_def server_trace_def)
qed

subsection \<open>Two clients at once\<close>

definition two_clients :: "server_event list" where
  "two_clients = demo_events @ [Accept 2 True, Run_start 2, Begin 2 True,
     Read_done 2 None [0, 8, 0, 0, 0, 6, 1, 3, 0, 4, 0, 1], Handler_done 2, Handler_done 1,
     Write_done 2 None 12, Write_done 1 None 9, Read_done 2 None [0, 9, 0, 0, 0, 6, 1, 3, 0, 4, 0, 1], Server_stop]"

lemma two_clients_run: "\<exists>s. server_run echo_handler two_clients (new_tcp_server server_config_default ()) = Some s"
proof -
  have "server_run echo_handler two_clients (new_tcp_server server_config_default ()) \<noteq> None" by code_simp
  then show ?thesis by simp
qed

subsection \<open>Properties\<close>

text \<open>C4: the server refines the service. Whatever the order of connections, messages, completions, errors and
  stops, what is seen of a run is a run of the service from idle conversations, which ends with the server's
  handler state and, for each session, in the conversation its coroutine has reached; and the bytes on a
  session's socket are the concatenation of what it was seen to send.\<close>

theorem server_refines_service:
  assumes "server_run handler evs (new_tcp_server config hs) = Some s'"
  shows "\<exists>cs. run_all (service_exec handler) (server_trace handler evs (new_tcp_server config hs)) (\<lambda>_. Idle, hs) =
        Some (cs, sv_handler s')
    \<and> (\<forall>p ts. sv_heap s' p = Some ts \<longrightarrow> converses (ts_phase ts) (cs p)
        \<and> ts_sent ts = concat (sents p (server_trace handler evs (new_tcp_server config hs))))"
proof -
  obtain cs where cs: "run_all (service_exec handler) (server_trace handler evs (new_tcp_server config hs))
      (\<lambda>_. Idle, hs) = Some (cs, sv_handler s')" "\<And>p. converses (phase_at s' p) (cs p)"
    using service_run [OF assms] by blast
  moreover have "converses (ts_phase ts) (cs p)
      \<and> ts_sent ts = concat (sents p (server_trace handler evs (new_tcp_server config hs)))"
    if "sv_heap s' p = Some ts" for p ts
    using that cs(2) [of p] sent_run [OF assms, of p] by (simp add: phase_at_def sent_at_def new_tcp_server_def)
  ultimately show ?thesis by blast
qed

theorem server_refines_service_witness:
  "\<exists>s cs. server_run echo_handler two_clients (new_tcp_server server_config_default ()) = Some s
    \<and> run_all (service_exec echo_handler)
        (server_trace echo_handler two_clients (new_tcp_server server_config_default ())) (\<lambda>_. Idle, ()) =
        Some (cs, sv_handler s)"
proof -
  obtain s where s: "server_run echo_handler two_clients (new_tcp_server server_config_default ()) = Some s"
    using two_clients_run ..
  from server_refines_service [OF s] s show ?thesis by blast
qed

text \<open>The runs in which a call of the handler is one step. There the calls, of all
  sessions together, are a sequential execution of the handler from its first state; and each session handles its
  complete messages in the order in which they arrive, with at most one of them in work, and what it sends are
  beginnings of the handler's answers to them, in the same order, with at most one answer not sent yet.\<close>

lemma requests_linearized:
  assumes "server_run handler evs (new_tcp_server config hs) = Some s'"
    and "tr = server_trace handler evs (new_tcp_server config hs)"
  shows "sequential handler (map fst (calls tr)) hs = (map snd (calls tr), sv_handler s')
    \<and> length (messages p tr) \<le> length (requests p tr) + 1
    \<and> list_all2 begins (take (length (requests p tr)) (messages p tr)) (requests p tr)
    \<and> length (replies p tr) \<le> length (sents p tr) + 1
    \<and> list_all2 begins (sents p tr) (take (length (sents p tr)) (replies p tr))"
proof -
  obtain cs where cs: "run_all (service_exec handler) tr (\<lambda>_. Idle, hs) = Some (cs, sv_handler s')"
    using service_run [OF assms(1)] assms(2) by blast
  obtain bss where bss: "messages p tr = bss @ unanswered (cs p)" "list_all2 begins bss (requests p tr)"
    using service_requests [OF cs, of p] by auto
  obtain resps where resps: "replies p tr = resps @ unsent (cs p)" "list_all2 begins (sents p tr) resps"
    using service_replies [OF cs, of p] by auto
  have "length (unanswered (cs p)) \<le> 1" "length (unsent (cs p)) \<le> 1" by (cases "cs p"; simp)+
  then show ?thesis
    using service_sequential [OF cs] bss resps list_all2_lengthD [OF bss(2)] list_all2_lengthD [OF resps(2)] by simp
qed

end
