(* ===== verification/Shared_Device.thy ===== *)
theory Shared_Device
  imports Device Server_Service
begin

text \<open>
  Many clients at once. The server (server/tcp_server.cpp, server/tcp_session.cpp) with the example handler
  (test/tcp_server_test.cpp) interleaves its sessions in any order, and any of them may fail, end or be stopped at any
  moment. As long as the complete messages that arrive are requests of commands, the clients share one
  device: its commands take effect one after the other, in the order of the calls of the handler, and each
  answer is the reply of the device at that moment, under the transaction id of its request.
\<close>

text \<open>A message with the request of a command, and a call of the handler that answers it with a reply.\<close>

definition command_message :: "uint8 list \<Rightarrow> bool" where
  "command_message bs \<longleftrightarrow> (\<exists>tid u c. command_ok c \<and> bs = frame tid (command_pdu u c))"

definition call_answers :: "command \<Rightarrow> reply \<Rightarrow> tcp_data_unit \<times> tcp_data_unit result \<Rightarrow> bool" where
  "call_answers c r call \<longleftrightarrow> (\<exists>tid u resp ys. begins (frame tid (command_pdu u c)) (fst call)
     \<and> snd call = Inr resp \<and> du_buffer resp = frame tid ys \<and> command_decode c (padded_unit tid ys) = r)"

lemma command_call:
  assumes "handler_ok h" "command_message bs" "begins bs req" "du_type req = request"
  shows "\<exists>c h' r. request_handler_call req h = (r, h') \<and> handler_ok h' \<and> validAddresses h' = validAddresses h
    \<and> (\<exists>reply. call_answers c reply (req, r) \<and> device_step (validAddresses h) c (device_of h) = (reply, device_of h'))"
proof -
  obtain tid u c where c: "command_ok c" "bs = frame tid (command_pdu u c)"
    using assms(2) by (auto simp: command_message_def)
  from command_refines [OF assms(1) c(1), of tid u] obtain resp ys h' where
    resp: "answers request_handler_call bs h resp h'" "du_buffer resp = frame tid ys" "handler_ok h'"
      "validAddresses h' = validAddresses h"
      "device_step (validAddresses h) c (device_of h) = (command_decode c (padded_unit tid ys), device_of h')"
    unfolding refines_def c(2) by blast
  have "m_buffer req = bs @ drop (length bs) (m_buffer req)"
    using assms(3) append_take_drop_id [of "length bs" "m_buffer req"] by (simp add: du_buffer_def)
  then have "req = \<lparr>m_buffer = bs @ drop (length bs) (m_buffer req), m_type = request\<rparr>"
    using assms(4) by (cases req) (simp add: du_type_def)
  then have "request_handler_call req h = (Inr resp, h')" using resp(1) unfolding answers_def by metis
  moreover have "call_answers c (command_decode c (padded_unit tid ys)) (req, Inr resp)"
    using assms(3) resp(2) unfolding call_answers_def c(2) by auto
  ultimately show ?thesis using resp(3-5) by blast
qed

lemma service_device:
  assumes "run_all (service_exec request_handler_call) tr (convs, h) = Some (convs', h')" "handler_ok h"
    and "\<forall>p bs. convs p = Asked bs \<longrightarrow> command_message bs" "list_all command_message (all_messages tr)"
  shows "\<exists>cs rs. list_all2 (\<lambda>(c, r). call_answers c r) (zip cs rs) (calls tr) \<and> length cs = length rs
    \<and> device_run (validAddresses h) cs (device_of h) = (rs, device_of h')"
  using assms
proof (induction tr arbitrary: convs h)
  case (Cons ob tr)
  from Cons.prems(1) obtain convs1 h1 where s1: "service_exec request_handler_call ob (convs, h) = Some (convs1, h1)"
      "run_all (service_exec request_handler_call) tr (convs1, h1) = Some (convs', h')"
    by (auto split: option.splits)
  show ?case
  proof (cases ob)
    case (Called p req r)
    with s1(1) obtain bs where bs: "convs p = Asked bs" "begins bs req" "du_type req = request"
        "request_handler_call req h = (r, h1)" "\<forall>q bs. convs1 q = Asked bs \<longrightarrow> convs q = Asked bs"
      by (auto split: conversation.splits if_splits sum.splits simp: prod_eq_iff)
    from command_call [OF Cons.prems(2) _ bs(2,3)] Cons.prems(3) bs(1,4) obtain c reply where
      c: "call_answers c reply (req, r)" "device_step (validAddresses h) c (device_of h) = (reply, device_of h1)"
        "handler_ok h1" "validAddresses h1 = validAddresses h"
      by fastforce
    have "\<forall>q bs. convs1 q = Asked bs \<longrightarrow> command_message bs" using Cons.prems(3) bs(5) by blast
    from Cons.IH [OF s1(2) c(3) this] Cons.prems(4) Called obtain cs rs where
      "list_all2 (\<lambda>(c, r). call_answers c r) (zip cs rs) (calls tr)" "length cs = length rs"
      "device_run (validAddresses h1) cs (device_of h1) = (rs, device_of h')"
      by auto
    with c Called show ?thesis by (intro exI [of _ "c # cs"] exI [of _ "reply # rs"]) simp
  next
    case (Got p bs)
    with s1(1) have h1: "h1 = h" "convs1 = convs(p := hear bs)" by (auto split: if_splits)
    have "\<forall>q bs'. convs1 q = Asked bs' \<longrightarrow> command_message bs'"
      using Cons.prems(3,4) Got h1(2) by (auto simp: hear_def split: if_splits)
    from Cons.IH [OF s1(2) _ this] Cons.prems(2,4) Got h1(1) show ?thesis by (simp split: if_splits)
  next
    case (Sent p ws)
    with s1(1) have "h1 = h" "\<forall>q bs. convs1 q = Asked bs \<longrightarrow> convs q = Asked bs"
      by (auto split: conversation.splits if_splits)
    moreover from this(2) have "\<forall>q bs. convs1 q = Asked bs \<longrightarrow> command_message bs" using Cons.prems(3) by blast
    ultimately show ?thesis using Cons.IH [OF s1(2)] Cons.prems(2,4) Sent by simp
  qed
qed (intro exI [of _ "[]"], simp)

text \<open>C2: the clients of the example server share one device. In every run of the server from its start, for any
  number of clients and any interleaving, in which every complete message is the request of a command, the calls
  of the handler answer commands of one sequential run of the device, each with the device's reply to it, and the
  memories of the server are what that run made of the device.\<close>

theorem clients_share_device:
  assumes "server_run request_handler_call evs (new_tcp_server config h) = Some s'" "handler_ok h"
    and "tr = server_trace request_handler_call evs (new_tcp_server config h)"
    and "list_all command_message (all_messages tr)"
  shows "\<exists>cs rs. list_all2 (\<lambda>(c, r). call_answers c r) (zip cs rs) (calls tr) \<and> length cs = length rs
    \<and> device_run (validAddresses h) cs (device_of h) = (rs, device_of (sv_handler s'))"
  using service_run [OF assms(1)] service_device [OF _ assms(2) _ assms(4)] assms(3) by fastforce

text \<open>Two clients, one of which writes a register the other one reads.\<close>

definition two_masters :: "server_event list" where
  "two_masters = [Listen True, Accept 1 True, Run_start 1, Begin 1 True, Accept 2 True, Run_start 2, Begin 2 True,
     Read_done 2 None (frame 8 (command_pdu 1 (Read_holding_registers 0 2))),
     Read_done 1 None (frame 7 (command_pdu 1 (Write_register 1 0xABCD))),
     Handler_done 1, Handler_done 2, Write_done 2 None 13, Write_done 1 None 12]"

lemma two_masters_run:
  "\<exists>s. server_run request_handler_call two_masters (new_tcp_server server_config_default new_request_handler) = Some s"
proof -
  have "server_run request_handler_call two_masters (new_tcp_server server_config_default new_request_handler) \<noteq> None"
    by code_simp
  then show ?thesis by simp
qed

lemma two_masters_messages:
  "list_all command_message (all_messages
     (server_trace request_handler_call two_masters (new_tcp_server server_config_default new_request_handler)))"
proof -
  let ?tr = "server_trace request_handler_call two_masters (new_tcp_server server_config_default new_request_handler)"
  have "list_all (\<lambda>bs. bs = frame 8 (command_pdu 1 (Read_holding_registers 0 2))
      \<or> bs = frame 7 (command_pdu 1 (Write_register 1 0xABCD))) (all_messages ?tr)"
    by code_simp
  moreover have "command_ok (Read_holding_registers 0 2)" "command_ok (Write_register 1 0xABCD)"
    by (simp_all add: exact_range_def)
  ultimately show ?thesis unfolding command_message_def list_all_iff by blast
qed

theorem clients_share_device_witness:
  "\<exists>s cs rs. server_run request_handler_call two_masters (new_tcp_server server_config_default new_request_handler) = Some s
    \<and> length cs = 2 \<and> length rs = 2
    \<and> device_run (validAddresses new_request_handler) cs (device_of new_request_handler) = (rs, device_of (sv_handler s))"
proof -
  let ?tr = "server_trace request_handler_call two_masters (new_tcp_server server_config_default new_request_handler)"
  obtain s where s: "server_run request_handler_call two_masters
      (new_tcp_server server_config_default new_request_handler) = Some s"
    using two_masters_run ..
  from clients_share_device [OF s new_handler_ok refl two_masters_messages] obtain cs rs where
    "list_all2 (\<lambda>(c, r). call_answers c r) (zip cs rs) (calls ?tr)" "length cs = length rs"
    "device_run (validAddresses new_request_handler) cs (device_of new_request_handler) = (rs, device_of (sv_handler s))"
    by blast
  moreover have "length (calls ?tr) = 2" by code_simp
  ultimately show ?thesis using s list_all2_lengthD by fastforce
qed

end
