(* ===== verification/Suspending_Handlers.thy ===== *)
theory Suspending_Handlers
  imports Server_Service Example_Server
begin

text \<open>
  The request handler as the coroutine it is: \<open>co_await request_handler_(request)\<close> in server/tcp_session.cpp
  awaits an awaitable that may suspend, so the calls of different sessions can overlap.

  A handler is started with a request and resumed any number of times. Each time it works on the state that
  all calls share, up to the \<open>co_await\<close> where it suspends or to its end. \<open>await_exec\<close> is the step of the server with
  such a handler: the events of \<open>Tcp_Server\<close> other than the completion of a call, and the resumption of
  the call of a session. The rest of the session's body is the one of \<open>Tcp_Server\<close>.

  For all handlers, the calls are an interleaving of coroutines, and each session has its messages handled and
  answered in order. A handler that only waits, before it works without suspending, has the runs in which
  a call is one step; \<open>slow_handler\<close> of test/tcp_server_test.cpp is of this kind.
\<close>

subsection \<open>The server with a handler that suspends\<close>

datatype 'k awaited = Suspended 'k | Completed "tcp_data_unit result"

record ('k, 'h) awaitable_handler =
  co_start :: "tcp_data_unit \<Rightarrow> 'k"
  co_resume :: "'k \<Rightarrow> 'h \<Rightarrow> 'k awaited \<times> 'h"

text \<open>Beside the server: the frames of the calls that have suspended, by session.\<close>

type_synonym ('k, 'h) await_server = "'h tcp_server \<times> (session_ptr \<rightharpoonup> 'k)"

datatype await_event = Network server_event | Resume session_ptr

fun completes_call :: "server_event \<Rightarrow> bool" where
  "completes_call (Handler_done p) \<longleftrightarrow> True"
| "completes_call _ \<longleftrightarrow> False"

text \<open>No event but the completion of a call looks at the handler.\<close>

definition no_handler :: "'h request_handler_t" where
  "no_handler req hs = (Inl undefined_behaviour, hs)"

definition call_frame :: "('k, 'h) awaitable_handler \<Rightarrow> (session_ptr \<rightharpoonup> 'k) \<Rightarrow> session_ptr \<Rightarrow> tcp_data_unit \<Rightarrow> 'k" where
  "call_frame co ks p req = (case ks p of None \<Rightarrow> co_start co req | Some k \<Rightarrow> k)"

definition handler_resumed ::
  "('k, 'h) awaitable_handler \<Rightarrow> session_ptr \<Rightarrow> tcp_data_unit \<Rightarrow> tcp_session \<Rightarrow> ('k, 'h) await_server \<Rightarrow>
     ('k, 'h) await_server" where
  "handler_resumed co p req ts = (\<lambda>(s, ks).
     case co_resume co (call_frame co ks p req) (sv_handler s) of
       (Suspended k, hs) \<Rightarrow> (s\<lparr>sv_handler := hs\<rparr>, ks(p \<mapsto> k))
     | (Completed r, hs) \<Rightarrow> (session_handler_done p (r, hs) ts s, ks(p := None)))"

fun await_exec ::
  "('k, 'h) awaitable_handler \<Rightarrow> await_event \<Rightarrow> ('k, 'h) await_server \<Rightarrow> ('k, 'h) await_server option" where
  "await_exec co (Network ev) (s, ks) =
     (if completes_call ev then None
      else map_option (\<lambda>s'. (s', ks)) (server_exec no_handler ev s))"
| "await_exec co (Resume p) (s, ks) = (case sv_heap s p of
     Some ts \<Rightarrow> (case ts_phase ts of handling req \<Rightarrow> Some (handler_resumed co p req ts (s, ks)) | _ \<Rightarrow> None)
   | None \<Rightarrow> None)"

definition await_run ::
  "('k, 'h) awaitable_handler \<Rightarrow> await_event list \<Rightarrow> ('k, 'h) await_server \<Rightarrow> ('k, 'h) await_server option" where
  "await_run co = run_all (await_exec co)"

text \<open>What is seen of a run, as in \<open>Server_Service\<close>; a call is seen when it completes.\<close>

fun await_observe :: "('k, 'h) awaitable_handler \<Rightarrow> await_event \<Rightarrow> ('k, 'h) await_server \<Rightarrow> observation list" where
  "await_observe co (Network ev) (s, ks) = observe no_handler ev s"
| "await_observe co (Resume p) (s, ks) = (case phase_at s p of
     handling req \<Rightarrow> (case fst (co_resume co (call_frame co ks p req) (sv_handler s)) of
         Completed r \<Rightarrow> [Called p req r] | Suspended _ \<Rightarrow> [])
   | _ \<Rightarrow> [])"

definition await_trace :: "('k, 'h) awaitable_handler \<Rightarrow> await_event list \<Rightarrow> ('k, 'h) await_server \<Rightarrow> observation list" where
  "await_trace co = trace_of (await_exec co) (await_observe co)"

text \<open>The events of \<open>Tcp_Server\<close> in a run: a call that completes is one, a call that suspends is none.\<close>

fun await_events :: "('k, 'h) awaitable_handler \<Rightarrow> await_event \<Rightarrow> ('k, 'h) await_server \<Rightarrow> server_event list" where
  "await_events co (Network ev) (s, ks) = [ev]"
| "await_events co (Resume p) (s, ks) = (case phase_at s p of
     handling req \<Rightarrow> (case fst (co_resume co (call_frame co ks p req) (sv_handler s)) of
         Completed r \<Rightarrow> [Handler_done p] | Suspended _ \<Rightarrow> [])
   | _ \<Rightarrow> [])"

abbreviation plain_events :: "('k, 'h) awaitable_handler \<Rightarrow> await_event list \<Rightarrow> ('k, 'h) await_server \<Rightarrow> server_event list" where
  "plain_events co \<equiv> trace_of (await_exec co) (await_events co)"

subsection \<open>Sessions in order, whatever the handler does\<close>

text \<open>The server with another handler state, and the handler that gives results fixed in advance.\<close>

definition with_handler :: "'a \<Rightarrow> 'h tcp_server \<Rightarrow> 'a tcp_server" where
  "with_handler hs s =
     \<lparr>sv_config = sv_config s, sv_manager = sv_manager s, sv_heap = sv_heap s, sv_stop = sv_stop s,
      sv_acceptor_open = sv_acceptor_open s, sv_accepting = sv_accepting s, sv_pending = sv_pending s,
      sv_handler = hs\<rparr>"

fun replay :: "tcp_data_unit result list request_handler_t" where
  "replay req (r # rs) = (r, rs)"
| "replay req [] = (Inl undefined_behaviour, [])"

lemma with_handler_fields [simp]:
  "sv_config (with_handler hs s) = sv_config s" "sv_manager (with_handler hs s) = sv_manager s"
  "sv_heap (with_handler hs s) = sv_heap s" "sv_stop (with_handler hs s) = sv_stop s"
  "sv_accepting (with_handler hs s) = sv_accepting s" "sv_pending (with_handler hs s) = sv_pending s"
  "sv_handler (with_handler hs s) = hs" "phase_at (with_handler hs s) p = phase_at s p"
  by (simp_all add: with_handler_def phase_at_def)

lemma with_handler_updates [simp]:
  "with_handler hs (set_session p ts s) = set_session p ts (with_handler hs s)"
  "with_handler hs (set_manager mh s) = set_manager mh (with_handler hs s)"
  "with_handler hs (s\<lparr>sv_handler := hs'\<rparr>) = with_handler hs s"
  "(with_handler hs s)\<lparr>sv_handler := hs''\<rparr> = with_handler hs'' s"
  by (simp_all add: with_handler_def set_session_def set_manager_def)

lemma network_handler:
  assumes "\<not> completes_call ev"
  shows "server_exec handler ev (with_handler hs s) = map_option (with_handler hs) (server_exec no_handler ev s)"
proof (cases ev)
  case (Read_done p err bs)
  then show ?thesis
    by (auto simp: session_read_done_def Let_def stop_and_break_def split: option.splits sum.splits)
next
  case (Write_done p err n)
  then show ?thesis
    by (auto simp: session_write_done_def Let_def stop_and_break_def split: option.splits session_phase.splits)
qed (use assms in \<open>auto simp: server_listen_def server_accept_def server_accept_error_def server_run_start_def
      session_begin_def server_stop_def with_handler_def set_session_def set_manager_def
      split: option.splits prod.splits\<close>)

lemma network_observe:
  "\<not> completes_call ev \<Longrightarrow> observe handler ev (with_handler hs s) = observe no_handler ev s"
  by (cases ev) simp_all

lemma network_same: "\<not> completes_call ev \<Longrightarrow> server_exec handler ev s = server_exec no_handler ev s"
  by (cases ev) simp_all

lemma observe_same: "\<not> completes_call ev \<Longrightarrow> observe handler ev s = observe no_handler ev s"
  by (cases ev) simp_all

lemma handler_done_replay:
  "session_handler_done p (r, rs) ts (with_handler rs' s) = with_handler rs (session_handler_done p (r, hs) ts s)"
  by (auto simp: session_handler_done_def Let_def split: sum.splits)

lemma calls_append [simp]: "calls (tr @ tr') = calls tr @ calls tr'"
  by (induction tr rule: calls.induct) auto

lemma calls_observe: "\<not> completes_call ev \<Longrightarrow> calls (observe handler ev s) = []"
  by (cases ev) (auto split: option.splits session_phase.splits)

text \<open>One step: with the result of its call at hand, the server of \<open>Tcp_Server\<close> makes the step.\<close>

lemma await_step:
  assumes "await_exec co e (s, ks) = Some (s', ks')"
  shows "server_run replay (await_events co e (s, ks)) (with_handler (map snd (calls (await_observe co e (s, ks))) @ rs) s) =
      Some (with_handler rs s')
    \<and> server_trace replay (await_events co e (s, ks)) (with_handler (map snd (calls (await_observe co e (s, ks))) @ rs) s) =
      await_observe co e (s, ks)"
proof (cases e)
  case (Network ev)
  with assms show ?thesis
    by (auto simp: network_handler network_observe calls_observe server_trace_def split: if_splits)
next
  case (Resume p)
  with assms obtain ts req where ts: "sv_heap s p = Some ts" "ts_phase ts = handling req"
      and s': "(s', ks') = handler_resumed co p req ts (s, ks)"
    by (auto split: option.splits session_phase.splits)
  obtain k hs where k: "co_resume co (call_frame co ks p req) (sv_handler s) = (k, hs)" by (metis prod.collapse)
  show ?thesis
  proof (cases k)
    case (Suspended k')
    with Resume ts s' k show ?thesis by (simp add: handler_resumed_def phase_at_def server_trace_def)
  next
    case (Completed r)
    with Resume ts s' k show ?thesis
      by (simp add: handler_resumed_def phase_at_def server_trace_def handler_done_replay [where hs = hs])
  qed
qed

lemma server_trace_append:
  assumes "server_run handler evs s = Some s1"
  shows "server_trace handler (evs @ evs') s = server_trace handler evs s @ server_trace handler evs' s1"
  using assms by (induction evs arbitrary: s) (auto simp: server_trace_def split: option.splits)

lemma server_run_append:
  "server_run handler (evs @ evs') s = (case server_run handler evs s of None \<Rightarrow> None | Some s' \<Rightarrow> server_run handler evs' s')"
  unfolding server_run_def by (rule run_all_append)

lemma await_run_append:
  "await_run co (es @ es') a = (case await_run co es a of None \<Rightarrow> None | Some a' \<Rightarrow> await_run co es' a')"
  unfolding await_run_def by (rule run_all_append)

lemma await_trace_append:
  assumes "await_run co es a = Some a1"
  shows "await_trace co (es @ es') a = await_trace co es a @ await_trace co es' a1"
  using assms by (induction es arbitrary: a) (auto simp: await_trace_def await_run_def split: option.splits)

lemma await_simulated:
  assumes "await_run co es (s, ks) = Some (s', ks')"
  shows "server_run replay (plain_events co es (s, ks)) (with_handler (map snd (calls (await_trace co es (s, ks))) @ rs) s) =
      Some (with_handler rs s')
    \<and> server_trace replay (plain_events co es (s, ks)) (with_handler (map snd (calls (await_trace co es (s, ks))) @ rs) s) =
      await_trace co es (s, ks)"
  using assms
proof (induction es arbitrary: s ks)
  case (Cons e es)
  from Cons.prems obtain s1 ks1 where s1: "await_exec co e (s, ks) = Some (s1, ks1)"
      "await_run co es (s1, ks1) = Some (s', ks')"
    by (auto simp: await_run_def split: option.splits)
  let ?rs = "map snd (calls (await_trace co es (s1, ks1))) @ rs"
  have tr: "await_trace co (e # es) (s, ks) = await_observe co e (s, ks) @ await_trace co es (s1, ks1)"
    using s1(1) by (simp add: await_trace_def)
  show ?case
    using await_step [OF s1(1), of ?rs] Cons.IH [OF s1(2)] s1(1) unfolding tr
    by (auto simp: server_run_append server_trace_append)
qed (simp_all add: await_run_def await_trace_def server_trace_def)

lemma with_handler_new [simp]: "with_handler rs (new_tcp_server config hs) = new_tcp_server config rs"
  by (simp add: with_handler_def new_tcp_server_def)

subsection \<open>The calls are an interleaving of coroutines\<close>

text \<open>The calls by themselves: a call begins with a request, or goes on from where it was suspended, on
  the state the step before it has left. A session has one call at a time. What has completed is listed.\<close>

datatype call_step = Begin_call session_ptr tcp_data_unit | Continue_call session_ptr

type_synonym ('k, 'h) call_state =
  "(session_ptr \<rightharpoonup> tcp_data_unit \<times> 'k) \<times> 'h \<times> (tcp_data_unit \<times> tcp_data_unit result) list"

definition call_resumed ::
  "('k, 'h) awaitable_handler \<Rightarrow> session_ptr \<Rightarrow> tcp_data_unit \<Rightarrow> 'k \<Rightarrow> ('k, 'h) call_state \<Rightarrow> ('k, 'h) call_state" where
  "call_resumed co p req k = (\<lambda>(fs, hs, done). case co_resume co k hs of
     (Suspended k', hs') \<Rightarrow> (fs(p \<mapsto> (req, k')), hs', done)
   | (Completed r, hs') \<Rightarrow> (fs(p := None), hs', done @ [(req, r)]))"

fun calls_exec :: "('k, 'h) awaitable_handler \<Rightarrow> call_step \<Rightarrow> ('k, 'h) call_state \<Rightarrow> ('k, 'h) call_state option" where
  "calls_exec co (Begin_call p req) (fs, hs, done) =
     (if fs p = None then Some (call_resumed co p req (co_start co req) (fs, hs, done)) else None)"
| "calls_exec co (Continue_call p) (fs, hs, done) =
     (case fs p of Some (req, k) \<Rightarrow> Some (call_resumed co p req k (fs, hs, done)) | None \<Rightarrow> None)"

fun call_steps :: "('k, 'h) awaitable_handler \<Rightarrow> await_event \<Rightarrow> ('k, 'h) await_server \<Rightarrow> call_step list" where
  "call_steps co (Resume p) (s, ks) = (case phase_at s p of
     handling req \<Rightarrow> [if ks p = None then Begin_call p req else Continue_call p] | _ \<Rightarrow> [])"
| "call_steps co _ _ = []"

definition call_trace :: "('k, 'h) awaitable_handler \<Rightarrow> await_event list \<Rightarrow> ('k, 'h) await_server \<Rightarrow> call_step list" where
  "call_trace co = trace_of (await_exec co) (call_steps co)"

text \<open>A suspended call belongs to the request its session is handling.\<close>

definition frames_of :: "'h tcp_server \<Rightarrow> (session_ptr \<rightharpoonup> 'k) \<Rightarrow> (session_ptr \<rightharpoonup> tcp_data_unit \<times> 'k) \<Rightarrow> bool" where
  "frames_of s ks fs \<longleftrightarrow> server_inv s
     \<and> (\<forall>p. ks p = map_option snd (fs p))
     \<and> (\<forall>p req k. fs p = Some (req, k) \<longrightarrow> phase_at s p = handling req)"

text \<open>Nothing but its completion ends a call.\<close>

lemma network_keeps_handling:
  assumes "server_inv s" "server_exec handler ev s = Some s'" "\<not> completes_call ev" "phase_at s p = handling req"
  shows "phase_at s' p = handling req"
proof (cases ev)
  case (Run_start q)
  then have q: "q \<in> set (sv_pending s)" and s': "s' = server_run_start q s" using assms(2) by (auto split: if_splits)
  from q assms(1) obtain ts where "sv_heap s q = Some ts" "ts_phase ts = not_started"
    by (fastforce simp: server_inv_def live_in_def split: option.splits)
  then show ?thesis
    using s' assms(4) by (auto simp: phase_at_def server_run_start_def manager_start_def spawn_apply heap_stop_apply)
next
  case Server_stop
  with assms show ?thesis
    by (auto simp: phase_at_def server_stop_def manager_stop_all_def fold_heap_stop_apply
        split: option.splits if_splits)
next
  case (Read_done q err bs)
  with assms show ?thesis
    by (auto simp: phase_at_def session_read_done_def stop_and_break_def manager_stop_def heap_stop_apply Let_def
        split: option.splits if_splits sum.splits)
next
  case (Write_done q err n)
  with assms show ?thesis
    by (auto simp: phase_at_def session_write_done_def stop_and_break_def manager_stop_def heap_stop_apply Let_def
        split: option.splits if_splits session_phase.splits)
qed (use assms in \<open>auto simp: phase_at_def server_listen_def server_accept_def server_accept_error_def
      session_begin_def split: option.splits if_splits\<close>)

lemma handler_done_phase:
  "q \<noteq> p \<Longrightarrow> phase_at (session_handler_done p outcome ts s) q = phase_at s q"
  "sv_handler (session_handler_done p outcome ts s) = snd outcome"
  by (auto simp: phase_at_def session_handler_done_def Let_def split: prod.splits sum.splits)

text \<open>The steps of the calls in one step of the server.\<close>

lemma frames_resume:
  assumes "frames_of s ks fs" "sv_heap s p = Some ts" "ts_phase ts = handling req"
    and "handler_resumed co p req ts (s, ks) = (s', ks')"
  shows "\<exists>fs'. call_resumed co p req (call_frame co ks p req) (fs, sv_handler s, done) =
      (fs', sv_handler s', done @ calls (await_observe co (Resume p) (s, ks))) \<and> frames_of s' ks' fs'"
proof -
  obtain k hs where k: "co_resume co (call_frame co ks p req) (sv_handler s) = (k, hs)" by (metis prod.collapse)
  note inv = assms(1) [unfolded frames_of_def]
  show ?thesis
  proof (cases k)
    case (Suspended k')
    then have "s' = s\<lparr>sv_handler := hs\<rparr>" "ks' = ks(p \<mapsto> k')"
      using assms(4) k by (simp_all add: handler_resumed_def)
    then show ?thesis
      using Suspended k assms(2,3) inv
      by (auto simp: call_resumed_def phase_at_def frames_of_def inv_handler_state)
  next
    case (Completed r)
    then have "s' = session_handler_done p (r, hs) ts s" "ks' = ks(p := None)"
      using assms(4) k by (simp_all add: handler_resumed_def)
    then show ?thesis
      using Completed k assms(2,3) inv inv_handler_done [of s p ts req "(r, hs)"]
      by (auto simp: call_resumed_def phase_at_def [of s] frames_of_def handler_done_phase)
  qed
qed

lemma calls_step:
  assumes "frames_of s ks fs" "await_exec co e (s, ks) = Some (s', ks')"
  shows "\<exists>fs'. run_all (calls_exec co) (call_steps co e (s, ks)) (fs, sv_handler s, done) =
      Some (fs', sv_handler s', done @ calls (await_observe co e (s, ks))) \<and> frames_of s' ks' fs'"
proof (cases e)
  case (Network ev)
  then have ev: "\<not> completes_call ev" "server_exec no_handler ev s = Some s'" "ks' = ks"
    using assms(2) by (auto split: if_splits)
  have "server_exec no_handler ev (with_handler (sv_handler s) s) = Some (with_handler (sv_handler s) s')"
    using ev(2) by (simp add: network_handler [OF ev(1)])
  moreover have "with_handler (sv_handler s) s = s" by (simp add: with_handler_def)
  ultimately have "sv_handler s' = sv_handler s" using ev(2) by (metis option.inject with_handler_fields(7))
  moreover have "frames_of s' ks' fs"
    using assms(1) ev network_keeps_handling [OF _ ev(2,1)] inv_exec [OF _ ev(2)] by (simp add: frames_of_def)
  ultimately show ?thesis using Network ev(1) by (simp add: calls_observe)
next
  case (Resume p)
  with assms obtain ts req where ts: "sv_heap s p = Some ts" "ts_phase ts = handling req"
      and s': "handler_resumed co p req ts (s, ks) = (s', ks')"
    by (auto split: option.splits session_phase.splits)
  have ph: "phase_at s p = handling req" using ts by (simp add: phase_at_def)
  have fs: "fs p = None \<and> ks p = None \<or> (\<exists>k. fs p = Some (req, k) \<and> ks p = Some k)"
    using assms(1) ph by (cases "fs p") (auto simp: frames_of_def)
  from frames_resume [OF assms(1) ts s', of "done"] show ?thesis
    using fs ph unfolding Resume by (auto simp: call_frame_def)
qed

lemma calls_run:
  assumes "await_run co es (s, ks) = Some (s', ks')" "frames_of s ks fs"
  shows "\<exists>fs'. run_all (calls_exec co) (call_trace co es (s, ks)) (fs, sv_handler s, done) =
      Some (fs', sv_handler s', done @ calls (await_trace co es (s, ks))) \<and> frames_of s' ks' fs'"
  using assms
proof (induction es arbitrary: s ks fs "done")
  case (Cons e es)
  from Cons.prems obtain s1 ks1 where s1: "await_exec co e (s, ks) = Some (s1, ks1)"
      "await_run co es (s1, ks1) = Some (s', ks')"
    by (auto simp: await_run_def split: option.splits)
  from calls_step [OF Cons.prems(2) s1(1), of "done"] obtain fs1 where fs1:
      "run_all (calls_exec co) (call_steps co e (s, ks)) (fs, sv_handler s, done) =
        Some (fs1, sv_handler s1, done @ calls (await_observe co e (s, ks)))" "frames_of s1 ks1 fs1"
    by blast
  from Cons.IH [OF s1(2) fs1(2), of "done @ calls (await_observe co e (s, ks))"] fs1(1) s1(1) show ?case
    by (simp add: call_trace_def await_trace_def run_all_append)
qed (simp add: await_run_def call_trace_def await_trace_def)

subsection \<open>Handlers that only wait\<close>

text \<open>A handler that leaves the state alone as long as it suspends, suspends finitely often, and then does the
  work of \<open>f\<close> in one go.\<close>

locale waiting_handler =
  fixes co :: "('k, 'h) awaitable_handler"
    and f :: "'h request_handler_t"
    and request_of :: "'k \<Rightarrow> tcp_data_unit"
    and waits :: "'k \<Rightarrow> nat"
  assumes started: "request_of (co_start co req) = req"
    and suspended: "co_resume co k hs = (Suspended k', hs') \<Longrightarrow> hs' = hs \<and> request_of k' = request_of k \<and> waits k' < waits k"
    and completed: "co_resume co k hs = (Completed r, hs') \<Longrightarrow> f (request_of k) hs = (r, hs')"
begin

definition waiting_in :: "'h tcp_server \<Rightarrow> (session_ptr \<rightharpoonup> 'k) \<Rightarrow> bool" where
  "waiting_in s ks \<longleftrightarrow> server_inv s \<and> (\<forall>p k. ks p = Some k \<longrightarrow> phase_at s p = handling (request_of k))"

lemma call_frame_request:
  "waiting_in s ks \<Longrightarrow> phase_at s p = handling req \<Longrightarrow> request_of (call_frame co ks p req) = req"
  by (auto simp: waiting_in_def call_frame_def started split: option.splits)

lemma resumed_cases:
  obtains k where "co_resume co (call_frame co ks p req) hs = (Suspended k, hs)"
      "request_of k = request_of (call_frame co ks p req)" "waits k < waits (call_frame co ks p req)"
  | "co_resume co (call_frame co ks p req) hs =
      (Completed (fst (f (request_of (call_frame co ks p req)) hs)), snd (f (request_of (call_frame co ks p req)) hs))"
proof -
  obtain k hs' where k: "co_resume co (call_frame co ks p req) hs = (k, hs')" by (metis prod.collapse)
  show thesis
  proof (cases k)
    case (Suspended k')
    with k suspended [of "call_frame co ks p req" hs k' hs'] that(1) show thesis by simp
  next
    case (Completed r)
    with k completed [of "call_frame co ks p req" hs r hs'] that(2) show thesis by simp
  qed
qed

lemma atomic_step:
  assumes "waiting_in s ks" "await_exec co e (s, ks) = Some (s', ks')"
  shows "server_run f (await_events co e (s, ks)) s = Some s'
    \<and> server_trace f (await_events co e (s, ks)) s = await_observe co e (s, ks) \<and> waiting_in s' ks'"
proof (cases e)
  case (Network ev)
  then have ev: "\<not> completes_call ev" "server_exec no_handler ev s = Some s'" "ks' = ks"
    using assms(2) by (auto split: if_splits)
  have "waiting_in s' ks'"
    using assms(1) ev network_keeps_handling [OF _ ev(2,1)] inv_exec [OF _ ev(2)] by (simp add: waiting_in_def)
  with Network ev(2) show ?thesis
    by (simp add: server_trace_def network_same [OF ev(1), of f] observe_same [OF ev(1), of f])
next
  case (Resume p)
  with assms obtain ts req where ts: "sv_heap s p = Some ts" "ts_phase ts = handling req"
      and s': "handler_resumed co p req ts (s, ks) = (s', ks')"
    by (auto split: option.splits session_phase.splits)
  then have ph: "phase_at s p = handling req" by (simp add: phase_at_def)
  note req = call_frame_request [OF assms(1) ph]
  show ?thesis
  proof (rule resumed_cases [of ks p req "sv_handler s"])
    fix k assume k: "co_resume co (call_frame co ks p req) (sv_handler s) = (Suspended k, sv_handler s)"
      "request_of k = request_of (call_frame co ks p req)"
    then have "s' = s" "ks' = ks(p \<mapsto> k)" using s' by (simp_all add: handler_resumed_def)
    with k ph req assms(1) Resume show ?thesis by (simp add: server_trace_def waiting_in_def)
  next
    assume k: "co_resume co (call_frame co ks p req) (sv_handler s) =
      (Completed (fst (f (request_of (call_frame co ks p req)) (sv_handler s))),
       snd (f (request_of (call_frame co ks p req)) (sv_handler s)))"
    then have "s' = session_handler_done p (f req (sv_handler s)) ts s" "ks' = ks(p := None)"
      using s' req by (simp_all add: handler_resumed_def)
    moreover from this have "waiting_in s' ks'"
      using assms(1) inv_handler_done [OF _ ts] by (simp add: waiting_in_def handler_done_phase)
    ultimately show ?thesis using k ph req ts Resume by (simp add: server_trace_def)
  qed
qed

lemma atomic_run:
  assumes "await_run co es (s, ks) = Some (s', ks')" "waiting_in s ks"
  shows "server_run f (plain_events co es (s, ks)) s = Some s'
    \<and> server_trace f (plain_events co es (s, ks)) s = await_trace co es (s, ks)"
  using assms
proof (induction es arbitrary: s ks)
  case (Cons e es)
  from Cons.prems obtain s1 ks1 where s1: "await_exec co e (s, ks) = Some (s1, ks1)"
      "await_run co es (s1, ks1) = Some (s', ks')"
    by (auto simp: await_run_def split: option.splits)
  from atomic_step [OF Cons.prems(2) s1(1)] Cons.IH [OF s1(2)] s1(1) show ?case
    by (simp add: await_trace_def server_run_append server_trace_append)
qed (simp add: await_run_def await_trace_def server_trace_def)

text \<open>Conversely, a call that is resumed often enough completes with what \<open>f\<close> does.\<close>

lemma call_completes:
  assumes "sv_heap s p = Some ts" "ts_phase ts = handling req" "waiting_in s ks"
  shows "\<exists>n. await_run co (replicate n (Resume p)) (s, ks) =
      Some (session_handler_done p (f req (sv_handler s)) ts s, ks(p := None))
    \<and> await_trace co (replicate n (Resume p)) (s, ks) = [Called p req (fst (f req (sv_handler s)))]"
  using assms(3)
proof (induction "waits (call_frame co ks p req)" arbitrary: ks rule: less_induct)
  case less
  have ph: "phase_at s p = handling req" using assms(1,2) by (simp add: phase_at_def)
  note req = call_frame_request [OF less.prems ph]
  show ?case
  proof (rule resumed_cases [of ks p req "sv_handler s"])
    fix k assume k: "co_resume co (call_frame co ks p req) (sv_handler s) = (Suspended k, sv_handler s)"
      "request_of k = request_of (call_frame co ks p req)" "waits k < waits (call_frame co ks p req)"
    have "waiting_in s (ks(p \<mapsto> k))" using less.prems k(2) ph req by (simp add: waiting_in_def)
    with less.hyps [of "ks(p \<mapsto> k)"] k(3) obtain n where
      "await_run co (replicate n (Resume p)) (s, ks(p \<mapsto> k)) =
        Some (session_handler_done p (f req (sv_handler s)) ts s, ks(p := None))"
      "await_trace co (replicate n (Resume p)) (s, ks(p \<mapsto> k)) = [Called p req (fst (f req (sv_handler s)))]"
      by (auto simp: call_frame_def)
    with k(1) assms(1,2) ph show ?thesis
      by (intro exI [of _ "Suc n"]) (simp add: await_run_def await_trace_def handler_resumed_def)
  next
    assume "co_resume co (call_frame co ks p req) (sv_handler s) =
      (Completed (fst (f (request_of (call_frame co ks p req)) (sv_handler s))),
       snd (f (request_of (call_frame co ks p req)) (sv_handler s)))"
    with req assms(1,2) ph show ?thesis
      by (intro exI [of _ 1]) (simp add: await_run_def await_trace_def handler_resumed_def)
  qed
qed

lemma atomic_run_awaited:
  assumes "server_run f evs s = Some s'" "waiting_in s ks" "ks = Map.empty"
  shows "\<exists>es. await_run co es (s, ks) = Some (s', ks) \<and> await_trace co es (s, ks) = server_trace f evs s"
  using assms(1,2)
proof (induction evs arbitrary: s)
  case (Cons ev evs)
  from Cons.prems obtain s1 where s1: "server_exec f ev s = Some s1" "server_run f evs s1 = Some s'"
    by (auto split: option.splits)
  have "server_inv s" using Cons.prems(2) by (simp add: waiting_in_def)
  from inv_exec [OF this s1(1)] have "waiting_in s1 ks" by (simp add: waiting_in_def assms(3))
  from Cons.IH [OF s1(2) this] obtain es where
    es: "await_run co es (s1, ks) = Some (s', ks)" "await_trace co es (s1, ks) = server_trace f evs s1" by blast
  have "\<exists>es1. await_run co es1 (s, ks) = Some (s1, ks) \<and> await_trace co es1 (s, ks) = observe f ev s"
  proof (cases "completes_call ev")
    case True
    then obtain p where ev: "ev = Handler_done p" by (cases ev) simp_all
    with s1(1) obtain ts req where ts: "sv_heap s p = Some ts" "ts_phase ts = handling req"
        "s1 = session_handler_done p (f req (sv_handler s)) ts s"
      by (auto split: option.splits session_phase.splits)
    from call_completes [OF ts(1,2) Cons.prems(2)] ts ev assms(3) show ?thesis by auto
  next
    case False
    with s1(1) show ?thesis
      by (intro exI [of _ "[Network ev]"])
        (simp add: await_run_def await_trace_def network_same [OF False, of f] observe_same [OF False, of f])
  qed
  then obtain es1 where es1: "await_run co es1 (s, ks) = Some (s1, ks)" "await_trace co es1 (s, ks) = observe f ev s"
    by blast
  have "server_trace f (ev # evs) s = observe f ev s @ server_trace f evs s1" using s1(1) by (simp add: server_trace_def)
  with es es1 show ?case
    by (intro exI [of _ "es1 @ es"]) (simp add: await_run_append await_trace_append)
qed (auto intro!: exI [of _ "[]"] simp: await_run_def await_trace_def server_trace_def)

end

text \<open>\<open>f\<close> after a number of pauses that depends on the request, and \<open>slow_handler\<close>, which pauses before it reads
  registers and answers other requests at once.\<close>

definition delayed :: "(tcp_data_unit \<Rightarrow> nat) \<Rightarrow> 'h request_handler_t \<Rightarrow> (nat \<times> tcp_data_unit, 'h) awaitable_handler" where
  "delayed pauses f =
     \<lparr>co_start = \<lambda>req. (pauses req, req),
      co_resume = \<lambda>(n, req) hs. case n of
          0 \<Rightarrow> (case f req hs of (r, hs') \<Rightarrow> (Completed r, hs'))
        | Suc m \<Rightarrow> (Suspended (m, req), hs)\<rparr>"

interpretation dly: waiting_handler "delayed pauses f" f snd fst for pauses f
  by unfold_locales (auto simp: delayed_def split: nat.splits prod.splits)

definition slow_pauses :: "tcp_data_unit \<Rightarrow> nat" where
  "slow_pauses req = (case function_code req of
     Inr fc \<Rightarrow> if fc \<noteq> function_code_value read_input_registers \<and> fc \<noteq> function_code_value read_holding_registers
               then 0 else 1
   | Inl _ \<Rightarrow> 0)"

definition slow_handler_coroutine :: "(nat \<times> tcp_data_unit, 'h) awaitable_handler" where
  "slow_handler_coroutine = delayed slow_pauses slow_handler"

text \<open>Two clients of the slow server: the call of the second begins and completes while the first one's is suspended.\<close>

definition overlapping_clients :: "await_event list" where
  "overlapping_clients = map Network demo_events @ [Resume 1] @
     map Network [Accept 2 True, Run_start 2, Begin 2 True, Read_done 2 None [0, 8, 0, 0, 0, 6, 1, 4, 0, 0, 0, 1]] @
     [Resume 2, Resume 2, Network (Write_done 2 None 11), Resume 1, Network (Write_done 1 None 11)]"

abbreviation slow_start :: "unit tcp_server \<times> (session_ptr \<rightharpoonup> nat \<times> tcp_data_unit)" where
  "slow_start \<equiv> (new_tcp_server server_config_default (), Map.empty)"

lemma overlapping_run: "\<exists>s ks. await_run slow_handler_coroutine overlapping_clients slow_start = Some (s, ks)"
proof -
  have "await_run slow_handler_coroutine overlapping_clients slow_start \<noteq> None" by code_simp
  then show ?thesis by (simp add: split_paired_all)
qed

definition step_session :: "call_step \<Rightarrow> session_ptr" where
  "step_session st = (case st of Begin_call p _ \<Rightarrow> p | Continue_call p \<Rightarrow> p)"

lemma overlapping_calls:
  "map step_session (call_trace slow_handler_coroutine overlapping_clients slow_start) = [1, 2, 2, 1]"
  by code_simp

subsection \<open>Properties\<close>

text \<open>C5: calls of the handler overlap as coroutines, and every session is served in order. For a handler that may
  suspend anywhere, in every run of the server: the calls of all sessions are an interleaving of the
  handler's coroutines, where each step works on the state the step before it has left, whichever session's
  that was, a session has at most one call begun and not completed, and that call is for the request the
  session is handling. Each session handles its complete messages in the order in which they arrive, with at most one of them in work,
  and what it sends are beginnings of the handler's answers to them, in the same order, with at most one
  answer not sent yet; those are all the bytes on its socket.\<close>

theorem sessions_served_in_order:
  assumes "await_run co es (new_tcp_server config hs, Map.empty) = Some (s', ks')"
    and "tr = await_trace co es (new_tcp_server config hs, Map.empty)"
  shows "(\<exists>fs. run_all (calls_exec co) (call_trace co es (new_tcp_server config hs, Map.empty)) (Map.empty, hs, []) =
          Some (fs, sv_handler s', calls tr)
        \<and> (\<forall>q req k. fs q = Some (req, k) \<longrightarrow> phase_at s' q = handling req \<and> ks' q = Some k))
    \<and> length (messages p tr) \<le> length (requests p tr) + 1
    \<and> list_all2 begins (take (length (requests p tr)) (messages p tr)) (requests p tr)
    \<and> length (replies p tr) \<le> length (sents p tr) + 1
    \<and> list_all2 begins (sents p tr) (take (length (sents p tr)) (replies p tr))
    \<and> (\<forall>ts. sv_heap s' p = Some ts \<longrightarrow> ts_sent ts = concat (sents p tr))"
proof -
  let ?s = "new_tcp_server config hs" and ?rs = "map snd (calls tr)"
  let ?evs = "plain_events co es (?s, Map.empty)"
  have run: "server_run replay ?evs (new_tcp_server config ?rs) = Some (with_handler [] s')"
    and tr: "tr = server_trace replay ?evs (new_tcp_server config ?rs)"
    using await_simulated [OF assms(1), of "[]"] assms(2) by simp_all
  have "frames_of ?s Map.empty Map.empty" using inv_init by (simp add: frames_of_def)
  from calls_run [OF assms(1) this, of "[]"] obtain fs where
    "run_all (calls_exec co) (call_trace co es (?s, Map.empty)) (Map.empty, hs, []) = Some (fs, sv_handler s', calls tr)"
    "frames_of s' ks' fs"
    using assms(2) by (auto simp: new_tcp_server_def)
  moreover from this(2) have "\<forall>q req k. fs q = Some (req, k) \<longrightarrow> phase_at s' q = handling req \<and> ks' q = Some k"
    by (auto simp: frames_of_def)
  moreover have "\<forall>ts. sv_heap s' p = Some ts \<longrightarrow> ts_sent ts = concat (sents p tr)"
    using sent_run [OF run, of p, folded tr] by (auto simp: sent_at_def new_tcp_server_def)
  ultimately show ?thesis using requests_linearized [OF run tr, of p] by blast
qed

theorem sessions_served_in_order_witness:
  "map step_session (call_trace slow_handler_coroutine overlapping_clients slow_start) = [1, 2, 2, 1]
    \<and> (\<exists>fs. run_all (calls_exec slow_handler_coroutine)
          (call_trace slow_handler_coroutine overlapping_clients slow_start) (Map.empty, (), []) =
        Some (fs, (), calls (await_trace slow_handler_coroutine overlapping_clients slow_start)))
    \<and> list_all2 begins (sents 1 (await_trace slow_handler_coroutine overlapping_clients slow_start))
        (take (length (sents 1 (await_trace slow_handler_coroutine overlapping_clients slow_start)))
          (replies 1 (await_trace slow_handler_coroutine overlapping_clients slow_start)))"
proof -
  let ?tr = "await_trace slow_handler_coroutine overlapping_clients slow_start"
  obtain s ks where "await_run slow_handler_coroutine overlapping_clients slow_start = Some (s, ks)"
    using overlapping_run by blast
  note th = sessions_served_in_order [OF this refl, of 1]
  have unit: "sv_handler s = ()" by simp
  from th have "\<exists>fs. run_all (calls_exec slow_handler_coroutine)
      (call_trace slow_handler_coroutine overlapping_clients slow_start) (Map.empty, (), []) =
        Some (fs, (), calls ?tr)" unfolding unit by blast
  moreover from th have "list_all2 begins (sents 1 ?tr) (take (length (sents 1 ?tr)) (replies 1 ?tr))" by blast
  ultimately show ?thesis using overlapping_calls by (intro conjI)
qed


end
