(* ===== verification/Server_Log.thy ===== *)
theory Server_Log
  imports Server_Service
begin

text \<open>
  The log lines of the server: the calls of \<open>on_log_\<close> in server/tcp_session.cpp, server/tcp_server.cpp and
  server/tcp_session_manager.cpp, as what the steps of the server put out. The texts the platform provides (addresses
  and the messages of its error codes) are parameters.
\<close>

subsection \<open>The lines\<close>

record platform_texts =
  pt_peer :: "session_ptr \<Rightarrow> string"
  pt_listen :: string
  pt_port :: uint16
  pt_what :: string
  pt_message :: "net_code option \<Rightarrow> string"

text \<open>\<open>while (!stop_)\<close> and the line before the read.\<close>

definition loop_log :: "tcp_session \<Rightarrow> log_line list" where
  "loop_log ts = (if ts_stop ts then [] else [(log_trace, ''waiting for request'')])"

definition session_begin_log :: "bool \<Rightarrow> tcp_session \<Rightarrow> log_line list" where
  "session_begin_log connected ts = (if \<not> ts_open ts \<or> \<not> connected then [] else loop_log ts)"

definition session_read_log ::
  "platform_texts \<Rightarrow> session_ptr \<Rightarrow> net_code option \<Rightarrow> uint8 list \<Rightarrow> tcp_session \<Rightarrow> log_line list" where
  "session_read_log pt p read_err bs ts =
     (log_debug, ''read '' @ show_nat (length bs) @ '' bytes'') #
     (let ts = ts\<lparr>ts_buf := overwrite (ts_buf ts) 0 bs, ts_read_err := read_err\<rparr>
      in if read_err \<noteq> None \<and> read_err \<noteq> Some operation_aborted then
           (if read_err = Some eof then [(log_info, ''client '' @ pt_peer pt p @ '' disconnected'')]
            else [(log_error, ''unanticipated error from read '' @ pt_message pt read_err @ ''; client: '' @ pt_peer pt p)])
         else if read_err = Some operation_aborted then []
         else if length bs < TCP_HEADER_SIZE + MIN_PDU_SIZE then
           (log_error, ''malformed message from '' @ pt_peer pt p) # loop_log ts
         else case tcp_data_unit_of_buffer (ts_buf ts) (of_nat (length bs)) request of
             Inl _ \<Rightarrow> []
           | Inr _ \<Rightarrow> [(log_trace, ''processing request'')])"

definition session_handler_log :: "tcp_data_unit result \<Rightarrow> log_line list" where
  "session_handler_log r = (case r of Inl _ \<Rightarrow> [] | Inr _ \<Rightarrow> [(log_trace, ''created response'')])"

text \<open>The line about a failed write has the message of \<open>read_err\<close>.\<close>

definition session_write_log ::
  "platform_texts \<Rightarrow> session_ptr \<Rightarrow> net_code option \<Rightarrow> nat \<Rightarrow> tcp_session \<Rightarrow> log_line list" where
  "session_write_log pt p write_err n ts =
     (log_debug, ''wrote '' @ show_nat n @ '' bytes'') #
     (if write_err \<noteq> None \<and> write_err \<noteq> Some operation_aborted then
        [(log_error, ''unanticipated write error '' @ pt_message pt (ts_read_err ts) @ ''; client: '' @ pt_peer pt p)]
      else if ts_read_err ts = Some operation_aborted then []
      else loop_log ts)"

definition server_listen_log :: "platform_texts \<Rightarrow> bool \<Rightarrow> log_line list" where
  "server_listen_log pt ok =
     (let at = pt_listen pt @ '':'' @ show_nat (unat (pt_port pt))
      in [(log_debug, ''attempting to listen on '' @ at)]
         @ (if ok then [] else [(log_error, ''listening on '' @ at @ '' failed; '' @ pt_what pt)])
         @ [(log_info, ''listening on '' @ at)])"

definition server_accept_log :: "platform_texts \<Rightarrow> session_ptr \<Rightarrow> bool \<Rightarrow> log_line list" where
  "server_accept_log pt p connected =
     (if connected then [(log_info, ''connection from '' @ pt_peer pt p)] else [])"

definition server_accept_error_log :: "platform_texts \<Rightarrow> server_config \<Rightarrow> net_code \<Rightarrow> log_line list" where
  "server_accept_error_log pt config err =
     (if err = operation_aborted then []
      else [(log_error, ''error listening on interface '' @ sc_endpoint config @ '':'' @ show_nat (unat (sc_port config))
              @ '' '' @ pt_message pt (Some err))])"

definition manager_stop_all_log :: "log_line list" where
  "manager_stop_all_log = [(log_info, ''closing all connections'')]"

fun server_log :: "platform_texts \<Rightarrow> 'h request_handler_t \<Rightarrow> server_event \<Rightarrow> 'h tcp_server \<Rightarrow> log_line list" where
  "server_log pt handler (Listen ok) s = server_listen_log pt ok"
| "server_log pt handler (Accept p connected) s = server_accept_log pt p connected"
| "server_log pt handler (Accept_error err) s = server_accept_error_log pt (sv_config s) err"
| "server_log pt handler (Run_start p) s = []"
| "server_log pt handler (Begin p connected) s = (case sv_heap s p of
     Some ts \<Rightarrow> session_begin_log connected ts | None \<Rightarrow> [])"
| "server_log pt handler (Read_done p err bs) s = (case sv_heap s p of
     Some ts \<Rightarrow> session_read_log pt p err bs ts | None \<Rightarrow> [])"
| "server_log pt handler (Handler_done p) s = (case sv_heap s p of
     Some ts \<Rightarrow> (case ts_phase ts of
         handling req \<Rightarrow> session_handler_log (fst (handler req (sv_handler s))) | _ \<Rightarrow> [])
   | None \<Rightarrow> [])"
| "server_log pt handler (Write_done p err n) s = (case sv_heap s p of
     Some ts \<Rightarrow> session_write_log pt p err n ts | None \<Rightarrow> [])"
| "server_log pt handler Server_stop s = manager_stop_all_log"

text \<open>The log of a run, and what the configured handler makes of it.\<close>

definition server_run_log ::
  "platform_texts \<Rightarrow> 'h request_handler_t \<Rightarrow> server_event list \<Rightarrow> 'h tcp_server \<Rightarrow> log_line list" where
  "server_run_log pt handler = trace_of (server_exec handler) (server_log pt handler)"

definition log_output :: "logging_handler_t \<Rightarrow> log_line list \<Rightarrow> string" where
  "log_output f ls = concat (map (\<lambda>(level, msg). f level msg) ls)"

subsection \<open>The log accounts for the requests\<close>

abbreviation requests_logged :: "log_line list \<Rightarrow> nat" where
  "requests_logged ls \<equiv> count_list ls (log_trace, ''processing request'')"

abbreviation responses_logged :: "log_line list \<Rightarrow> nat" where
  "responses_logged ls \<equiv> count_list ls (log_trace, ''created response'')"

fun responses :: "observation list \<Rightarrow> tcp_data_unit list" where
  "responses [] = []"
| "responses (Called p req r # tr) = (case r of Inl _ \<Rightarrow> responses tr | Inr resp \<Rightarrow> resp # responses tr)"
| "responses (_ # tr) = responses tr"

lemma all_messages_append [simp]: "all_messages (tr @ tr') = all_messages tr @ all_messages tr'"
  by (induction tr rule: all_messages.induct) auto

lemma responses_append [simp]: "responses (tr @ tr') = responses tr @ responses tr'"
  by (induction tr rule: responses.induct) (auto split: sum.splits)

lemma quiet_logs [simp]:
  "requests_logged (loop_log ts) = 0" "responses_logged (loop_log ts) = 0"
  "requests_logged (server_listen_log pt ok) = 0" "responses_logged (server_listen_log pt ok) = 0"
  "requests_logged (server_accept_log pt p c) = 0" "responses_logged (server_accept_log pt p c) = 0"
  "requests_logged (server_accept_error_log pt cf e) = 0" "responses_logged (server_accept_error_log pt cf e) = 0"
  "requests_logged manager_stop_all_log = 0" "responses_logged manager_stop_all_log = 0"
  "requests_logged (session_begin_log c ts) = 0" "responses_logged (session_begin_log c ts) = 0"
  "requests_logged (session_write_log pt p err n ts) = 0" "responses_logged (session_write_log pt p err n ts) = 0"
  "responses_logged (session_read_log pt p err bs ts) = 0"
  by (auto simp: loop_log_def server_listen_log_def server_accept_log_def server_accept_error_log_def
      manager_stop_all_log_def session_begin_log_def session_write_log_def session_read_log_def Let_def
      split: sum.splits)

lemma step_logged:
  assumes "server_inv s" "server_exec handler ev s = Some s'"
  shows "requests_logged (server_log pt handler ev s) = length (all_messages (observe handler ev s))"
    and "responses_logged (server_log pt handler ev s) = length (responses (observe handler ev s))"
proof -
  show "requests_logged (server_log pt handler ev s) = length (all_messages (observe handler ev s))"
  proof (cases ev)
    case (Read_done p err bs)
    with assms(2) obtain ts where ts: "sv_heap s p = Some ts" "ts_phase ts = reading" "length bs \<le> length (ts_buf ts)"
      by (auto split: option.splits if_splits)
    have "length (ts_buf ts) = 256" using inv_session_ok [OF assms(1) ts(1)] ts(2) by (simp add: session_ok_def)
    with ts(3) have len: "length bs < 2 ^ 31" by simp
    show ?thesis
    proof (cases "10 \<le> length bs")
      case True
      from of_buffer_received [OF this ts(3) len, of request] True Read_done ts(1) show ?thesis
        by (auto simp: session_read_log_def Let_def hear_def)
    qed (use Read_done ts(1) in \<open>auto simp: session_read_log_def Let_def hear_def\<close>)
  qed (auto simp: session_handler_log_def split: option.splits session_phase.splits sum.splits)
  show "responses_logged (server_log pt handler ev s) = length (responses (observe handler ev s))"
    by (cases ev) (auto simp: session_handler_log_def split: option.splits session_phase.splits sum.splits)
qed

lemma run_logged:
  assumes "server_inv s" "server_run handler evs s = Some s'"
  shows "requests_logged (server_run_log pt handler evs s) = length (all_messages (server_trace handler evs s))
    \<and> responses_logged (server_run_log pt handler evs s) = length (responses (server_trace handler evs s))"
  using assms
proof (induction evs arbitrary: s)
  case (Cons ev evs)
  from Cons.prems(2) obtain s1 where s1: "server_exec handler ev s = Some s1" "server_run handler evs s1 = Some s'"
    by (auto split: option.splits)
  from Cons.IH [OF inv_exec [OF Cons.prems(1) s1(1)] s1(2)] step_logged [OF Cons.prems(1) s1(1), of pt] s1(1)
  show ?case by (simp add: server_run_log_def server_trace_def)
qed (simp add: server_run_log_def server_trace_def)

lemma two_clients_counts:
  "length (all_messages (server_trace echo_handler two_clients (new_tcp_server server_config_default ()))) = 3"
  "length (responses (server_trace echo_handler two_clients (new_tcp_server server_config_default ()))) = 2"
  by code_simp+

text \<open>The default handler writes nothing.\<close>

lemma null_handler_quiet: "log_output null_logging_handler ls = []"
  by (induction ls) (auto simp: log_output_def null_logging_handler_def)

subsection \<open>Properties\<close>

text \<open>C40: the log accounts for the requests. In every run of the server, there is one line \<open>processing request\<close> for
  each complete message that arrived and one line \<open>created response\<close> for each call of the handler that answered, and
  no other line can be taken for them.\<close>

theorem log_accounts_for_requests:
  assumes "server_run handler evs (new_tcp_server config hs) = Some s'"
  shows "count_list (server_run_log pt handler evs (new_tcp_server config hs)) (log_trace, ''processing request'') =
      length (all_messages (server_trace handler evs (new_tcp_server config hs)))
    \<and> count_list (server_run_log pt handler evs (new_tcp_server config hs)) (log_trace, ''created response'') =
      length (responses (server_trace handler evs (new_tcp_server config hs)))"
  by (rule run_logged [OF inv_init assms])

definition demo_texts :: platform_texts where
  "demo_texts = \<lparr>pt_peer = (\<lambda>p. ''192.168.0.'' @ show_nat p), pt_listen = ''0.0.0.0'', pt_port = 502,
     pt_what = ''bind: Address already in use'', pt_message = (\<lambda>e. if e = None then ''Success'' else ''Broken pipe'')\<rparr>"

theorem log_accounts_for_requests_witness:
  "count_list (server_run_log demo_texts echo_handler two_clients (new_tcp_server server_config_default ()))
      (log_trace, ''processing request'') = 3
    \<and> count_list (server_run_log demo_texts echo_handler two_clients (new_tcp_server server_config_default ()))
      (log_trace, ''created response'') = 2"
proof -
  obtain s where "server_run echo_handler two_clients (new_tcp_server server_config_default ()) = Some s"
    using two_clients_run ..
  from log_accounts_for_requests [OF this, of demo_texts] show ?thesis
    using two_clients_counts by simp
qed

text \<open>A write that fails is logged with the message of the read before it, which succeeded: the line is the same
  whatever the error.\<close>

lemma write_error_logged_as_success:
  assumes "reachable handler config hs s" "sv_heap s p = Some ts" "ts_phase ts = writing resp" "e \<noteq> operation_aborted"
  shows "server_log pt handler (Write_done p (Some e) n) s =
    [(log_debug, ''wrote '' @ show_nat n @ '' bytes''),
     (log_error, ''unanticipated write error '' @ pt_message pt None @ ''; client: '' @ pt_peer pt p)]"
proof -
  have "ts_read_err ts = None"
    using inv_session_ok [OF reachable_inv [OF assms(1)] assms(2)] assms(3) by (simp add: session_ok_def)
  with assms(2,4) show ?thesis by (simp add: session_write_log_def)
qed

text \<open>A server that failed to listen announces that it listens, after the line about the failure.\<close>

lemma failed_listen_announced:
  "last (server_log pt handler (Listen False) s) = last (server_log pt handler (Listen True) s)"
  by (simp add: server_listen_log_def Let_def)

end
