(* ===== verification/Client_Log.thy ===== *)
theory Client_Log
  imports Tcp_Client
begin

text \<open>
  The log lines of the client: the calls of \<open>on_log_\<close> in the two functions \<open>send_request\<close> of client/tcp_client.cpp,
  as what a request puts out besides its result (Tcp_Client). The lines of \<open>on_connection_state_change\<close> are modelled
  with that function. The numbers of connections of the pool and the messages of the connection library's errors
  are parameters.
\<close>

subsection \<open>The lines\<close>

record 'p client_texts =
  ct_size :: "'p \<Rightarrow> nat"
  ct_size_idle :: "'p \<Rightarrow> nat"
  ct_message :: "cpool_error \<Rightarrow> string"

definition show_int :: "int \<Rightarrow> string" where
  "show_int n = (if n < 0 then CHR ''-'' # show_nat (nat (- n)) else show_nat (nat n))"

definition getting_line :: "'p client_texts \<Rightarrow> 'p \<Rightarrow> log_line" where
  "getting_line ct pool = (log_trace, ''getting connection - connections '' @ show_nat (ct_size ct pool) @ '' - idle ''
     @ show_nat (ct_size_idle ct pool))"

definition timeout_line :: "int \<Rightarrow> log_line" where
  "timeout_line timeout = (log_trace, ''setting read timeout of '' @ show_int timeout @ ''ms'')"

definition sending_line :: "uint16 \<Rightarrow> log_line" where
  "sending_line tid = (log_debug, ''sending request with ID '' @ show_nat (unat tid))"

definition received_line :: "uint16 \<Rightarrow> log_line" where
  "received_line rid = (log_debug, ''received response with ID '' @ show_nat (unat rid))"

text \<open>\<open>send_request(connection, buf)\<close>.\<close>

definition send_buffer_log :: "'p client_texts \<Rightarrow> ('p, 'c) cpool_ops \<Rightarrow> buffer_t \<Rightarrow> 'c \<Rightarrow> log_line list" where
  "send_buffer_log ct ops buf c =
     (case async_write ops buf c of ((write_error, bytes_written), c) \<Rightarrow>
        if err_bool ops write_error then [(log_debug, ''write_error: '' @ ct_message ct write_error)] else [])"

text \<open>The loop over older responses, which logs every response it has read.\<close>

partial_function (option) response_loop_log ::
  "('p, 'c) cpool_ops \<Rightarrow> uint16 \<Rightarrow> 'c \<Rightarrow> log_line list option" where
  "response_loop_log ops tid c =
     (case read_response ops c of
        (Inl e, c) \<Rightarrow> Some []
      | (Inr (resp, error), c) \<Rightarrow>
          if err_bool ops error then Some []
          else case transaction_id resp of
              Inl e \<Rightarrow> Some []
            | Inr rid \<Rightarrow>
                if rid < tid
                then Option.bind (response_loop_log ops tid c) (\<lambda>ls. Some (received_line rid # ls))
                else Some [received_line rid])"

text \<open>\<open>send_request(request, timeout)\<close> after it has got its connection.\<close>

definition send_on_connection_log ::
  "'p client_texts \<Rightarrow> ('p, 'c) cpool_ops \<Rightarrow> tcp_data_unit \<Rightarrow> int \<Rightarrow> 'c \<Rightarrow> log_line list option" where
  "send_on_connection_log ct ops req timeout c =
     (case clear_buffer ops c of (error, c) \<Rightarrow>
        if err_bool ops error then Some []
        else
          let ls = (if timeout \<noteq> milliseconds_max then [timeout_line timeout] else []);
              c = (if timeout \<noteq> milliseconds_max then expires_after ops timeout c
                   else expires_never ops c)
          in case transaction_id req of
            Inl e \<Rightarrow> Some ls
          | Inr tid \<Rightarrow>
              let ls = ls @ sending_line tid # send_buffer_log ct ops (du_buffer req) c
              in case send_buffer ops (du_buffer req) c of (error, c) \<Rightarrow>
                 if err_bool ops error then Some ls
                 else map_option ((@) ls) (response_loop_log ops tid c))"

definition send_request_log ::
  "'p client_texts \<Rightarrow> ('p, 'c) cpool_ops \<Rightarrow> tcp_data_unit \<Rightarrow> int \<Rightarrow> 'p \<Rightarrow> log_line list option" where
  "send_request_log ct ops req timeout pool =
     map_option ((#) (getting_line ct pool))
       (case get_connection ops pool of
          (None, pool) \<Rightarrow> Some []
        | (Some c, pool) \<Rightarrow> send_on_connection_log ct ops req timeout c)"

subsection \<open>The log of a request\<close>

text \<open>The next responses on a connection, and where a request is after it has been sent.\<close>

fun reads :: "('p, 'c) cpool_ops \<Rightarrow> nat \<Rightarrow> 'c \<Rightarrow> (tcp_data_unit \<times> cpool_error) result list" where
  "reads ops 0 c = []"
| "reads ops (Suc n) c = (case read_response ops c of (r, c) \<Rightarrow> r # reads ops n c)"

definition after_send :: "('p, 'c) cpool_ops \<Rightarrow> tcp_data_unit \<Rightarrow> int \<Rightarrow> 'c \<Rightarrow> 'c" where
  "after_send ops req timeout c =
     (let c = snd (clear_buffer ops c);
          c = (if timeout \<noteq> milliseconds_max then expires_after ops timeout c else expires_never ops c)
      in snd (send_buffer ops (du_buffer req) c))"

definition response_line :: "tcp_data_unit \<Rightarrow> log_line" where
  "response_line du = received_line (case transaction_id du of Inl _ \<Rightarrow> 0 | Inr rid \<Rightarrow> rid)"

definition older :: "('p, 'c) cpool_ops \<Rightarrow> uint16 \<Rightarrow> tcp_data_unit \<times> cpool_error \<Rightarrow> bool" where
  "older ops tid x \<longleftrightarrow> \<not> err_bool ops (snd x)
     \<and> (case transaction_id (fst x) of Inl _ \<Rightarrow> False | Inr rid \<Rightarrow> rid < tid)"

definition returned_lines :: "('p, 'c) cpool_ops \<Rightarrow> (tcp_data_unit \<times> cpool_error) result \<Rightarrow> log_line list" where
  "returned_lines ops r = (case r of
     Inl _ \<Rightarrow> []
   | Inr (du, e) \<Rightarrow> if err_bool ops e then []
       else case transaction_id du of Inl _ \<Rightarrow> [] | Inr _ \<Rightarrow> [response_line du])"

text \<open>The loop reads responses one after the other, logs each of them, skips the older ones and ends with the first
  result that is not one.\<close>

definition loop_reads ::
  "('p, 'c) cpool_ops \<Rightarrow> uint16 \<Rightarrow> 'c \<Rightarrow> (tcp_data_unit \<times> cpool_error) result \<Rightarrow> (tcp_data_unit \<times> cpool_error) list \<Rightarrow> bool" where
  "loop_reads ops tid c r xs \<longleftrightarrow> reads ops (Suc (length xs)) c = map Inr xs @ [r] \<and> list_all (older ops tid) xs
     \<and> response_loop_log ops tid c = Some (map (response_line \<circ> fst) xs @ returned_lines ops r)"

lemma loop_reads_older:
  assumes "read_response ops c = (Inr x, c1)" "older ops tid x" "loop_reads ops tid c1 r xs"
  shows "loop_reads ops tid c r (x # xs)"
proof -
  obtain rid where x: "\<not> err_bool ops (snd x)" "transaction_id (fst x) = Inr rid" "rid < tid"
    using assms(2) by (auto simp: older_def split: sum.splits)
  then have "response_loop_log ops tid c =
      Option.bind (response_loop_log ops tid c1) (\<lambda>ls. Some (response_line (fst x) # ls))"
    by (subst response_loop_log.simps, cases x) (simp add: assms(1) response_line_def)
  with assms show ?thesis by (simp add: loop_reads_def)
qed

lemma loop_reads_last:
  assumes "read_response ops c = (r, c1)" "\<forall>x. r = Inr x \<longrightarrow> \<not> older ops tid x"
  shows "loop_reads ops tid c r []"
proof -
  have "response_loop_log ops tid c = Some (returned_lines ops r)"
    using assms(2) by (subst response_loop_log.simps)
      (auto simp: assms(1) returned_lines_def older_def response_line_def split: sum.splits)
  then show ?thesis by (simp add: loop_reads_def assms(1))
qed

lemma response_loop_reads:
  fixes ops :: "('p, 'c) cpool_ops"
  assumes "response_loop ops tid c = Some (Inr x, c')"
  shows "\<exists>xs. loop_reads ops tid c (Inr x) xs"
proof -
  let ?P = "\<lambda>(ops :: ('p, 'c) cpool_ops) tid (c :: 'c) (out :: (tcp_data_unit \<times> cpool_error) result \<times> 'c).
      \<forall>x. fst out = Inr x \<longrightarrow> (\<exists>xs. loop_reads ops tid c (Inr x) xs)"
  have "?P ops tid c (Inr x, c')"
  proof (rule response_loop.raw_induct [where P = ?P, OF _ assms(1)])
    fix loop and ops :: "('p, 'c) cpool_ops" and tid c out
    assume IH: "\<And>ops tid c out. loop ops tid c = Some out \<Longrightarrow> ?P ops tid c out"
      and step: "(case read_response ops c of
        (Inl e, c) \<Rightarrow> Some (Inl e, c)
      | (Inr (resp, error), c) \<Rightarrow>
          if err_bool ops error then Some (Inr (resp, error), c)
          else case transaction_id resp of
              Inl e \<Rightarrow> Some (Inl e, c)
            | Inr rid \<Rightarrow>
                if rid < tid then loop ops tid c else Some (Inr (resp, error), c)) = Some out"
    obtain r1 c1 where r1: "read_response ops c = (r1, c1)" by fastforce
    show "?P ops tid c out"
    proof (cases "\<exists>x. r1 = Inr x \<and> older ops tid x")
      case True
      then obtain x where x: "r1 = Inr x" "older ops tid x" by blast
      with step r1 have "loop ops tid c1 = Some out" by (cases x) (auto simp: older_def split: sum.splits)
      with IH loop_reads_older [OF _ x(2)] r1 x(1) show ?thesis by blast
    next
      case False
      with loop_reads_last [OF r1] have "loop_reads ops tid c r1 []" by blast
      moreover have "r1 = Inr x" if "fst out = Inr x" for x
      proof (cases r1)
        case (Inr y)
        with False step [unfolded r1] that show ?thesis by (cases y) (auto simp: older_def split: sum.splits if_splits)
      qed (use step r1 that in auto)
      ultimately show ?thesis by blast
    qed
  qed
  then show ?thesis by simp
qed

lemma send_buffer_quiet:
  assumes "send_buffer ops buf c = (e, c')" "\<not> err_bool ops e"
  shows "send_buffer_log ct ops buf c = []"
  using assms by (auto simp: send_buffer_def send_buffer_log_def split: prod.splits if_splits)

lemma send_on_connection_log_of:
  assumes "error_contract ops" "send_on_connection ops req timeout c = Some (Inr (du, e), c')"
    and "\<not> err_bool ops e" "transaction_id req = Inr tid"
  shows "\<exists>xs. reads ops (Suc (length xs)) (after_send ops req timeout c) = map Inr (xs @ [(du, e)])
    \<and> list_all (older ops tid) xs
    \<and> send_on_connection_log ct ops req timeout c = Some ((if timeout \<noteq> milliseconds_max then [timeout_line timeout] else [])
         @ sending_line tid # map (response_line \<circ> fst) (xs @ [(du, e)]))"
proof -
  obtain e0 c0 where c0: "clear_buffer ops c = (e0, c0)" by fastforce
  let ?c0 = "if timeout \<noteq> milliseconds_max then expires_after ops timeout c0 else expires_never ops c0"
  obtain e1 c1 where c1: "send_buffer ops (du_buffer req) ?c0 = (e1, c1)" by fastforce
  have e0: "\<not> err_bool ops e0" and e1: "\<not> err_bool ops e1"
    using assms c0 c1 by (auto simp: send_on_connection_def error_contract_simps Let_def split: if_splits)
  from assms(2,4) c0 c1 e0 e1 have
    "map_option (\<lambda>(r, c). (map_timeout ops r, c)) (response_loop ops tid c1) = Some (Inr (du, e), c')"
    by (simp add: send_on_connection_def Let_def)
  then have loop: "response_loop ops tid c1 = Some (Inr (du, e), c')"
    using map_timeout_success [OF assms(1) _ assms(3)] by auto
  obtain xs where xs: "loop_reads ops tid c1 (Inr (du, e)) xs" using response_loop_reads [OF loop] by blast
  have "returned_lines ops (Inr (du, e)) = [response_line du]"
    using response_loop_not_older [OF loop assms(3)] assms(3) by (auto simp: returned_lines_def)
  with xs have log: "response_loop_log ops tid c1 = Some (map (response_line \<circ> fst) (xs @ [(du, e)]))"
    by (simp add: loop_reads_def)
  have "send_buffer_log ct ops (du_buffer req) ?c0 = []" by (rule send_buffer_quiet [OF c1 e1])
  with log c0 c1 e0 e1 assms(4) have "send_on_connection_log ct ops req timeout c =
      Some ((if timeout \<noteq> milliseconds_max then [timeout_line timeout] else [])
         @ sending_line tid # map (response_line \<circ> fst) (xs @ [(du, e)]))"
    by (simp add: send_on_connection_log_def Let_def)
  moreover have "after_send ops req timeout c = c1" by (simp add: after_send_def c0 c1 Let_def)
  ultimately show ?thesis using xs by (auto simp: loop_reads_def)
qed

text \<open>C32: the log of a request that returns a response, whatever the peer sends. After the lines of the pool, of a
  timeout if there is one, and of the request with its transaction id, there is one line for each response read from
  the connection since the request was sent, in their order; all but the last of them are older than the request,
  and the last one is the response that is returned.\<close>

theorem client_log_accounts_for_responses:
  assumes "error_contract ops" "send_request ops req timeout pool = Some (Inr (du, e), pool')"
    and "\<not> err_bool ops e" "transaction_id req = Inr tid"
  shows "\<exists>c p xs. get_connection ops pool = (Some c, p)
    \<and> reads ops (Suc (length xs)) (after_send ops req timeout c) = map Inr (xs @ [(du, e)])
    \<and> list_all (older ops tid) xs \<and> \<not> older ops tid (du, e)
    \<and> send_request_log ct ops req timeout pool = Some (getting_line ct pool
         # (if timeout \<noteq> milliseconds_max then [timeout_line timeout] else [])
         @ sending_line tid # map (response_line \<circ> fst) (xs @ [(du, e)]))"
proof -
  from assms(1-3) obtain c c' p where c: "get_connection ops pool = (Some c, p)"
      "send_on_connection ops req timeout c = Some (Inr (du, e), c')"
    by (auto simp: send_request_def error_contract_simps split: prod.splits option.splits)
  have "\<not> older ops tid (du, e)"
    using send_on_connection_success [OF assms(1) c(2) assms(3,4)] response_loop_not_older assms(3)
    by (fastforce simp: older_def)
  with c send_on_connection_log_of [OF assms(1) c(2) assms(3,4), of ct] show ?thesis
    by (fastforce simp: send_request_log_def)
qed

theorem client_log_accounts_for_responses_witness:
  "\<exists>c p xs. get_connection sim_ops (Some ([], frame 5 [1, 0x83, 2] @ frame 6 [1, 3, 2, 0xAB, 0xCD])) = (Some c, p)
    \<and> list_all (older sim_ops 6) xs
    \<and> send_request_log \<lparr>ct_size = (\<lambda>_. 1), ct_size_idle = (\<lambda>_. 1), ct_message = (\<lambda>_. [])\<rparr> sim_ops
        \<lparr>m_buffer = frame 6 [1, 3], m_type = request\<rparr> 5 (Some ([], frame 5 [1, 0x83, 2] @ frame 6 [1, 3, 2, 0xAB, 0xCD])) =
      Some ((log_trace, ''getting connection - connections 1 - idle 1'')
         # [(log_trace, ''setting read timeout of 5ms'')]
         @ (log_debug, ''sending request with ID 6'')
         # map (response_line \<circ> fst) (xs @ [(padded_unit 6 [1, 3, 2, 0xAB, 0xCD], no_error)]))"
proof -
  let ?req = "\<lparr>m_buffer = frame 6 [1, 3], m_type = request\<rparr>"
  let ?answers = "frame 5 [1, 0x83, 2] @ frame 6 [1, 3, 2, 0xAB, 0xCD]"
  obtain c' where "response_loop sim_ops 6 (?answers, []) = Some (Inr (padded_unit 6 [1, 3, 2, 0xAB, 0xCD], no_error), c')"
    using response_loop_frames [OF sim_stream_contract sim_error_contract, of "[(5, [1, 0x83, 2])]" 6 6
        "[1, 3, 2, 0xAB, 0xCD]" "(?answers, [])" "[]"]
    by auto
  then have run: "send_request sim_ops ?req 5 (Some ([], ?answers)) =
      Some (Inr (padded_unit 6 [1, 3, 2, 0xAB, 0xCD], no_error), Some c')"
    by (cases c') (simp add: send_request_def send_on_connection_def clear_buffer_def send_buffer_def
        map_timeout_def Let_def sim_ops_fields frame_def)
  let ?ct = "\<lparr>ct_size = (\<lambda>_. 1), ct_size_idle = (\<lambda>_. 1), ct_message = (\<lambda>_. [])\<rparr> :: sim_connection option client_texts"
  have lines: "getting_line ?ct pool = (log_trace, ''getting connection - connections 1 - idle 1'')"
    "timeout_line 5 = (log_trace, ''setting read timeout of 5ms'')"
    "sending_line 6 = (log_debug, ''sending request with ID 6'')" "(5 \<noteq> milliseconds_max) = True" for pool
    by (simp_all add: getting_line_def timeout_line_def sending_line_def show_int_def show_nat.simps milliseconds_max_def
        char_of_def bit_0)
  have tid: "transaction_id ?req = Inr 6" by (simp add: frame_def)
  show ?thesis
    using client_log_accounts_for_responses [OF sim_error_contract run error_contract_simps(1) [OF sim_error_contract] tid,
        of ?ct]
    unfolding lines if_True by blast
qed

end
