(* ===== verification/Device_Access.thy ===== *)
theory Device_Access
  imports Device
begin

text \<open>
  A client program that uses the device through the library, as test/tcp_server_test.cpp does: \<open>perform\<close> gives a
  command by \<open>create_request\<close> and \<open>send_request\<close> (client/tcp_client.hpp, client/tcp_client.cpp) and takes the reply
  out of the response. Commands given over a link to the example server are the commands of the device.
\<close>

subsection \<open>The client program\<close>

text \<open>\<open>client.send_request(client.create_request(m))\<close>, and what the program makes of the response.\<close>

definition request_reply ::
  "('p, 'c) cpool_ops \<Rightarrow> int \<Rightarrow> ('m \<Rightarrow> nat) \<Rightarrow> ('m \<Rightarrow> buffer_iterator \<Rightarrow> buffer_iterator option) \<Rightarrow> message_type \<Rightarrow>
   'm \<Rightarrow> (tcp_data_unit \<Rightarrow> reply) \<Rightarrow> 'p tcp_client \<Rightarrow> (reply \<times> 'p tcp_client) option" where
  "request_reply ops timeout size_of serialize ty m decode cl =
     (case create_request size_of serialize ty m cl of
        (None, cl) \<Rightarrow> Some (Failed, cl)
      | (Some req, cl) \<Rightarrow>
          map_option (\<lambda>(r, cl). (case r of
              Inl _ \<Rightarrow> Failed
            | Inr (du, error) \<Rightarrow> if err_bool ops error then Failed else decode du, cl))
            (client_send_request ops req timeout cl))"

fun perform ::
  "('p, 'c) cpool_ops \<Rightarrow> int \<Rightarrow> uint8 \<Rightarrow> command \<Rightarrow> 'p tcp_client \<Rightarrow> (reply \<times> 'p tcp_client) option" where
  "perform ops timeout u (Read_coils a n) cl =
     request_reply ops timeout read_coils_request_size read_coils_request_serialize
       read_coils_request_type (new_read_coils_request u a n) (command_decode (Read_coils a n)) cl"
| "perform ops timeout u (Read_discrete_inputs a n) cl =
     request_reply ops timeout read_discrete_inputs_request_size read_discrete_inputs_request_serialize
       read_discrete_inputs_request_type (new_read_discrete_inputs_request u a n) (command_decode (Read_discrete_inputs a n)) cl"
| "perform ops timeout u (Read_holding_registers a n) cl =
     request_reply ops timeout read_holding_registers_request_size read_holding_registers_request_serialize
       read_holding_registers_request_type (new_read_holding_registers_request u a n) (command_decode (Read_holding_registers a n)) cl"
| "perform ops timeout u (Read_input_registers a n) cl =
     request_reply ops timeout read_input_registers_request_size read_input_registers_request_serialize
       read_input_registers_request_type (new_read_input_registers_request u a n) (command_decode (Read_input_registers a n)) cl"
| "perform ops timeout u (Switch_on a) cl =
     request_reply ops timeout write_single_coil_request_size write_single_coil_request_serialize
       write_single_coil_request_type (new_write_single_coil_request u a True) (command_decode (Switch_on a)) cl"
| "perform ops timeout u (Write_coils a bs) cl =
     (case new_write_multiple_coils_request_bools u a bs of
        None \<Rightarrow> Some (Failed, cl)
      | Some q \<Rightarrow>
          request_reply ops timeout write_multiple_coils_request_size write_multiple_coils_request_serialize
            write_multiple_coils_request_type q (command_decode (Write_coils a bs)) cl)"
| "perform ops timeout u (Write_register a v) cl =
     request_reply ops timeout write_single_register_request_size write_single_register_request_serialize
       write_single_register_request_type (new_write_single_register_request u a v) (command_decode (Write_register a v)) cl"
| "perform ops timeout u (Write_registers a ws) cl =
     request_reply ops timeout write_multiple_registers_request_size write_multiple_registers_request_serialize
       write_multiple_registers_request_type (new_write_multiple_registers_request u a (of_nat (length ws)) ws) (command_decode (Write_registers a ws)) cl"

fun perform_all ::
  "('p, 'c) cpool_ops \<Rightarrow> int \<Rightarrow> uint8 \<Rightarrow> command list \<Rightarrow> 'p tcp_client \<Rightarrow> (reply list \<times> 'p tcp_client) option" where
  "perform_all ops timeout u [] cl = Some ([], cl)"
| "perform_all ops timeout u (c # cs) cl =
     (case perform ops timeout u c cl of
        None \<Rightarrow> None
      | Some (r, cl) \<Rightarrow> map_option (\<lambda>(rs, cl). (r # rs, cl)) (perform_all ops timeout u cs cl))"

subsection \<open>A command over the link\<close>

definition connected :: "session_ptr \<Rightarrow> int \<Rightarrow> 'h \<Rightarrow> 'h link option tcp_client \<Rightarrow> bool" where
  "connected p timeout h cl = (case tc_con_pool cl of
     None \<Rightarrow> False
   | Some l \<Rightarrow> serving p (lk_server l) \<and> sv_handler (lk_server l) = h \<and> lk_late l = []
       \<and> (timeout = milliseconds_max \<or> lk_delay l \<le> timeout))"

context pdu_message
begin

lemma exchange_link:
  assumes "connected p timeout h cl" "4 \<le> length (encode m)" "length (encode m) \<le> 250"
    and "answers handler (frame (tc_transaction_id cl) (encode m)) h resp h'"
    and "du_buffer resp = frame (tc_transaction_id cl) ys" "ys \<noteq> []" "length ys \<le> 250"
  shows "\<exists>req cl1 cl'. create_request size_of serialize request m cl = (Some req, cl1)
    \<and> client_send_request (link_ops handler p) req timeout cl1 =
        Some (Inr (padded_unit (tc_transaction_id cl) ys, no_error), cl')
    \<and> connected p timeout h' cl'"
proof -
  let ?tid = "tc_transaction_id cl"
  let ?req = "\<lparr>m_buffer = frame ?tid (encode m), m_type = request\<rparr>" and ?cl = "cl\<lparr>tc_transaction_id := ?tid + 1\<rparr>"
  obtain l where l: "tc_con_pool cl = Some l" "serving p (lk_server l)" "sv_handler (lk_server l) = h" "lk_late l = []"
      "timeout = milliseconds_max \<or> lk_delay l \<le> timeout"
    using assms(1) by (auto simp: connected_def split: option.splits)
  let ?l = "l\<lparr>lk_server := session_turn handler p (frame ?tid (encode m)) (lk_server l), lk_received := [],
      lk_late := [], lk_timeout := None\<rparr>"
  have "create_request size_of serialize request m cl = (Some ?req, ?cl)"
    by (simp add: create_request_def reserve_transaction_id_def tcp_data_unit_of_pdu_image frame_def length_encode)
  moreover have pool: "tc_con_pool ?cl = Some l" and late: "lk_late l = concat (map (\<lambda>(t, zs). frame t zs) [])"
    using l by simp_all
  have ans: "answers handler (frame ?tid (encode m)) (sv_handler (lk_server l)) resp h'" using assms(4) l(3) by simp
  have "client_send_request (link_ops handler p) ?req timeout ?cl =
      Some (Inr (padded_unit ?tid ys, no_error), ?cl\<lparr>tc_con_pool := Some ?l\<rparr>)"
    by (rule link_answer [OF pool l(2) refl assms(2,3) ans assms(5-7) l(5) late]) simp
  moreover have "connected p timeout h' (?cl\<lparr>tc_con_pool := Some ?l\<rparr>)"
    using session_turn_answer(1,2) [OF l(2) assms(2,3) ans] l(5) by (simp add: connected_def)
  ultimately show ?thesis by blast
qed

lemma request_reply_link:
  assumes "connected p timeout h cl" "4 \<le> length (encode m)" "length (encode m) \<le> 250"
    and "answers handler (frame (tc_transaction_id cl) (encode m)) h resp h'"
    and "du_buffer resp = frame (tc_transaction_id cl) ys" "ys \<noteq> []" "length ys \<le> 250"
  shows "\<exists>cl'. request_reply (link_ops handler p) timeout size_of serialize request m decode cl =
      Some (decode (padded_unit (tc_transaction_id cl) ys), cl')
    \<and> connected p timeout h' cl'"
  using exchange_link [OF assms] error_contract_simps(1) [OF link_error_contract]
  by (fastforce simp: request_reply_def)

end

subsection \<open>The refinement\<close>

lemma perform_link:
  assumes "connected p timeout h cl" "4 \<le> length (command_pdu u c)" "length (command_pdu u c) \<le> 250"
    and "answers handler (frame (tc_transaction_id cl) (command_pdu u c)) h resp h'"
    and "du_buffer resp = frame (tc_transaction_id cl) ys" "ys \<noteq> []" "length ys \<le> 250"
  shows "\<exists>cl'. perform (link_ops handler p) timeout u c cl =
      Some (command_decode c (padded_unit (tc_transaction_id cl) ys), cl') \<and> connected p timeout h' cl'"
proof -
  note len = assms(2,3) and ans = assms(4-7)
  show ?thesis
  proof (cases c)
    case (Read_coils a n)
    show ?thesis unfolding Read_coils perform.simps request_types
      by (rule rcq.request_reply_link [OF assms(1)]) (use len ans in \<open>simp_all add: Read_coils\<close>)
  next
    case (Write_coils a bs)
    then obtain q where q: "new_write_multiple_coils_request_bools u a bs = Some q"
      using assms(2) by (auto split: option.splits)
    show ?thesis unfolding Write_coils perform.simps request_types q option.simps
      by (rule wcq.request_reply_link [OF assms(1)]) (use len ans q in \<open>simp_all add: Write_coils\<close>)
  next
    case (Read_discrete_inputs a n)
    show ?thesis unfolding Read_discrete_inputs perform.simps request_types
      by (rule rdq.request_reply_link [OF assms(1)]) (use len ans in \<open>simp_all add: Read_discrete_inputs\<close>)
  next
    case (Read_holding_registers a n)
    show ?thesis unfolding Read_holding_registers perform.simps request_types
      by (rule rhq.request_reply_link [OF assms(1)]) (use len ans in \<open>simp_all add: Read_holding_registers\<close>)
  next
    case (Read_input_registers a n)
    show ?thesis unfolding Read_input_registers perform.simps request_types
      by (rule riq.request_reply_link [OF assms(1)]) (use len ans in \<open>simp_all add: Read_input_registers\<close>)
  next
    case (Switch_on a)
    show ?thesis unfolding Switch_on perform.simps request_types
      by (rule scq.request_reply_link [OF assms(1)]) (use len ans in \<open>simp_all add: Switch_on\<close>)
  next
    case (Write_register a v)
    show ?thesis unfolding Write_register perform.simps request_types
      by (rule srq.request_reply_link [OF assms(1)]) (use len ans in \<open>simp_all add: Write_register\<close>)
  next
    case (Write_registers a ws)
    show ?thesis unfolding Write_registers perform.simps request_types
      by (rule wrq.request_reply_link [OF assms(1)]) (use len ans in \<open>simp_all add: Write_registers\<close>)
  qed
qed

text \<open>C1: the system is the device. A client program gives any sequence of commands through the client over a
  link to a session of the example server, with the answers in time: every command is performed, the replies
  are those of the device, refusals of addresses that are not accessible included, and the memories of the
  server are what the commands made of the device. This holds for any number of commands, also after the
  transaction ids have wrapped around.\<close>

theorem commands_refine_device:
  assumes "connected p timeout h cl" "handler_ok h" "list_all command_ok cs"
  shows "\<exists>rs cl' h'. perform_all (link_ops request_handler_call p) timeout u cs cl = Some (rs, cl')
    \<and> connected p timeout h' cl' \<and> validAddresses h' = validAddresses h
    \<and> device_run (validAddresses h) cs (device_of h) = (rs, device_of h')"
  using assms
proof (induction cs arbitrary: h cl)
  case (Cons c cs)
  then have c: "command_ok c" and h: "connected p timeout h cl" "handler_ok h" by simp_all
  obtain resp ys h1 where h1: "answers request_handler_call (frame (tc_transaction_id cl) (command_pdu u c)) h resp h1"
      "du_buffer resp = frame (tc_transaction_id cl) ys" "ys \<noteq> []" "length ys \<le> 250"
      "handler_ok h1" "validAddresses h1 = validAddresses h"
      "device_step (validAddresses h) c (device_of h) =
        (command_decode c (padded_unit (tc_transaction_id cl) ys), device_of h1)"
    using command_refines [OF h(2) c] unfolding refines_def by blast
  obtain cl1 where step: "perform (link_ops request_handler_call p) timeout u c cl =
      Some (command_decode c (padded_unit (tc_transaction_id cl) ys), cl1)" "connected p timeout h1 cl1"
    using perform_link [OF h(1) command_pdu_size [OF c] h1(1-4)] by blast
  from Cons.IH [OF step(2) h1(5)] Cons.prems(3) obtain rs cl' h' where
    "perform_all (link_ops request_handler_call p) timeout u cs cl1 = Some (rs, cl')" "connected p timeout h' cl'"
    "validAddresses h' = validAddresses h1" "device_run (validAddresses h1) cs (device_of h1) = (rs, device_of h')"
    by auto
  with step h1 show ?case by auto
qed auto

text \<open>A client connected to the example server, for concrete runs.\<close>

definition example_client :: "request_handler link option tcp_client" where
  "example_client = new_tcp_client (\<lambda>_. Some \<lparr>lk_server = exchange_server, lk_received = [], lk_late = [],
     lk_timeout = None, lk_delay = 0\<rparr>) client_config_default"

lemma example_client_connected: "0 \<le> timeout \<Longrightarrow> connected 1 timeout new_request_handler example_client"
  by (simp add: connected_def example_client_def new_tcp_client_def serving_def exchange_server_def
      new_tcp_session_def new_tcp_server_def)

theorem commands_refine_device_witness:
  "\<exists>rs cl'. perform_all (link_ops request_handler_call 1) 100 1
      [Write_register 1 0xABCD, Read_holding_registers 0 2, Read_coils 16 5, Switch_on 8, Read_coils 8 2] example_client =
        Some (rs, cl')
    \<and> rs = [Done, Words [0x0FF0, 0xABCD], Refused 2, Done, Bits [True, False]]"
proof -
  let ?cs = "[Write_register 1 0xABCD, Read_holding_registers 0 2, Read_coils 16 5, Switch_on 8, Read_coils 8 2]"
  have "list_all command_ok ?cs" by (simp add: exact_range_def)
  from commands_refine_device [OF example_client_connected new_handler_ok this, of 100 1] obtain rs cl' h' where
    "perform_all (link_ops request_handler_call 1) 100 1 ?cs example_client = Some (rs, cl')"
    "device_run (validAddresses new_request_handler) ?cs (device_of new_request_handler) = (rs, device_of h')"
    by auto
  moreover have "fst (device_run (validAddresses new_request_handler) ?cs (device_of new_request_handler)) =
      [Done, Words [0x0FF0, 0xABCD], Refused 2, Done, Bits [True, False]]"
    by code_simp
  ultimately show ?thesis by auto
qed

end
