(* ===== verification/Wire_Device.thy ===== *)
theory Wire_Device
  imports Device_Access
begin

text \<open>
  A MODBUS device as a client sees it through the network, for programs that talk to a device which is not part of
  the repository, as test/e2e_tcp_client_test.cpp does. The device is a parameter: its handler of requests, the
  coils, inputs and registers it shows, and the commands it carries out. The locale \<open>modbus_device\<close> states what the
  MODBUS protocol says of its answers, byte for byte. The example server of the repository is an instance, for the
  requests its helpers treat without an error. The locale \<open>networked_device\<close> is a device behind connections that are
  parameters as well; a \<open>modbus_device\<close> behind a session of the server, over the link, is an instance of it.
\<close>

subsection \<open>The interface\<close>

text \<open>Bit values packed from bit 0 on, with clear padding.\<close>

definition packs :: "bool list \<Rightarrow> buffer_t \<Rightarrow> bool" where
  "packs bs vs \<longleftrightarrow> length vs = (length bs + 7) div 8 \<and> (\<forall>k < 8 * length vs. get_bit vs k \<longleftrightarrow> k < length bs \<and> bs ! k)"

text \<open>The answer to a command that is carried out. The answer to a write of several registers may be the
  request itself, which begins as the response does: the example server sends it back.\<close>

fun reply_carried :: "uint8 \<Rightarrow> command \<Rightarrow> reply \<Rightarrow> uint8 list \<Rightarrow> bool" where
  "reply_carried u (Read_coils a n) (Bits bs) ys \<longleftrightarrow>
     (\<exists>vs. packs bs vs \<and> ys = read_coils_response_encode (new_read_coils_response u vs))"
| "reply_carried u (Read_discrete_inputs a n) (Bits bs) ys \<longleftrightarrow>
     (\<exists>vs. packs bs vs \<and> ys = read_discrete_inputs_response_encode (new_read_discrete_inputs_response u vs))"
| "reply_carried u (Read_holding_registers a n) (Words ws) ys \<longleftrightarrow>
     ys = read_holding_registers_response_encode (new_read_holding_registers_response u (enc_words ws))"
| "reply_carried u (Read_input_registers a n) (Words ws) ys \<longleftrightarrow>
     ys = read_input_registers_response_encode (new_read_input_registers_response u (enc_words ws))"
| "reply_carried u (Switch_on a) Done ys \<longleftrightarrow>
     ys = write_single_coil_response_encode (new_write_single_coil_response u a True)"
| "reply_carried u (Write_coils a bs) Done ys \<longleftrightarrow>
     ys = write_multiple_coils_response_encode (new_write_multiple_coils_response u a (of_nat (length bs)))"
| "reply_carried u (Write_register a v) Done ys \<longleftrightarrow>
     ys = write_single_register_response_encode (new_write_single_register_response u a v)"
| "reply_carried u (Write_registers a ws) Done ys \<longleftrightarrow>
     ys = write_multiple_registers_response_encode (new_write_multiple_registers_response u a (of_nat (length ws)))
     \<or> ys = command_pdu u (Write_registers a ws)"
| "reply_carried u _ _ ys \<longleftrightarrow> False"

text \<open>How long the answer to a command can be, unit id and PDU. The client takes answers of up to 250 bytes only,
  although the protocol allows 254, so the commands below are those whose answers are not longer.\<close>

fun answer_size :: "command \<Rightarrow> nat" where
  "answer_size (Read_coils a n) = 3 + (unat n + 7) div 8"
| "answer_size (Read_discrete_inputs a n) = 3 + (unat n + 7) div 8"
| "answer_size (Read_holding_registers a n) = 3 + 2 * unat n"
| "answer_size (Read_input_registers a n) = 3 + 2 * unat n"
| "answer_size (Write_registers a ws) = 7 + 2 * length ws"
| "answer_size _ = 6"

lemma carried_size: "reply_carried u c (fst (device_act c d)) ys \<Longrightarrow> length ys \<le> answer_size c"
  by (cases c) (auto simp: packs_def rcr_defs rdr_defs rhr_defs rir_defs scr_defs srr_defs wcr_defs wrr_defs wrq_defs
      new_read_coils_response_def new_read_discrete_inputs_response_def new_read_holding_registers_response_def
      new_read_input_registers_response_def new_write_multiple_registers_request_def)

text \<open>The handler answers the request of a command as the device does, whatever its transaction id.\<close>

definition answers_as ::
  "'h request_handler_t \<Rightarrow> ('h \<Rightarrow> device) \<Rightarrow> ('h \<Rightarrow> bool) \<Rightarrow> uint8 \<Rightarrow> command \<Rightarrow> 'h \<Rightarrow> uint16 \<Rightarrow> bool" where
  "answers_as handler view good u c h tid \<longleftrightarrow> (\<exists>ys ty h'.
     answers handler (frame tid (command_pdu u c)) h \<lparr>m_buffer = frame tid ys, m_type = ty\<rparr> h'
     \<and> reply_carried u c (fst (device_act c (view h))) ys
     \<and> good h' \<and> view h' = snd (device_act c (view h)))"

locale modbus_device =
  fixes handler :: "'h request_handler_t"
    and view :: "'h \<Rightarrow> device"
    and good :: "'h \<Rightarrow> bool"
    and unit_id :: uint8
    and allowed :: "command \<Rightarrow> bool"
  assumes fits: "allowed c \<Longrightarrow> 4 \<le> length (command_pdu unit_id c) \<and> length (command_pdu unit_id c) \<le> 250
      \<and> answer_size c \<le> 250"
    and conforms: "good h \<Longrightarrow> allowed c \<Longrightarrow> answers_as handler view good unit_id c h tid"
begin

lemma conforming_answer:
  assumes "good h" "allowed c"
  obtains ys ty h' where
    "answers handler (frame tid (command_pdu unit_id c)) h \<lparr>m_buffer = frame tid ys, m_type = ty\<rparr> h'"
    "reply_carried unit_id c (fst (device_act c (view h))) ys" "length ys \<le> 250"
    "good h'" "view h' = snd (device_act c (view h))"
  using conforms [OF assms, of tid] fits [OF assms(2)] carried_size order_trans unfolding answers_as_def by metis

end

subsection \<open>The example server\<close>

context client_function
begin

lemma read_answer:
  assumes "handler_ok h" "wf m"
    and "address m = a" "encode m ! 0 = u" "count m = int n" "exact_range (unat a) n"
    and "accessible (access_row h row) (unat a) n"
    and act: "\<And>bm. act tid u h m bm =
      from_row row h (copy bm) (\<lambda>bytes. tcp_data_unit_of_pdu r_size r_serialize response tid (mk bytes))"
    and "\<And>bm. create_request_bit_map (int (unat a)) (int n) = Inr bm \<Longrightarrow> copy bm (memory_row h row) = Inr bytes"
  shows "answers request_handler_call (frame tid (encode m)) h
    \<lparr>m_buffer = frame tid (r_encode (mk bytes)), m_type = response\<rparr> h"
proof (rule carried_out [OF assms(1,2)])
  fix bm assume "create_request_bit_map (uint (address m)) (int n) = Inr bm"
  then have "copy bm (memory_row h row) = Inr bytes" using assms(3,9) by simp
  then show "act tid (encode m ! 0) h m bm = Inr (\<lparr>m_buffer = frame tid (r_encode (mk bytes)), m_type = response\<rparr>, h)"
    using row_ends(2) [OF handler_okD(1) [OF assms(1) row], of "copy bm"] act assms(4) by (simp add: r.unit_image)
qed (use assms(3-7) in simp_all)

lemma write_answer:
  assumes "handler_ok h" "wf m"
    and "address m = a" "encode m ! 0 = u" "count m = int n" "exact_range (unat a) n"
    and "accessible (access_row h row) (unat a) n"
    and act: "\<And>bm. act tid u h m bm = on_row row h (change bm) (Some resp)"
    and "\<And>bm. create_request_bit_map (int (unat a)) (int n) = Inr bm \<Longrightarrow> change bm (memory_row h row) = Inr mem"
  shows "answers request_handler_call (frame tid (encode m)) h resp (h\<lparr>memorySpace := (memorySpace h)[row := mem]\<rparr>)"
proof (rule carried_out [OF assms(1,2)])
  fix bm assume "create_request_bit_map (uint (address m)) (int n) = Inr bm"
  then have "change bm (memory_row h row) = Inr mem" using assms(3,9) by simp
  then show "act tid (encode m ! 0) h m bm = Inr (resp, h\<lparr>memorySpace := (memorySpace h)[row := mem]\<rparr>)"
    using row_ends(1) [OF handler_okD(1) [OF assms(1) row], of "change bm"] act assms(4) by simp
qed (use assms(3-7) in simp_all)

end

definition example_ok :: "buffer_t list \<Rightarrow> request_handler \<Rightarrow> bool" where
  "example_ok valid h \<longleftrightarrow> handler_ok h \<and> validAddresses h = valid"

definition example_allowed :: "buffer_t list \<Rightarrow> command \<Rightarrow> bool" where
  "example_allowed valid c \<longleftrightarrow> command_ok c
     \<and> (case command_range c of (a, n) \<Rightarrow> accessible (valid ! command_row c) a n)"

lemma packed_row:
  assumes "handler_ok h" "row < 2" "exact_range (unat a) (unat n)"
    and "accessible (access_row h row) (unat a) (unat n)"
  shows "\<exists>bytes. (\<forall>bm. create_request_bit_map (int (unat a)) (int (unat n)) = Inr bm \<longrightarrow>
      copy_data_bits (memory_row h row) bm (uint a) (uint n) = Inr bytes)
    \<and> packs (map (get_bit (memory_row h row)) [unat a..<unat a + unat n]) bytes"
proof -
  obtain bytes where bytes:
    "\<And>bm. create_request_bit_map (int (unat a)) (int (unat n)) = Inr bm \<Longrightarrow>
      copy_data_bits (memory_row h row) bm (int (unat a)) (int (unat n)) = Inr bytes"
    "length bytes = (unat n - 1) div 8 + 1"
    "\<And>k. get_bit bytes k \<longleftrightarrow> k < unat n \<and> get_bit (memory_row h row) (unat a + k)"
    using load_bits_spec [of "unat n" "unat a" "memory_row h row"] bits_in_memory [OF assms(1,2,4)] assms(3)
    by (auto simp: exact_range_def res_bind_def split: sum.splits)
  have "0 < unat n" using assms(3) by (simp add: exact_range_def)
  then have len: "(unat n - 1) div 8 + 1 = (unat n + 7) div 8" by (cases "unat n") simp_all
  have "packs (map (get_bit (memory_row h row)) [unat a..<unat a + unat n]) bytes"
    unfolding packs_def using bytes(2,3) len by (simp cong: conj_cong)
  then show ?thesis using bytes(1) by (intro exI [of _ bytes]) simp
qed

lemma words_copied:
  assumes "handler_ok h" "row \<in> {2, 3}" "exact_range (unat a) (unat n)"
    and "accessible (access_row h row) (unat a) (unat n)"
  shows "copy_data_registers (memory_row h row) (uint a) (uint n) =
    Inr (enc_words (map (get_reg (memory_row h row)) [unat a..<unat a + unat n]))"
proof -
  have "2 * (unat a + unat n) \<le> length (memory_row h row)" "unat a < 2 ^ 30" "unat n < 2 ^ 30"
    using words_in_memory [OF assms(1,2) _ assms(4)] assms(3) by (simp_all add: exact_range_def)
  from copy_data_registers_nat [OF this] enc_regs [OF this(1)] show ?thesis by simp
qed

lemma answers_asI:
  assumes "answers handler (frame tid (command_pdu u c)) h \<lparr>m_buffer = frame tid ys, m_type = ty\<rparr> h'"
    and "reply_carried u c (fst (device_act c (view h))) ys" "good h'" "view h' = snd (device_act c (view h))"
  shows "answers_as handler view good u c h tid"
  using assms unfolding answers_as_def by blast

lemma example_answers_read_coils:
  assumes "handler_ok h" "example_allowed (validAddresses h) (Read_coils a n)"
  shows "answers_as request_handler_call device_of (example_ok (validAddresses h)) u (Read_coils a n) h tid"
proof -
  have c: "exact_range (unat a) (unat n)" "accessible (access_row h 0) (unat a) (unat n)"
    using assms(2) by (simp_all add: example_allowed_def)
  from packed_row [OF assms(1) _ c] obtain bytes where b:
      "\<And>bm. create_request_bit_map (int (unat a)) (int (unat n)) = Inr bm \<Longrightarrow>
        copy_data_bits (memory_row h 0) bm (uint a) (uint n) = Inr bytes"
      "packs (map (get_bit (memory_row h 0)) [unat a..<unat a + unat n]) bytes" by auto
  have "answers request_handler_call (frame tid (command_pdu u (Read_coils a n))) h
      \<lparr>m_buffer = frame tid (read_coils_response_encode (new_read_coils_response u bytes)), m_type = response\<rparr> h"
    unfolding command_pdu.simps
    by (rule rcq_client.read_answer [where copy = "\<lambda>bm data. copy_data_bits data bm (uint a) (uint n)", OF assms(1) _ _ _ _ c])
      (use b(1) in \<open>simp_all add: read_coils_act_def new_read_coils_request_def rcq_defs request_types\<close>)
  from answers_asI [where view = device_of and good = "example_ok (validAddresses h)", OF this] b(2) assms(1) show ?thesis
    by (auto simp: example_ok_def rcr_defs new_read_coils_response_def)
qed

lemma example_answers_read_discrete_inputs:
  assumes "handler_ok h" "example_allowed (validAddresses h) (Read_discrete_inputs a n)"
  shows "answers_as request_handler_call device_of (example_ok (validAddresses h)) u (Read_discrete_inputs a n) h tid"
proof -
  have c: "exact_range (unat a) (unat n)" "accessible (access_row h 1) (unat a) (unat n)"
    using assms(2) by (simp_all add: example_allowed_def)
  from packed_row [OF assms(1) _ c] obtain bytes where b:
      "\<And>bm. create_request_bit_map (int (unat a)) (int (unat n)) = Inr bm \<Longrightarrow>
        copy_data_bits (memory_row h 1) bm (uint a) (uint n) = Inr bytes"
      "packs (map (get_bit (memory_row h 1)) [unat a..<unat a + unat n]) bytes" by auto
  have "answers request_handler_call (frame tid (command_pdu u (Read_discrete_inputs a n))) h
      \<lparr>m_buffer = frame tid (read_discrete_inputs_response_encode (new_read_discrete_inputs_response u bytes)), m_type = response\<rparr> h"
    unfolding command_pdu.simps
    by (rule rdq_client.read_answer [where copy = "\<lambda>bm data. copy_data_bits data bm (uint a) (uint n)", OF assms(1) _ _ _ _ c])
      (use b(1) in \<open>simp_all add: read_discrete_inputs_act_def new_read_discrete_inputs_request_def rdq_defs request_types\<close>)
  from answers_asI [where view = device_of and good = "example_ok (validAddresses h)", OF this] b(2) assms(1) show ?thesis
    by (auto simp: example_ok_def rdr_defs new_read_discrete_inputs_response_def)
qed

lemma example_answers_read_holding_registers:
  assumes "handler_ok h" "example_allowed (validAddresses h) (Read_holding_registers a n)"
  shows "answers_as request_handler_call device_of (example_ok (validAddresses h)) u (Read_holding_registers a n) h tid"
proof -
  have c: "exact_range (unat a) (unat n)" "accessible (access_row h 2) (unat a) (unat n)"
    using assms(2) by (simp_all add: example_allowed_def)
  have "answers request_handler_call (frame tid (command_pdu u (Read_holding_registers a n))) h
      \<lparr>m_buffer = frame tid (read_holding_registers_response_encode (new_read_holding_registers_response u
        (enc_words (map (get_reg (memory_row h 2)) [unat a..<unat a + unat n])))), m_type = response\<rparr> h"
    unfolding command_pdu.simps
    by (rule rhq_client.read_answer [where copy = "\<lambda>bm data. copy_data_registers data (uint a) (uint n)", OF assms(1) _ _ _ _ c])
      (use words_copied [OF assms(1) _ c] in \<open>simp_all add: read_holding_registers_act_def new_read_holding_registers_request_def rhq_defs request_types\<close>)
  from answers_asI [where view = device_of and good = "example_ok (validAddresses h)", OF this] assms(1) show ?thesis
    by (auto simp: example_ok_def rhr_defs new_read_holding_registers_response_def)
qed

lemma example_answers_read_input_registers:
  assumes "handler_ok h" "example_allowed (validAddresses h) (Read_input_registers a n)"
  shows "answers_as request_handler_call device_of (example_ok (validAddresses h)) u (Read_input_registers a n) h tid"
proof -
  have c: "exact_range (unat a) (unat n)" "accessible (access_row h 3) (unat a) (unat n)"
    using assms(2) by (simp_all add: example_allowed_def)
  have "answers request_handler_call (frame tid (command_pdu u (Read_input_registers a n))) h
      \<lparr>m_buffer = frame tid (read_input_registers_response_encode (new_read_input_registers_response u
        (enc_words (map (get_reg (memory_row h 3)) [unat a..<unat a + unat n])))), m_type = response\<rparr> h"
    unfolding command_pdu.simps
    by (rule riq_client.read_answer [where copy = "\<lambda>bm data. copy_data_registers data (uint a) (uint n)", OF assms(1) _ _ _ _ c])
      (use words_copied [OF assms(1) _ c] in \<open>simp_all add: read_input_registers_act_def new_read_input_registers_request_def riq_defs request_types\<close>)
  from answers_asI [where view = device_of and good = "example_ok (validAddresses h)", OF this] assms(1) show ?thesis
    by (auto simp: example_ok_def rir_defs new_read_input_registers_response_def)
qed

lemma example_answers_switch_on:
  assumes "handler_ok h" "example_allowed (validAddresses h) (Switch_on a)"
  shows "answers_as request_handler_call device_of (example_ok (validAddresses h)) u (Switch_on a) h tid"
proof -
  have c: "exact_range (unat a) 1" "accessible (access_row h 0) (unat a) 1"
    using assms(2) by (simp_all add: example_allowed_def)
  from write_coil_row [OF assms(1) c(2)] obtain mem where mem: "write_coil (memory_row h 0) True (uint a) = Inr mem"
      "length mem = length (memory_row h 0)" "get_bit mem = overlay (unat a) [True] (get_bit (memory_row h 0))" by blast
  have "answers request_handler_call (frame tid (command_pdu u (Switch_on a))) h
      \<lparr>m_buffer = frame tid (write_single_coil_response_encode (new_write_single_coil_response u a True)), m_type = request\<rparr>
      (h\<lparr>memorySpace := (memorySpace h)[0 := mem]\<rparr>)"
    unfolding command_pdu.simps
    by (rule scq_client.write_answer [where change = "\<lambda>bm data. write_coil data True (uint a)", OF assms(1) _ _ _ _ c])
      (use mem(1) in \<open>simp_all add: write_single_coil_act_def new_write_single_coil_request_def
          new_write_single_coil_response_def scq.unit_image request_types scq_defs scr_defs\<close>)
  from answers_asI [where view = device_of and good = "example_ok (validAddresses h)", OF this] assms(1) mem(2,3) show ?thesis
    by (auto simp: example_ok_def handler_ok_update device_of_update scr_defs)
qed

lemma example_answers_write_register:
  assumes "handler_ok h" "example_allowed (validAddresses h) (Write_register a v)"
  shows "answers_as request_handler_call device_of (example_ok (validAddresses h)) u (Write_register a v) h tid"
proof -
  have c: "exact_range (unat a) 1" "accessible (access_row h 2) (unat a) 1"
    using assms(2) by (simp_all add: example_allowed_def)
  from write_word_row [OF assms(1) c(2,1)] obtain mem where mem: "write_register v (memory_row h 2) (uint a) = Inr mem"
      "length mem = length (memory_row h 2)" "get_reg mem = overlay (unat a) [v] (get_reg (memory_row h 2))" by blast
  have "answers request_handler_call (frame tid (command_pdu u (Write_register a v))) h
      \<lparr>m_buffer = frame tid (write_single_register_response_encode (new_write_single_register_response u a v)), m_type = request\<rparr>
      (h\<lparr>memorySpace := (memorySpace h)[2 := mem]\<rparr>)"
    unfolding command_pdu.simps
    by (rule srq_client.write_answer [where change = "\<lambda>bm data. write_register v data (uint a)", OF assms(1) _ _ _ _ c])
      (use mem(1) in \<open>simp_all add: write_single_register_act_def new_write_single_register_request_def
          new_write_single_register_response_def srq.unit_image request_types srq_defs srr_defs\<close>)
  from answers_asI [where view = device_of and good = "example_ok (validAddresses h)", OF this] assms(1) mem(2,3) show ?thesis
    by (auto simp: example_ok_def handler_ok_update device_of_update srr_defs)
qed

lemma example_answers_write_coils:
  assumes "handler_ok h" "example_allowed (validAddresses h) (Write_coils a bs)"
  shows "answers_as request_handler_call device_of (example_ok (validAddresses h)) u (Write_coils a bs) h tid"
proof -
  have c: "exact_range (unat a) (length bs)" "accessible (access_row h 0) (unat a) (length bs)"
      "command_ok (Write_coils a bs)" "length bs \<le> 1944"
    using assms(2) by (simp_all add: example_allowed_def)
  have n: "uint (of_nat (length bs) :: uint16) = int (length bs)"
    using c(1) by (simp add: exact_range_def unsigned_of_nat take_bit_nat_eq_self)
  obtain vs where vs: "new_write_multiple_coils_request_bools u a bs =
      Some (write_multiple_coils_request.make u a (of_nat (length bs)) vs)"
    "length vs = (length bs + 7) div 8" "\<And>k. get_bit vs k \<longleftrightarrow> k < length bs \<and> bs ! k"
    using new_bools_packs [of bs u a] c(3) by auto
  from write_coils_row [OF assms(1) c(2,3) vs(2,3)] obtain mem where mem:
      "\<And>bm. create_request_bit_map (int (unat a)) (int (length bs)) = Inr bm \<Longrightarrow>
        write_coils (memory_row h 0) bm vs (uint a) = Inr mem"
      "length mem = length (memory_row h 0)" "get_bit mem = overlay (unat a) bs (get_bit (memory_row h 0))" by blast
  have "answers request_handler_call (frame tid (command_pdu u (Write_coils a bs))) h
      \<lparr>m_buffer = frame tid (write_multiple_coils_response_encode (new_write_multiple_coils_response u a (of_nat (length bs)))),
        m_type = response\<rparr> (h\<lparr>memorySpace := (memorySpace h)[0 := mem]\<rparr>)"
    unfolding command_pdu.simps vs(1) option.simps
    by (rule wcq_client.write_answer [where change = "\<lambda>bm data. write_coils data bm vs (uint a)", OF assms(1) _ _ _ _ c(1,2)])
      (use mem(1) vs(2) c(4) n in \<open>simp_all add: write_multiple_coils_act_def wcr.unit_image request_types wcq_defs wcr_defs\<close>)
  from answers_asI [where view = device_of and good = "example_ok (validAddresses h)", OF this] assms(1) mem(2,3) show ?thesis
    by (auto simp: example_ok_def handler_ok_update device_of_update wcr_defs)
qed

lemma example_answers_write_registers:
  assumes "handler_ok h" "example_allowed (validAddresses h) (Write_registers a ws)"
  shows "answers_as request_handler_call device_of (example_ok (validAddresses h)) u (Write_registers a ws) h tid"
proof -
  have c: "exact_range (unat a) (length ws)" "accessible (access_row h 2) (unat a) (length ws)" "length ws \<le> 121"
    using assms(2) by (simp_all add: example_allowed_def)
  have n: "uint (of_nat (length ws) :: uint16) = int (length ws)"
    using c(1) by (simp add: exact_range_def unsigned_of_nat take_bit_nat_eq_self)
  from write_words_row [OF assms(1) c(2,1)] obtain mem where mem:
      "write_registers ws (memory_row h 2) (uint a) (int (length ws)) = Inr mem"
      "length mem = length (memory_row h 2)" "get_reg mem = overlay (unat a) ws (get_reg (memory_row h 2))" by blast
  let ?resp = "command_pdu u (Write_registers a ws)"
  have "answers request_handler_call (frame tid (command_pdu u (Write_registers a ws))) h
      \<lparr>m_buffer = frame tid ?resp, m_type = request\<rparr> (h\<lparr>memorySpace := (memorySpace h)[2 := mem]\<rparr>)"
    unfolding command_pdu.simps
    by (rule wrq_client.write_answer [where change = "\<lambda>bm data. write_registers ws data (uint a) (int (length ws))",
          OF assms(1) _ _ _ _ c(1,2)])
      (use mem(1) c(3) n in \<open>simp_all add: write_multiple_registers_act_def new_write_multiple_registers_request_def
          wrq.unit_image request_types wrq_defs\<close>)
  from answers_asI [where view = device_of and good = "example_ok (validAddresses h)", OF this] assms(1) mem(2,3) show ?thesis
    by (auto simp: example_ok_def handler_ok_update device_of_update wrr_defs)
qed

lemma command_answer_size: "command_ok c \<Longrightarrow> answer_size c \<le> 250"
proof -
  have "(n + 7) div 8 \<le> 247" if "n \<le> 1976" for n :: nat
    using div_le_mono [of "n + 7" 1983 8] that by simp
  then show "command_ok c \<Longrightarrow> answer_size c \<le> 250" by (cases c) simp_all
qed

text \<open>The example server is a device for the commands its helpers carry out, at the addresses its access maps allow.\<close>

lemma example_server_device:
  "modbus_device request_handler_call device_of (example_ok valid) u (example_allowed valid)"
proof
  show "4 \<le> length (command_pdu u c) \<and> length (command_pdu u c) \<le> 250 \<and> answer_size c \<le> 250" if "example_allowed valid c" for c
    using that command_pdu_size [of c u] command_answer_size by (simp add: example_allowed_def)
  show "answers_as request_handler_call device_of (example_ok valid) u c h tid"
    if "example_ok valid h" "example_allowed valid c" for h c tid
  proof -
    have h: "handler_ok h" "validAddresses h = valid" using that(1) by (simp_all add: example_ok_def)
    note a = that(2) [folded h(2)]
    show ?thesis
      using a by (cases c) (simp_all only: h(2) [symmetric] example_answers_read_coils [OF h(1)]
        example_answers_read_discrete_inputs [OF h(1)] example_answers_read_holding_registers [OF h(1)]
        example_answers_read_input_registers [OF h(1)] example_answers_switch_on [OF h(1)]
        example_answers_write_coils [OF h(1)] example_answers_write_register [OF h(1)]
        example_answers_write_registers [OF h(1)])
  qed
qed

interpretation example_device: modbus_device request_handler_call device_of "example_ok valid" u "example_allowed valid"
  for valid u
  by (rule example_server_device)

subsection \<open>Commands on any device\<close>

text \<open>What a client program makes of the answer is the reply the answer carries.\<close>

lemma decode_bits:
  assumes "fc \<in> {1, 2}" "packs (map f [unat a..<unat a + unat n]) vs" "length vs \<le> 247"
  shows "bits_reply fc a n vs = Bits (map f [unat a..<unat a + unat n])"
proof (cases "unat n = 0")
  case True
  then show ?thesis by (simp add: bits_reply_def view_values_def)
next
  case False
  have len: "length vs = (unat n + 7) div 8" using assms(2) by (simp add: packs_def)
  then have "0 < length vs" "unat n \<le> 8 * length vs" using False by simp_all
  moreover have "map (get_bit vs) [0..<unat n] = map f [unat a..<unat a + unat n]"
    using assms(2) \<open>unat n \<le> 8 * length vs\<close> by (intro nth_equalityI) (auto simp: packs_def)
  ultimately show ?thesis using bits_reply_ok [OF assms(1) _ assms(3), of n a] by simp
qed

lemma decode_words:
  assumes "fc \<in> {3, 4}" "length (enc_words ws) \<le> 247" "length ws = unat n"
  shows "words_reply fc a n (enc_words ws) = Words ws"
proof (cases "ws = []")
  case True
  with assms(3) show ?thesis by (simp add: words_reply_def view_values_def)
next
  case False
  then have "0 < length ws" by simp
  with assms show ?thesis by (intro words_reply_ok) simp_all
qed

lemma write_registers_begins:
  "command_pdu u (Write_registers a ws) =
     write_multiple_registers_response_encode (new_write_multiple_registers_response u a (of_nat (length ws)))
     @ of_nat (length ws * 2) # enc_words ws"
  by (simp add: wrq_defs wrr_defs new_write_multiple_registers_request_def new_write_multiple_registers_response_def)

lemma reply_carried_ne: "reply_carried u c r ys \<Longrightarrow> ys \<noteq> []"
  by (induction u c r ys rule: reply_carried.induct)
    (auto simp: write_registers_begins wrr.encode_ne [symmetric] simp del: command_pdu.simps(8))

lemma decode_carried:
  assumes "reply_carried u c (fst (device_act c d)) ys" "length ys \<le> 250"
  shows "command_decode c (padded_unit tid ys) = fst (device_act c d)"
proof (cases c)
  case (Read_coils a n)
  with assms(1) obtain vs where vs: "packs (map (dv_coils d) [unat a..<unat a + unat n]) vs"
    "ys = read_coils_response_encode (new_read_coils_response u vs)" by auto
  with assms(2) have "length vs \<le> 247" by (simp add: rcr_defs new_read_coils_response_def)
  with decode_bits [OF _ vs(1), of 1] rcr.decode_received [of "new_read_coils_response u vs" _ tid "[]"] show ?thesis
    by (simp add: Read_coils vs(2) request_types read_coils_response_function_code_def new_read_coils_response_def
        read_coils_response.defs)
next
  case (Read_discrete_inputs a n)
  with assms(1) obtain vs where vs: "packs (map (dv_inputs d) [unat a..<unat a + unat n]) vs"
    "ys = read_discrete_inputs_response_encode (new_read_discrete_inputs_response u vs)" by auto
  with assms(2) have "length vs \<le> 247" by (simp add: rdr_defs new_read_discrete_inputs_response_def)
  with decode_bits [OF _ vs(1), of 2] rdr.decode_received [of "new_read_discrete_inputs_response u vs" _ tid "[]"] show ?thesis
    by (simp add: Read_discrete_inputs vs(2) request_types read_discrete_inputs_response_function_code_def new_read_discrete_inputs_response_def
        read_discrete_inputs_response.defs)
next
  case (Read_holding_registers a n)
  let ?ws = "map (dv_holding d) [unat a..<unat a + unat n]"
  have ys: "ys = read_holding_registers_response_encode (new_read_holding_registers_response u (enc_words ?ws))"
    using assms(1) Read_holding_registers by simp
  with assms(2) have "length (enc_words ?ws) \<le> 247" by (simp add: rhr_defs new_read_holding_registers_response_def)
  with decode_words [of 3 ?ws n a] rhr.decode_received [of "new_read_holding_registers_response u (enc_words ?ws)" _ tid "[]"]
  show ?thesis
    by (simp add: Read_holding_registers ys request_types read_holding_registers_response_function_code_def new_read_holding_registers_response_def
        read_holding_registers_response.defs)
next
  case (Read_input_registers a n)
  let ?ws = "map (dv_input_registers d) [unat a..<unat a + unat n]"
  have ys: "ys = read_input_registers_response_encode (new_read_input_registers_response u (enc_words ?ws))"
    using assms(1) Read_input_registers by simp
  with assms(2) have "length (enc_words ?ws) \<le> 247" by (simp add: rir_defs new_read_input_registers_response_def)
  with decode_words [of 4 ?ws n a] rir.decode_received [of "new_read_input_registers_response u (enc_words ?ws)" _ tid "[]"]
  show ?thesis
    by (simp add: Read_input_registers ys request_types read_input_registers_response_function_code_def new_read_input_registers_response_def
        read_input_registers_response.defs)
qed (use assms(1) scr.decode_received [where xs = "[]"] srr.decode_received [where xs = "[]"] wcr.decode_received [where xs = "[]"]
    wrr.decode_received wrr.decode_received [where xs = "[]"] in
  \<open>auto simp: request_types write_registers_begins simp del: command_pdu.simps(8)\<close>)

fun device_acts :: "command list \<Rightarrow> device \<Rightarrow> reply list \<times> device" where
  "device_acts [] d = ([], d)"
| "device_acts (c # cs) d =
     (case device_act c d of (r, d) \<Rightarrow> case device_acts cs d of (rs, d) \<Rightarrow> (r # rs, d))"

subsection \<open>A device behind any connection\<close>

text \<open>What \<open>perform\<close> does on any connection: it sends the request with the next transaction id.\<close>

lemma perform_sends:
  assumes "command_pdu u c \<noteq> []"
  shows "perform ops timeout u c cl =
    map_option (\<lambda>(r, cl). (case r of
        Inl _ \<Rightarrow> Failed
      | Inr (du, error) \<Rightarrow> if err_bool ops error then Failed else command_decode c du, cl))
      (client_send_request ops \<lparr>m_buffer = frame (tc_transaction_id cl) (command_pdu u c), m_type = request\<rparr> timeout
        (cl\<lparr>tc_transaction_id := tc_transaction_id cl + 1\<rparr>))"
proof (cases c)
  case (Write_coils a bs)
  with assms obtain q where "new_write_multiple_coils_request_bools u a bs = Some q"
    by (auto split: option.splits)
  then show ?thesis
    unfolding Write_coils by (simp add: request_reply_def create_request_def reserve_transaction_id_def request_types wcq.unit_image
        del: command_decode.simps)
qed (hypsubst, simp add: request_reply_def create_request_def reserve_transaction_id_def request_types rcq.unit_image
  rdq.unit_image rhq.unit_image riq.unit_image scq.unit_image srq.unit_image wrq.unit_image del: command_decode.simps)+

text \<open>A device at the other end of the connections of a pool, whatever they are made of. A connection is \<open>ready\<close> when it is
  open and no answer is under way; then what was received has arrived. Writing the request of an allowed
  command to it, with the timer set for the call, makes the device carry the command out, and what is received, in
  time, is its answer with the transaction id of the request. Reads and the timer leave the device alone, and a pool gives back the
  connection that was released to it.\<close>

locale networked_device =
  fixes ops :: "('p, 'c) cpool_ops"
    and incoming :: "'c \<Rightarrow> uint8 list"
    and device_at :: "'c \<Rightarrow> device"
    and ready :: "'c \<Rightarrow> bool"
    and pool_has :: "'p \<Rightarrow> 'c \<Rightarrow> bool"
    and timeout :: int
    and unit_id :: uint8
    and allowed :: "command \<Rightarrow> bool"
  assumes stream: "stream_contract ops incoming"
    and errors: "error_contract ops"
    and answer_fits: "allowed cmd \<Longrightarrow> command_pdu unit_id cmd \<noteq> [] \<and> answer_size cmd \<le> 250"
    and taken: "pool_has pool c \<Longrightarrow> \<exists>pool1. get_connection ops pool = (Some c, pool1)
      \<and> (\<forall>c'. ready c' \<longrightarrow> pool_has (release_connection ops c' pool1) c')"
    and arrived: "ready c \<Longrightarrow> bytes_available ops c = (length (incoming c), no_error)"
    and read_keeps: "device_at (snd (async_read ops n c)) = device_at c" "ready (snd (async_read ops n c)) = ready c"
    and timer_keeps: "device_at (expires_never ops c) = device_at c" "ready c \<Longrightarrow> ready (expires_never ops c)"
    and answered: "ready c \<Longrightarrow> incoming c = [] \<Longrightarrow> allowed cmd \<Longrightarrow>
      \<exists>c1 ys. async_write ops (frame tid (command_pdu unit_id cmd))
          (if timeout \<noteq> milliseconds_max then expires_after ops timeout c else expires_never ops c) =
          ((no_error, length (frame tid (command_pdu unit_id cmd))), c1)
        \<and> ready c1 \<and> incoming c1 = frame tid ys
        \<and> reply_carried unit_id cmd (fst (device_act cmd (device_at c))) ys
        \<and> device_at c1 = snd (device_act cmd (device_at c))"
begin

lemma cleared:
  assumes "ready c"
  obtains c0 where "clear_buffer ops c = (client_error modbus_client_error_code.success, c0)"
    "incoming c0 = []" "ready c0" "device_at c0 = device_at c"
proof -
  obtain c0 where c0: "clear_buffer ops c = (client_error modbus_client_error_code.success, c0)" "incoming c0 = []"
    using clear_buffer_stream [OF stream errors arrived [OF assms], of "[]"] by auto
  have "c0 = c \<or> c0 = snd (async_read ops (length (incoming c)) c)"
    using c0(1) arrived [OF assms] by (auto simp: clear_buffer_def split: if_splits prod.splits)
  with c0 that assms show thesis by (metis read_keeps)
qed

lemma perform_network:
  assumes "pool_has (tc_con_pool cl) c" "ready c" "allowed cmd"
  shows "\<exists>cl' c'. perform ops timeout unit_id cmd cl = Some (fst (device_act cmd (device_at c)), cl')
    \<and> pool_has (tc_con_pool cl') c' \<and> ready c' \<and> device_at c' = snd (device_act cmd (device_at c))"
proof -
  let ?tid = "tc_transaction_id cl" and ?cl = "cl\<lparr>tc_transaction_id := tc_transaction_id cl + 1\<rparr>"
  let ?req = "\<lparr>m_buffer = frame ?tid (command_pdu unit_id cmd), m_type = request\<rparr>"
  obtain pool1 where pool1: "get_connection ops (tc_con_pool ?cl) = (Some c, pool1)"
      "\<And>c'. ready c' \<Longrightarrow> pool_has (release_connection ops c' pool1) c'"
    using taken [OF assms(1)] by auto
  obtain c0 where c0: "clear_buffer ops c = (client_error modbus_client_error_code.success, c0)"
      "incoming c0 = []" "ready c0" "device_at c0 = device_at c"
    using cleared [OF assms(2)] .
  obtain c1 ys where c1: "async_write ops (du_buffer ?req)
        (if timeout \<noteq> milliseconds_max then expires_after ops timeout c0 else expires_never ops c0) =
        ((no_error, length (du_buffer ?req)), c1)"
      "ready c1" "incoming c1 = frame ?tid ys" "reply_carried unit_id cmd (fst (device_act cmd (device_at c))) ys"
      "device_at c1 = snd (device_act cmd (device_at c))"
    using answered [OF c0(3,2) assms(3), of ?tid] c0(4) by (auto simp: du_buffer_def)
  have ys: "ys \<noteq> []" "length ys \<le> 250"
    using reply_carried_ne [OF c1(4)] carried_size [OF c1(4)] answer_fits [OF assms(3)] by simp_all
  have tid: "transaction_id ?req = Inr ?tid" by (simp add: frame_def)
  from send_request_frames [OF stream errors pool1(1) tid c0(1) c1(1), of "[]" ?tid ys "[]"] ys c1(3)
  obtain c2 where c2: "send_request ops ?req timeout (tc_con_pool ?cl) =
        Some (Inr (padded_unit ?tid ys, no_error), release_connection ops (expires_never ops c2) pool1)"
      "response_loop ops ?tid c1 = Some (Inr (padded_unit ?tid ys, no_error), c2)"
    by auto
  have "(device_at c2, ready c2) = (device_at c1, ready c1)"
    by (rule response_loop_keeps [OF c2(2)]) (simp add: read_keeps)
  with c1(2,5) have "ready (expires_never ops c2)"
      "device_at (expires_never ops c2) = snd (device_act cmd (device_at c))"
    by (simp_all add: timer_keeps)
  moreover have "perform ops timeout unit_id cmd cl = Some (fst (device_act cmd (device_at c)),
      ?cl\<lparr>tc_con_pool := release_connection ops (expires_never ops c2) pool1\<rparr>)"
    using answer_fits [OF assms(3)] c2(1) decode_carried [OF c1(4) ys(2)] errors
    by (simp add: perform_sends client_send_request_def error_contract_simps)
  ultimately show ?thesis
    using pool1(2) by (intro exI [of _ "?cl\<lparr>tc_con_pool := release_connection ops (expires_never ops c2) pool1\<rparr>"]
        exI [of _ "expires_never ops c2"]) simp
qed

lemma perform_all_network:
  assumes "pool_has (tc_con_pool cl) c" "ready c" "list_all allowed cs"
  shows "\<exists>cl' c'. perform_all ops timeout unit_id cs cl = Some (fst (device_acts cs (device_at c)), cl')
    \<and> pool_has (tc_con_pool cl') c' \<and> ready c' \<and> device_at c' = snd (device_acts cs (device_at c))"
  using assms
proof (induction cs arbitrary: c cl)
  case (Cons cmd cs)
  then obtain cl1 c1 where step: "perform ops timeout unit_id cmd cl = Some (fst (device_act cmd (device_at c)), cl1)"
      "pool_has (tc_con_pool cl1) c1" "ready c1" "device_at c1 = snd (device_act cmd (device_at c))"
    using perform_network [of cl c cmd] by auto
  with Cons.IH [OF step(2,3)] Cons.prems(3) show ?case by (auto split: prod.splits)
qed auto

end

text \<open>A device behind a session of the server, over the link, is one.\<close>

definition link_ready :: "('h \<Rightarrow> bool) \<Rightarrow> session_ptr \<Rightarrow> int \<Rightarrow> 'h link \<Rightarrow> bool" where
  "link_ready good p timeout l \<longleftrightarrow> serving p (lk_server l) \<and> good (sv_handler (lk_server l)) \<and> lk_late l = []
     \<and> (timeout = milliseconds_max \<or> lk_delay l \<le> timeout)"

lemma link_reads:
  "bytes_available (link_ops handler p) l = (length (lk_received l), no_error)"
  "lk_server (snd (async_read (link_ops handler p) n l)) = lk_server l"
  "lk_late (snd (async_read (link_ops handler p) n l)) = lk_late l"
  "lk_delay (snd (async_read (link_ops handler p) n l)) = lk_delay l"
  by (simp_all add: link_ops_def)

context modbus_device
begin

lemma link_write_answer:
  assumes "link_ready good p timeout l" "lk_received l = []" "allowed c"
  shows "\<exists>l1 ys. async_write (link_ops handler p) (frame tid (command_pdu unit_id c))
        (if timeout \<noteq> milliseconds_max then expires_after (link_ops handler p) timeout l else expires_never (link_ops handler p) l) =
        ((no_error, length (frame tid (command_pdu unit_id c))), l1)
      \<and> link_ready good p timeout l1 \<and> lk_received l1 = frame tid ys
      \<and> reply_carried unit_id c (fst (device_act c (view (sv_handler (lk_server l))))) ys
      \<and> view (sv_handler (lk_server l1)) = snd (device_act c (view (sv_handler (lk_server l))))"
proof -
  have l: "serving p (lk_server l)" "good (sv_handler (lk_server l))" "lk_late l = []"
      "timeout = milliseconds_max \<or> lk_delay l \<le> timeout"
    using assms(1) by (simp_all add: link_ready_def)
  obtain ys ty h' where h': "answers handler (frame tid (command_pdu unit_id c)) (sv_handler (lk_server l))
        \<lparr>m_buffer = frame tid ys, m_type = ty\<rparr> h'"
      "reply_carried unit_id c (fst (device_act c (view (sv_handler (lk_server l))))) ys" "length ys \<le> 250"
      "good h'" "view h' = snd (device_act c (view (sv_handler (lk_server l))))"
    using conforming_answer [OF l(2) assms(3)] .
  let ?l = "if timeout \<noteq> milliseconds_max then l\<lparr>lk_timeout := Some timeout\<rparr> else l\<lparr>lk_timeout := None\<rparr>"
  let ?s = "session_turn handler p (frame tid (command_pdu unit_id c)) (lk_server l)"
  have len: "4 \<le> length (command_pdu unit_id c)" "length (command_pdu unit_id c) \<le> 250"
    using fits [OF assms(3)] by simp_all
  note turn = session_turn_answer [OF l(1) len h'(1)]
  have "in_time ?l" using l(4) by (auto simp: in_time_def)
  then have "link_write handler p (frame tid (command_pdu unit_id c)) ?l =
      ?l\<lparr>lk_server := ?s, lk_received := frame tid ys, lk_late := []\<rparr>"
    using turn(3) assms(2) l(3) by (simp add: link_write_def Let_def du_buffer_def)
  then show ?thesis
    using turn(1,2) h'(2,4,5) l(4)
    by (intro exI [of _ "?l\<lparr>lk_server := ?s, lk_received := frame tid ys, lk_late := []\<rparr>"] exI [of _ ys])
      (auto simp: link_ready_def)
qed

lemma link_networked:
  "networked_device (link_ops handler p) lk_received (\<lambda>l. view (sv_handler (lk_server l)))
     (link_ready good p timeout) (\<lambda>pool l. pool = Some l) timeout unit_id allowed"
proof (unfold_locales, goal_cases)
  case (3 c)
  then show ?case using fits [of c] by auto
next
  case (10 c cmd tid)
  then show ?case using link_write_answer by blast
qed (auto simp: link_stream_contract link_error_contract link_ready_def link_reads)

end

interpretation example_net: networked_device "link_ops request_handler_call p" lk_received
    "\<lambda>l. device_of (sv_handler (lk_server l))" "link_ready (example_ok valid) p timeout" "\<lambda>pool l. pool = Some l"
    timeout u "example_allowed valid"
  for p valid timeout u
  by (rule example_device.link_networked)



end
