(* ===== verification/Server_Tests.thy ===== *)
theory Server_Tests
  imports Device_Access
begin

text \<open>
  The tests of test/tcp_server_test.cpp. A test is a function of the client that gives the values of its
  expectations, in their order, and the client it leaves; it is \<^const>\<open>None\<close> when a request never returns. An
  \<open>EXPECT\<close> on a value that cannot be computed, because a call throws or an optional is empty, is false and ends the
  test. Client and server are connected by a link; the pauses for the server to start, the log lines, the host and
  port from the environment and the stop at the end are left out.
\<close>

subsection \<open>Expectations\<close>

type_synonym 'p test = "'p tcp_client \<Rightarrow> (bool list \<times> 'p tcp_client) option"

text \<open>\<open>client.send_request(client.create_request(m), timeout)\<close>.\<close>

definition request_response ::
  "('p, 'c) cpool_ops \<Rightarrow> int \<Rightarrow> ('m \<Rightarrow> nat) \<Rightarrow> ('m \<Rightarrow> buffer_iterator \<Rightarrow> buffer_iterator option) \<Rightarrow> message_type \<Rightarrow>
   'm \<Rightarrow> (tcp_data_unit \<Rightarrow> (tcp_data_unit \<times> cpool_error) result \<Rightarrow> bool list) \<Rightarrow> 'p test" where
  "request_response ops timeout size_of serialize ty m expect cl =
     (case create_request size_of serialize ty m cl of
        (None, cl) \<Rightarrow> None
      | (Some req, cl) \<Rightarrow> map_option (apfst (expect req)) (client_send_request ops req timeout cl))"

fun in_turn :: "'p test list \<Rightarrow> 'p test" where
  "in_turn [] cl = Some ([], cl)"
| "in_turn (t # ts) cl = (case t cl of
     None \<Rightarrow> None | Some (es, cl) \<Rightarrow> map_option (apfst ((@) es)) (in_turn ts cl))"

definition passes :: "'p test \<Rightarrow> 'p tcp_client \<Rightarrow> bool" where
  "passes t cl = (case t cl of None \<Rightarrow> False | Some (es, _) \<Rightarrow> list_all id es)"

definition expect_answer ::
  "('p, 'c) cpool_ops \<Rightarrow> (tcp_data_unit \<times> cpool_error) result \<Rightarrow> bool \<Rightarrow> (tcp_data_unit \<Rightarrow> bool list) \<Rightarrow> bool list" where
  "expect_answer ops r exc f = (case r of
     Inl _ \<Rightarrow> [False]
   | Inr (resp, error) \<Rightarrow> (\<not> err_bool ops error) # (is_exception resp = Inr exc) # f resp)"

definition expect_pdu :: "'m option result \<Rightarrow> ('m \<Rightarrow> bool list) \<Rightarrow> bool list" where
  "expect_pdu r f = (case r of Inr (Some m) \<Rightarrow> True # f m | _ \<Rightarrow> [False])"

text \<open>The end of the tests with an illegal address, and the view the other ones make of the values.\<close>

definition expect_illegal_address ::
  "('p, 'c) cpool_ops \<Rightarrow> tcp_data_unit \<Rightarrow> (tcp_data_unit \<times> cpool_error) result \<Rightarrow> bool list" where
  "expect_illegal_address ops req r = expect_answer ops r True (\<lambda>resp.
     expect_pdu (pdu_exception exception_response_type exception_response_of_iterator resp) (\<lambda>m.
       [exception_response.exception_code m = exception_code_value illegal_data_address]))"

definition num_bytes :: "nat \<Rightarrow> nat" where
  "num_bytes num_coils = (let nBytes = num_coils div 8 in if num_coils mod 8 \<noteq> 0 then nBytes + 1 else nBytes)"

definition view_of :: "function_code_t \<Rightarrow> buffer_t \<Rightarrow> uint16 \<Rightarrow> modbus_response_t" where
  "view_of fc vs a = new_modbus_response (data_type fc) (Some vs) a (of_nat (length vs))"

definition expect_bits :: "modbus_response_t \<Rightarrow> bool list \<Rightarrow> bool list" where
  "expect_bits data bs = map (\<lambda>k. getBool (of_nat k) data = Inr (bs ! k)) [0..<length bs]"

subsection \<open>The tests of a served client\<close>

definition run_invalid_coil_tests :: "('p, 'c) cpool_ops \<Rightarrow> 'p test" where
  "run_invalid_coil_tests ops =
     request_response ops milliseconds_max read_coils_request_size read_coils_request_serialize
       read_coils_request_type (new_read_coils_request 1 16 5) (expect_illegal_address ops)"

definition expect_coils :: "modbus_response_t \<Rightarrow> bool list" where
  "expect_coils data =
     [buffer_length data = of_nat (num_bytes 11), getUINT16 0 normal data = Inr 0xA901]
     @ expect_bits data [True, False, False, True, False, True, False, True, True, False, False, False]"

definition run_coil_tests :: "('p, 'c) cpool_ops \<Rightarrow> 'p test" where
  "run_coil_tests ops = in_turn
     [request_response ops milliseconds_max write_single_coil_request_size write_single_coil_request_serialize
        write_single_coil_request_type (new_write_single_coil_request 1 8 True)
        (\<lambda>req r. expect_answer ops r False (\<lambda>resp. [])),
      request_response ops milliseconds_max read_coils_request_size read_coils_request_serialize
        read_coils_request_type (new_read_coils_request 1 8 11)
        (\<lambda>req r. expect_answer ops r False (\<lambda>resp.
           expect_pdu (pdu read_coils_response_function_code read_coils_response_type
             read_coils_response_of_iterator resp) (\<lambda>m.
             expect_coils (view_of read_coils_response_function_code (read_coils_response.vals m) 8))))]"

definition run_invalid_inputs_tests :: "('p, 'c) cpool_ops \<Rightarrow> 'p test" where
  "run_invalid_inputs_tests ops =
     request_response ops milliseconds_max read_discrete_inputs_request_size read_discrete_inputs_request_serialize
       read_discrete_inputs_request_type (new_read_discrete_inputs_request 1 16 5) (expect_illegal_address ops)"

definition expect_inputs :: "modbus_response_t \<Rightarrow> bool list" where
  "expect_inputs data =
     [buffer_length data = of_nat (num_bytes 11), getUINT16 0 normal data = Inr 0x9A06]
     @ expect_bits data [False, True, False, True, True, False, False, True, False, True, True, False]"

definition run_inputs_tests :: "('p, 'c) cpool_ops \<Rightarrow> 'p test" where
  "run_inputs_tests ops =
     request_response ops milliseconds_max read_discrete_inputs_request_size read_discrete_inputs_request_serialize
       read_discrete_inputs_request_type (new_read_discrete_inputs_request 1 8 11)
       (\<lambda>req r. expect_answer ops r False (\<lambda>resp.
          expect_pdu (pdu read_discrete_inputs_response_function_code read_discrete_inputs_response_type
            read_discrete_inputs_response_of_iterator resp) (\<lambda>m.
            expect_inputs (view_of read_discrete_inputs_response_function_code
              (read_discrete_inputs_response.inputs m) 8))))"

definition run_invalid_holding_reg_tests :: "('p, 'c) cpool_ops \<Rightarrow> 'p test" where
  "run_invalid_holding_reg_tests ops =
     request_response ops milliseconds_max read_holding_registers_request_size read_holding_registers_request_serialize
       read_holding_registers_request_type (new_read_holding_registers_request 1 0 4) (expect_illegal_address ops)"

text \<open>\<open>num_read_reg * 2\<close> bytes and two registers of the same value.\<close>

definition expect_registers :: "modbus_response_t \<Rightarrow> uint16 \<Rightarrow> bool list" where
  "expect_registers data v =
     [buffer_length data = 2 * 2, getUINT16 0 normal data = Inr v, getUINT16 1 normal data = Inr v]"

definition run_holding_reg_tests :: "('p, 'c) cpool_ops \<Rightarrow> 'p test" where
  "run_holding_reg_tests ops =
     request_response ops milliseconds_max read_holding_registers_request_size read_holding_registers_request_serialize
       read_holding_registers_request_type (new_read_holding_registers_request 1 0 2)
       (\<lambda>req r. expect_answer ops r False (\<lambda>resp.
          expect_pdu (pdu read_holding_registers_response_function_code read_holding_registers_response_type
            read_holding_registers_response_of_iterator resp) (\<lambda>m.
            expect_registers (view_of read_holding_registers_response_function_code
              (read_holding_registers_response.vals m) 0) 0x0FF0)))"

definition run_invalid_input_reg_tests :: "('p, 'c) cpool_ops \<Rightarrow> 'p test" where
  "run_invalid_input_reg_tests ops =
     request_response ops milliseconds_max read_input_registers_request_size read_input_registers_request_serialize
       read_input_registers_request_type (new_read_input_registers_request 1 0 4) (expect_illegal_address ops)"

definition run_input_reg_tests :: "('p, 'c) cpool_ops \<Rightarrow> 'p test" where
  "run_input_reg_tests ops =
     request_response ops milliseconds_max read_input_registers_request_size read_input_registers_request_serialize
       read_input_registers_request_type (new_read_input_registers_request 1 0 2)
       (\<lambda>req r. expect_answer ops r False (\<lambda>resp.
          expect_pdu (pdu read_input_registers_response_function_code read_input_registers_response_type
            read_input_registers_response_of_iterator resp) (\<lambda>m.
            expect_registers (view_of read_input_registers_response_function_code
              (read_input_registers_response.vals m) 0) 0xF00F)))"

definition run_server_test :: "('p, 'c) cpool_ops \<Rightarrow> 'p test" where
  "run_server_test ops = in_turn
     [run_invalid_coil_tests ops, run_coil_tests ops, run_invalid_inputs_tests ops, run_inputs_tests ops,
      run_invalid_holding_reg_tests ops, run_holding_reg_tests ops, run_invalid_input_reg_tests ops,
      run_input_reg_tests ops]"

subsection \<open>The test of a slow server\<close>

definition SERVER_WAIT :: int where
  "SERVER_WAIT = 500"

definition run_slow_server_test :: "('p, 'c) cpool_ops \<Rightarrow> 'p test" where
  "run_slow_server_test ops = in_turn
     [request_response ops (SERVER_WAIT - 100) read_input_registers_request_size read_input_registers_request_serialize
        read_input_registers_request_type (new_read_input_registers_request 1 0 2)
        (\<lambda>req r. case r of
            Inl _ \<Rightarrow> [False]
          | Inr (resp, error) \<Rightarrow>
              [err_bool ops error, error = client_error read_timeout, du_type resp = invalid_pdu_type]),
      request_response ops milliseconds_max read_holding_registers_request_size read_holding_registers_request_serialize
        read_holding_registers_request_type (new_read_holding_registers_request 1 0 2)
        (\<lambda>req r. case r of
            Inl _ \<Rightarrow> [False]
          | Inr (resp, error) \<Rightarrow>
              (\<not> err_bool ops error) # (transaction_id req = transaction_id resp)
              # expect_pdu (pdu read_holding_registers_response_function_code read_holding_registers_response_type
                  read_holding_registers_response_of_iterator resp) (\<lambda>m.
                  expect_registers (view_of read_holding_registers_response_function_code
                    (read_holding_registers_response.vals m) 0) 0x0FF0))]"

subsection \<open>server_test and slow_server_test\<close>

text \<open>The server has accepted the client's connection and waits for its request; the handler takes \<open>delay\<close>
  milliseconds.\<close>

definition test_client :: "'h request_handler_t \<Rightarrow> 'h \<Rightarrow> int \<Rightarrow> uint16 \<Rightarrow> 'h link option tcp_client" where
  "test_client handler hs delay port =
     new_tcp_client (\<lambda>_. Some
       \<lparr>lk_server = follow handler [Listen True, Accept 1 True, Run_start 1, Begin 1 True]
          (new_tcp_server (server_set_logging_handler print_logging_handler (new_server_config ''0.0.0.0'' port)) hs),
        lk_received = [], lk_late = [], lk_timeout = None, lk_delay = delay\<rparr>)
       (set_logging_handler print_logging_handler (new_client_config ''127.0.0.1'' port))"

definition server_test :: bool where
  "server_test = passes (run_server_test (link_ops request_handler_call 1))
     (test_client request_handler_call new_request_handler 0 5030)"

definition slow_server_test :: bool where
  "slow_server_test = passes (run_slow_server_test (link_ops slow_handler 1)) (test_client slow_handler () SERVER_WAIT 5040)"

subsection \<open>A logic of tests\<close>

text \<open>On every client that is connected to a session of a server with the handler state \<open>h\<close>, the test passes and
  leaves the handler state \<open>h'\<close>.\<close>

definition test_ok :: "session_ptr \<Rightarrow> 'h \<Rightarrow> 'h link option test \<Rightarrow> 'h \<Rightarrow> bool" where
  "test_ok p h t h' \<longleftrightarrow> (\<forall>cl. connected p milliseconds_max h cl \<longrightarrow>
     (\<exists>es cl'. t cl = Some (es, cl') \<and> list_all id es \<and> connected p milliseconds_max h' cl'))"

lemma test_ok_passes: "test_ok p h t h' \<Longrightarrow> connected p milliseconds_max h cl \<Longrightarrow> passes t cl"
  by (fastforce simp: test_ok_def passes_def)

lemma test_ok_nil: "test_ok p h (in_turn []) h"
  by (simp add: test_ok_def)

lemma test_ok_seq:
  assumes "test_ok p h t h1" "test_ok p h1 (in_turn ts) h'"
  shows "test_ok p h (in_turn (t # ts)) h'"
  unfolding test_ok_def
proof (intro allI impI)
  fix cl assume "connected p milliseconds_max h cl"
  with assms(1) obtain es cl1 where t: "t cl = Some (es, cl1)" "list_all id es"
      "connected p milliseconds_max h1 cl1"
    unfolding test_ok_def by blast
  with assms(2) obtain es' cl' where "in_turn ts cl1 = Some (es', cl')" "list_all id es'"
      "connected p milliseconds_max h' cl'"
    unfolding test_ok_def by blast
  with t show "\<exists>es cl'. in_turn (t # ts) cl = Some (es, cl') \<and> list_all id es
      \<and> connected p milliseconds_max h' cl'" by simp
qed

context pdu_message
begin

lemma response_passes:
  assumes "connected p milliseconds_max h cl" "4 \<le> length (encode m)" "length (encode m) \<le> 250"
    and "answers handler (frame (tc_transaction_id cl) (encode m)) h
      \<lparr>m_buffer = frame (tc_transaction_id cl) ys, m_type = ty\<rparr> h'" "ys \<noteq> []" "length ys \<le> 250"
    and "\<And>req. list_all id (expect req (Inr (padded_unit (tc_transaction_id cl) ys, no_error)))"
  shows "\<exists>es cl'. request_response (link_ops handler p) milliseconds_max size_of serialize request m expect cl =
      Some (es, cl') \<and> list_all id es \<and> connected p milliseconds_max h' cl'"
proof -
  from exchange_link [OF assms(1-4) _ assms(5,6)] obtain req cl1 cl' where
    "create_request size_of serialize request m cl = (Some req, cl1)"
    "client_send_request (link_ops handler p) req milliseconds_max cl1 =
       Some (Inr (padded_unit (tc_transaction_id cl) ys, no_error), cl')" "connected p milliseconds_max h' cl'"
    by (auto simp: du_buffer_def)
  with assms(7) show ?thesis by (auto simp: request_response_def)
qed

lemma test_ok_request:
  assumes "4 \<le> length (encode m)" "length (encode m) \<le> 250" "ys \<noteq> []" "length ys \<le> 250"
    and "\<And>tid. answers handler (frame tid (encode m)) h \<lparr>m_buffer = frame tid ys, m_type = ty\<rparr> h'"
    and "\<And>tid req. list_all id (expect req (Inr (padded_unit tid ys, no_error)))"
  shows "test_ok p h (request_response (link_ops handler p) milliseconds_max size_of serialize request m expect) h'"
  using response_passes [where expect = expect, OF _ assms(1,2,5,3,4,6)] unfolding test_ok_def by blast

end

lemma expect_illegal_ok:
  assumes "bit fc 7"
  shows "expect_illegal_address (link_ops handler p) req (Inr (padded_unit tid [u, fc, 2], no_error)) =
    [True, True, True, True]"
  using assms error_contract_simps(1) [OF link_error_contract]
  by (simp add: expect_illegal_address_def expect_answer_def expect_pdu_def padded_unit_def frame_def pdu_exception_def
      res_bind_def exception_response_type_def exr_defs wire_simps nth_append ub_def catch_all_def)

context pdu_message
begin

lemma expect_received:
  assumes "wf m"
  shows "expect_answer (link_ops handler p) (Inr (padded_unit tid (encode m @ xs), no_error)) False
      (\<lambda>resp. expect_pdu (pdu fcode response of_iterator resp) f) = True # True # True # f m"
    and "expect_answer (link_ops handler p) (Inr (padded_unit tid (encode m @ xs), no_error)) False (\<lambda>resp. []) =
      [True, True]"
  using pdu_received [OF assms, of response tid _ "xs @ _"] received_not_exception(1) [of tid _ m "xs @ _" response]
    error_contract_simps(1) [OF link_error_contract]
  by (simp_all add: expect_answer_def expect_pdu_def padded_unit_def frame_def)

end

context server_function
begin

lemma test_ok_refused:
  assumes "handler_ok h" "wf m" "exact_range (unat (address m)) n" "count m = int n"
    and "\<not> accessible (access_row h row) (unat (address m)) n"
    and "4 \<le> length (encode m)" "length (encode m) \<le> 250"
  shows "test_ok p h (request_response (link_ops request_handler_call p) milliseconds_max size_of serialize request m
    (expect_illegal_address (link_ops request_handler_call p))) h"
  by (rule test_ok_request [OF assms(6,7) _ _ refused [OF assms(1-5)]]) (simp_all add: expect_illegal_ok bit_or_0x80)

lemma test_ok_carried_out:
  assumes "handler_ok h" "wf m" "exact_range (unat (address m)) n" "count m = int n"
    and "accessible (access_row h row) (unat (address m)) n"
    and "4 \<le> length (encode m)" "length (encode m) \<le> 250"
    and "create_request_bit_map (uint (address m)) (int n) = Inr bm"
    and "\<And>tid. act tid (encode m ! 0) h m bm = Inr (\<lparr>m_buffer = frame tid ys, m_type = ty\<rparr>, h')"
    and "ys \<noteq> []" "length ys \<le> 250"
    and "\<And>tid req. list_all id (expect req (Inr (padded_unit tid ys, no_error)))"
  shows "test_ok p h (request_response (link_ops request_handler_call p) milliseconds_max size_of serialize request m
    expect) h'"
  by (rule test_ok_request [where expect = expect, OF assms(6,7,10,11) _ assms(12)])
    (rule carried_out [OF assms(1-5)], use assms(8,9) in simp)

end

context client_function
begin

lemma test_ok_read:
  assumes "handler_ok h" "wf m" "exact_range (unat (address m)) n" "count m = int n"
    and "accessible (access_row h row) (unat (address m)) n"
    and "4 \<le> length (encode m)" "length (encode m) \<le> 250"
    and "create_request_bit_map (uint (address m)) (int n) = Inr bm"
    and "\<And>tid. act tid (encode m ! 0) h m bm =
      from_row row h copy (\<lambda>bytes. tcp_data_unit_of_pdu r_size r_serialize response tid (mk bytes))"
    and "copy (memory_row h row) = Inr bytes" "r_wf (mk bytes)" "r_size (mk bytes) \<le> 250" "list_all id (f (mk bytes))"
  shows "test_ok p h (request_response (link_ops request_handler_call p) milliseconds_max size_of serialize request m
    (\<lambda>req r. expect_answer (link_ops request_handler_call p) r False
      (\<lambda>resp. expect_pdu (pdu fcode response r_of_iterator resp) f))) h"
proof (rule test_ok_carried_out [OF assms(1-8), where ty = response])
  show "act tid (encode m ! 0) h m bm = Inr (\<lparr>m_buffer = frame tid (r_encode (mk bytes)), m_type = response\<rparr>, h)" for tid
    using row_ends(2) [OF handler_okD(1) [OF assms(1) row], of copy bytes] assms(9,10) r.unit_image by simp
qed (use assms(12,13) in \<open>simp_all add: r.length_encode r.expect_received(1) [OF assms(11), where xs = "[]", simplified]\<close>)

end

lemma test_access:
  "\<not> accessible (access_row new_request_handler 0) 16 5" "\<not> accessible (access_row new_request_handler 1) 16 5"
  "\<not> accessible (access_row new_request_handler 2) 0 4" "\<not> accessible (access_row new_request_handler 3) 0 4"
  "accessible (access_row new_request_handler 0) 8 1"
  "accessible (access_row new_request_handler 0) 8 11" "accessible (access_row new_request_handler 1) 8 11"
  "accessible (access_row new_request_handler 2) 0 2" "accessible (access_row new_request_handler 3) 0 2"
  by code_simp+

lemma test_bitmaps:
  "create_request_bit_map 8 1 = Inr [1]" "create_request_bit_map 8 11 = Inr [0xFF, 7]"
  "create_request_bit_map 0 2 = Inr [3]"
  by code_simp+

lemma test_rows:
  "write_coil (memory_row new_request_handler 0) True 8 = Inr (memory_row new_request_handler 0)"
  "copy_data_bits (memory_row new_request_handler 0) [0xFF, 7] 8 11 = Inr [0xA9, 1]"
  "copy_data_bits (memory_row new_request_handler 1) [0xFF, 7] 8 11 = Inr [0x9A, 6]"
  "copy_data_registers (memory_row new_request_handler 2) 0 2 = Inr [0x0F, 0xF0, 0x0F, 0xF0]"
  "copy_data_registers (memory_row new_request_handler 3) 0 2 = Inr [0xF0, 0x0F, 0xF0, 0x0F]"
  by code_simp+

lemma invalid_coil_ok:
  "test_ok p new_request_handler (run_invalid_coil_tests (link_ops request_handler_call p)) new_request_handler"
  unfolding run_invalid_coil_tests_def request_types
  by (rule rcq_served.test_ok_refused [OF new_handler_ok, of _ 5])
    (simp_all add: rcq_defs new_read_coils_request_def exact_range_def test_access)

lemma invalid_inputs_ok:
  "test_ok p new_request_handler (run_invalid_inputs_tests (link_ops request_handler_call p)) new_request_handler"
  unfolding run_invalid_inputs_tests_def request_types
  by (rule rdq_served.test_ok_refused [OF new_handler_ok, of _ 5])
    (simp_all add: rdq_defs new_read_discrete_inputs_request_def exact_range_def test_access del: One_nat_def)

lemma invalid_holding_reg_ok:
  "test_ok p new_request_handler (run_invalid_holding_reg_tests (link_ops request_handler_call p)) new_request_handler"
  unfolding run_invalid_holding_reg_tests_def request_types
  by (rule rhq_served.test_ok_refused [OF new_handler_ok, of _ 4])
    (simp_all add: rhq_defs new_read_holding_registers_request_def exact_range_def test_access)

lemma invalid_input_reg_ok:
  "test_ok p new_request_handler (run_invalid_input_reg_tests (link_ops request_handler_call p)) new_request_handler"
  unfolding run_invalid_input_reg_tests_def request_types
  by (rule riq_served.test_ok_refused [OF new_handler_ok, of _ 4])
    (simp_all add: riq_defs new_read_input_registers_request_def exact_range_def test_access)

lemma test_views:
  "list_all id (expect_coils (view_of 1 [0xA9, 1] 8))"
  "list_all id (expect_inputs (view_of 2 [0x9A, 6] 8))"
  "list_all id (expect_registers (view_of 3 [0x0F, 0xF0, 0x0F, 0xF0] 0) 0x0FF0)"
  "list_all id (expect_registers (view_of 4 [0xF0, 0x0F, 0xF0, 0x0F] 0) 0xF00F)"
  by code_simp+

lemma inputs_ok:
  "test_ok p new_request_handler (run_inputs_tests (link_ops request_handler_call p)) new_request_handler"
  unfolding run_inputs_tests_def request_types response_codes
  by (rule rdq_client.test_ok_read [where n = 11 and bm = "[0xFF, 7]" and bytes = "[0x9A, 6]"
        and mk = "new_read_discrete_inputs_response 1" and copy = "\<lambda>data. copy_data_bits data [0xFF, 7] 8 11", OF new_handler_ok])
    (simp_all add: rdq_defs new_read_discrete_inputs_request_def new_read_discrete_inputs_response_def read_discrete_inputs_response.defs read_discrete_inputs_response_size_def
      read_discrete_inputs_act_def request_types exact_range_def test_access test_bitmaps test_rows test_views del: One_nat_def)

lemma holding_reg_ok:
  "test_ok p new_request_handler (run_holding_reg_tests (link_ops request_handler_call p)) new_request_handler"
  unfolding run_holding_reg_tests_def request_types response_codes
  by (rule rhq_client.test_ok_read [where n = 2 and bm = "[3]" and bytes = "[0x0F, 0xF0, 0x0F, 0xF0]"
        and mk = "new_read_holding_registers_response 1" and copy = "\<lambda>data. copy_data_registers data 0 2", OF new_handler_ok])
    (simp_all add: rhq_defs new_read_holding_registers_request_def new_read_holding_registers_response_def read_holding_registers_response.defs read_holding_registers_response_size_def
      read_holding_registers_act_def request_types exact_range_def test_access test_bitmaps test_rows test_views del: One_nat_def)

lemma input_reg_ok:
  "test_ok p new_request_handler (run_input_reg_tests (link_ops request_handler_call p)) new_request_handler"
  unfolding run_input_reg_tests_def request_types response_codes
  by (rule riq_client.test_ok_read [where n = 2 and bm = "[3]" and bytes = "[0xF0, 0x0F, 0xF0, 0x0F]"
        and mk = "new_read_input_registers_response 1" and copy = "\<lambda>data. copy_data_registers data 0 2", OF new_handler_ok])
    (simp_all add: riq_defs new_read_input_registers_request_def new_read_input_registers_response_def read_input_registers_response.defs read_input_registers_response_size_def
      read_input_registers_act_def request_types exact_range_def test_access test_bitmaps test_rows test_views del: One_nat_def)

text \<open>The handler answers a write of a coil with the request itself, which is read as the response.\<close>

lemma expect_mirrored:
  "expect_answer (link_ops handler p)
     (Inr (padded_unit tid (write_single_coil_request_encode (new_write_single_coil_request u a True)), no_error)) False
     (\<lambda>resp. []) = [True, True]"
  using scr.expect_received(2) [where m = "new_write_single_coil_response u a True" and xs = "[]" and handler = handler]
  by (simp add: scr_defs scq_defs new_write_single_coil_request_def new_write_single_coil_response_def)

lemma coil_ok:
  "test_ok p new_request_handler (run_coil_tests (link_ops request_handler_call p)) new_request_handler"
  unfolding run_coil_tests_def request_types response_codes
proof (intro test_ok_seq)
  show "test_ok p new_request_handler
      (request_response (link_ops request_handler_call p) milliseconds_max write_single_coil_request_size
        write_single_coil_request_serialize request (new_write_single_coil_request 1 8 True)
        (\<lambda>req r. expect_answer (link_ops request_handler_call p) r False (\<lambda>resp. []))) new_request_handler"
  proof (rule scq_served.test_ok_carried_out [where n = 1 and bm = "[1]" and ty = request
        and ys = "write_single_coil_request_encode (new_write_single_coil_request 1 8 True)", OF new_handler_ok])
    show "write_single_coil_act tid (write_single_coil_request_encode (new_write_single_coil_request 1 8 True) ! 0)
        new_request_handler (new_write_single_coil_request 1 8 True) [1] =
      Inr (\<lparr>m_buffer = frame tid (write_single_coil_request_encode (new_write_single_coil_request 1 8 True)),
        m_type = request\<rparr>, new_request_handler)" for tid
      using row_ends(1) [OF handler_okD(1) [OF new_handler_ok], of 0 "\<lambda>data. write_coil data True 8", OF _ test_rows(1)]
      by (simp add: write_single_coil_act_def scq.unit_image request_types new_write_single_coil_request_def
          write_single_coil_request.defs)
  qed (use expect_mirrored [where handler = request_handler_call and u = 1 and a = 8] in \<open>simp_all add: scq_defs new_write_single_coil_request_def exact_range_def
      test_access test_bitmaps del: One_nat_def\<close>)
  show "test_ok p new_request_handler
      (request_response (link_ops request_handler_call p) milliseconds_max read_coils_request_size
        read_coils_request_serialize request (new_read_coils_request 1 8 11)
        (\<lambda>req r. expect_answer (link_ops request_handler_call p) r False (\<lambda>resp.
           expect_pdu (pdu read_coils_request_function_code response read_coils_response_of_iterator resp)
             (\<lambda>m. expect_coils (view_of read_coils_request_function_code (read_coils_response.vals m) 8)))))
      new_request_handler"
    by (rule rcq_client.test_ok_read [where n = 11 and bm = "[0xFF, 7]" and bytes = "[0xA9, 1]"
          and mk = "new_read_coils_response 1" and copy = "\<lambda>data. copy_data_bits data [0xFF, 7] 8 11", OF new_handler_ok])
      (simp_all add: rcq_defs new_read_coils_request_def new_read_coils_response_def read_coils_response.defs
        read_coils_response_size_def read_coils_act_def request_types exact_range_def test_access test_bitmaps test_rows
        test_views del: One_nat_def)
qed (rule test_ok_nil)

subsection \<open>The tests pass\<close>

lemma test_client_connected:
  "0 \<le> delay \<Longrightarrow> connected 1 milliseconds_max hs (test_client handler hs delay port)"
  by (simp add: connected_def test_client_def new_tcp_client_def serving_def new_tcp_server_def server_listen_def
      server_accept_def new_tcp_session_def server_run_start_def manager_start_def new_tcp_session_manager_def
      DEFAULT_SERVER_MAX_CONNECTIONS_def spawn_apply session_begin_def loop_test_def set_session_def set_manager_def)

text \<open>\<open>server_test\<close> passes. Its eight parts, in their order, get the answers they expect from the example server:
  the illegal addresses are refused with \<open>illegal_data_address\<close>, and the coils, inputs and registers are read as the
  test says, on any connection that is served and whatever the client's transaction id.\<close>

lemma server_test_passes:
  "server_test \<and> (\<forall>p cl. connected p milliseconds_max new_request_handler cl \<longrightarrow>
     passes (run_server_test (link_ops request_handler_call p)) cl)"
proof -
  have "test_ok p new_request_handler (run_server_test (link_ops request_handler_call p)) new_request_handler" for p
    unfolding run_server_test_def
    by (intro test_ok_seq [where ?h1.0 = new_request_handler] test_ok_nil invalid_coil_ok coil_ok invalid_inputs_ok inputs_ok invalid_holding_reg_ok
        holding_reg_ok invalid_input_reg_ok input_reg_ok)
  note passes = test_ok_passes [OF this]
  moreover have "server_test" unfolding server_test_def by (rule passes, rule test_client_connected) simp
  ultimately show ?thesis by blast
qed

text \<open>Over the link, a request that times out does not disturb the next one. The client gives up waiting for the answer to the first
  request, which the server carries out all the same; the next request of the client, with a larger transaction id,
  returns the answer to itself and not the late one, and the handler has served both.\<close>

lemma request_after_timeout:
  assumes "tc_con_pool cl = Some l" "serving p (lk_server l)" "lk_late l = []"
    and "4 \<le> length xs" "length xs \<le> 250" "timeout \<noteq> milliseconds_max" "timeout < lk_delay l"
    and "answers handler (frame tid xs) (sv_handler (lk_server l)) resp h1"
    and "du_buffer resp = frame tid ys" "ys \<noteq> []" "length ys \<le> 250"
    and "tid < tid'" "4 \<le> length xs'" "length xs' \<le> 250"
    and "answers handler (frame tid' xs') h1 resp' h2"
    and "du_buffer resp' = frame tid' ys'" "ys' \<noteq> []" "length ys' \<le> 250"
  shows "\<exists>cl1 cl2 l2.
    client_send_request (link_ops handler p) \<lparr>m_buffer = frame tid xs, m_type = request\<rparr> timeout cl =
      Some (Inr (tcp_data_unit_empty, client_error read_timeout), cl1)
    \<and> client_send_request (link_ops handler p) \<lparr>m_buffer = frame tid' xs', m_type = request\<rparr> milliseconds_max cl1 =
      Some (Inr (padded_unit tid' ys', no_error), cl2)
    \<and> tc_con_pool cl2 = Some l2 \<and> serving p (lk_server l2) \<and> sv_handler (lk_server l2) = h2"
proof -
  let ?s1 = "session_turn handler p (frame tid xs) (lk_server l)"
  let ?l1 = "l\<lparr>lk_server := ?s1, lk_received := [], lk_late := lk_late l @ du_buffer resp, lk_timeout := None\<rparr>"
  let ?cl1 = "cl\<lparr>tc_con_pool := Some ?l1\<rparr>"
  have first: "client_send_request (link_ops handler p) \<lparr>m_buffer = frame tid xs, m_type = request\<rparr> timeout cl =
      Some (Inr (tcp_data_unit_empty, client_error read_timeout), ?cl1)"
    by (rule link_timeout [OF assms(1,2) refl assms(4,5,8,6,7)])
  have s1: "serving p (lk_server ?l1)" "sv_handler (lk_server ?l1) = h1"
    using session_turn_answer(1,2) [OF assms(2,4,5,8)] by simp_all
  have late: "lk_late ?l1 = concat (map (\<lambda>(t, zs). frame t zs) [(tid, ys)])" using assms(3,9) by simp
  have pool: "tc_con_pool ?cl1 = Some ?l1" by simp
  have ans: "answers handler (frame tid' xs') (sv_handler (lk_server ?l1)) resp' h2" using assms(15) s1(2) by simp
  have "client_send_request (link_ops handler p) \<lparr>m_buffer = frame tid' xs', m_type = request\<rparr> milliseconds_max ?cl1 =
      Some (Inr (padded_unit tid' ys', no_error), ?cl1\<lparr>tc_con_pool := Some
        (?l1\<lparr>lk_server := session_turn handler p (frame tid' xs') (lk_server ?l1), lk_received := [], lk_late := [],
           lk_timeout := None\<rparr>)\<rparr>)"
    by (rule link_answer [OF pool s1(1) refl assms(13,14) ans assms(16-18) _ late]) (use assms(10-12) in simp_all)
  with first session_turn_answer(1,2) [OF s1(1) assms(13,14) ans] show ?thesis by fastforce
qed

declare response_loop.simps [code]

text \<open>\<open>slow_server_test\<close> passes: its first request times out, and the answer to the second one is found behind
  the late answer to the first.\<close>

lemma slow_server_test_passes: "slow_server_test"
  by code_simp

end
