(* ===== verification/Test_Scripts.thy ===== *)
theory Test_Scripts
  imports Wire_Device Server_Tests
begin

text \<open>
  Tests of a client against a device it knows only through the network (the locale \<open>modbus_device\<close>). A step of a test
  is refined to a command with an expectation on the reply, so that a test becomes a script that can be checked on
  the device of \<open>device_act\<close> alone. Scripts on different memories of the device do not disturb each other, in
  whatever order their steps run.
\<close>

subsection \<open>Steps of a test\<close>

text \<open>A step of a test gives one command; \<open>E\<close> is what it expects of the reply. On every device whose reply is as
  expected, the step passes, and the device has carried out the command.\<close>

definition step_sound ::
  "('h \<Rightarrow> device) \<Rightarrow> ('h \<Rightarrow> bool) \<Rightarrow> session_ptr \<Rightarrow> 'h link option test \<Rightarrow> command \<times> (reply \<Rightarrow> bool) \<Rightarrow> bool" where
  "step_sound view good p t s \<longleftrightarrow> (case s of (c, E) \<Rightarrow> \<forall>h cl.
     connected p milliseconds_max h cl \<and> good h \<and> E (fst (device_act c (view h))) \<longrightarrow>
       (\<exists>es h' cl'. t cl = Some (es, cl') \<and> list_all id es \<and> connected p milliseconds_max h' cl' \<and> good h'
         \<and> view h' = snd (device_act c (view h))))"

text \<open>The steps on the device alone.\<close>

fun script_ok :: "(command \<times> (reply \<Rightarrow> bool)) list \<Rightarrow> device \<Rightarrow> bool" where
  "script_ok [] d \<longleftrightarrow> True"
| "script_ok ((c, E) # s) d \<longleftrightarrow> E (fst (device_act c d)) \<and> script_ok s (snd (device_act c d))"

lemma steps_pass:
  assumes "list_all2 (step_sound view good p) ts s" "script_ok s (view h)" "connected p milliseconds_max h cl" "good h"
  shows "\<exists>es cl'. in_turn ts cl = Some (es, cl') \<and> list_all id es"
  using assms
proof (induction ts s arbitrary: h cl rule: list_all2_induct)
  case (Cons t ts x s)
  obtain c E where x: "x = (c, E)" by fastforce
  with Cons obtain es h' cl' where t: "t cl = Some (es, cl')" "list_all id es" "connected p milliseconds_max h' cl'"
      "good h'" "view h' = snd (device_act c (view h))"
    unfolding step_sound_def by fastforce
  with Cons.IH [of h' cl'] Cons.prems(1) x obtain es' cl'' where
    "in_turn ts cl' = Some (es', cl'')" "list_all id es'" by fastforce
  with t show ?case by (simp add: id_def)
qed simp

corollary script_passes:
  assumes "list_all2 (step_sound view good p) ts s" "script_ok s (view h)" "connected p milliseconds_max h cl" "good h"
  shows "passes (in_turn ts) cl"
  using steps_pass [OF assms] by (auto simp: passes_def)

context modbus_device
begin

lemma step_sound_command:
  assumes "allowed c"
    and "\<And>tid ys cl h h' ty. connected p milliseconds_max h cl \<Longrightarrow> tid = tc_transaction_id cl \<Longrightarrow>
      answers handler (frame tid (command_pdu unit_id c)) h \<lparr>m_buffer = frame tid ys, m_type = ty\<rparr> h' \<Longrightarrow>
      reply_carried unit_id c (fst (device_act c (view h))) ys \<Longrightarrow> length ys \<le> 250 \<Longrightarrow>
      E (fst (device_act c (view h))) \<Longrightarrow>
      \<exists>es cl'. t cl = Some (es, cl') \<and> list_all id es \<and> connected p milliseconds_max h' cl'"
  shows "step_sound view good p t (c, E)"
  unfolding step_sound_def prod.case
proof (intro allI impI, elim conjE)
  fix h cl assume h: "connected p milliseconds_max h cl" "good h" "E (fst (device_act c (view h)))"
  obtain ys ty h' where "answers handler (frame (tc_transaction_id cl) (command_pdu unit_id c)) h
      \<lparr>m_buffer = frame (tc_transaction_id cl) ys, m_type = ty\<rparr> h'"
    "reply_carried unit_id c (fst (device_act c (view h))) ys" "length ys \<le> 250" "good h'"
    "view h' = snd (device_act c (view h))"
    using conforming_answer [OF h(2) assms(1)] .
  with assms(2) [OF h(1) refl] h(3) show "\<exists>es h' cl'. t cl = Some (es, cl') \<and> list_all id es
      \<and> connected p milliseconds_max h' cl' \<and> good h' \<and> view h' = snd (device_act c (view h))" by blast
qed

text \<open>A request of a message that is the command's, when every answer of the device meets the expectation.\<close>

lemma response_step:
  assumes q: "pdu_message serialize size_of encode of_iterator fcode q_wf"
    and "allowed c" "command_pdu unit_id c = encode m"
    and "\<And>d tid req ys. reply_carried unit_id c (fst (device_act c d)) ys \<Longrightarrow> length ys \<le> 250 \<Longrightarrow>
      E (fst (device_act c d)) \<Longrightarrow> ys \<noteq> [] \<and> list_all id (expect req (Inr (padded_unit tid ys, no_error)))"
  shows "step_sound view good p
    (request_response (link_ops handler p) milliseconds_max size_of serialize request m expect) (c, E)"
proof (rule step_sound_command [OF assms(2)])
  fix tid ys cl h h' ty
  assume h: "connected p milliseconds_max h cl" "tid = tc_transaction_id cl"
    "answers handler (frame tid (command_pdu unit_id c)) h \<lparr>m_buffer = frame tid ys, m_type = ty\<rparr> h'"
    "reply_carried unit_id c (fst (device_act c (view h))) ys" "length ys \<le> 250" "E (fst (device_act c (view h)))"
  show "\<exists>es cl'. request_response (link_ops handler p) milliseconds_max size_of serialize request m expect cl = Some (es, cl')
      \<and> list_all id es \<and> connected p milliseconds_max h' cl'"
    by (rule pdu_message.response_passes [OF q h(1) _ _ h(3) [unfolded h(2) assms(3)]])
      (use fits [OF assms(2)] assms(3,4) h(4-6) in auto)
qed

text \<open>A read, whose response is taken apart by the expectation, and a write, whose response is not looked at.\<close>

lemma read_step:
  assumes "pdu_message serialize size_of encode of_iterator fcode q_wf"
    and r: "pdu_message r_serialize r_size r_encode r_of_iterator r_fcode r_wf"
    and "allowed c" "command_pdu unit_id c = encode m"
    and "\<And>d ys. reply_carried unit_id c (fst (device_act c d)) ys \<Longrightarrow> E (fst (device_act c d)) \<Longrightarrow>
      \<exists>m'. ys = r_encode m' \<and> list_all id (f m')"
    and wf: "\<And>m'. length (r_encode m') \<le> 250 \<Longrightarrow> r_wf m'"
  shows "step_sound view good p (request_response (link_ops handler p) milliseconds_max size_of serialize request m
    (\<lambda>req r. expect_answer (link_ops handler p) r False (\<lambda>resp. expect_pdu (pdu r_fcode response r_of_iterator resp) f))) (c, E)"
proof (rule response_step [OF assms(1,3,4)])
  fix d tid req ys
  assume "reply_carried unit_id c (fst (device_act c d)) ys" and len: "length ys \<le> 250" and "E (fst (device_act c d))"
  then obtain m' where m': "ys = r_encode m'" "list_all id (f m')" using assms(5) by blast
  with pdu_message.expect_received(1) [OF r wf [OF len [unfolded m'(1)]], where xs = "[]" and handler = handler] pdu_message.encode_ne [OF r]
  show "ys \<noteq> [] \<and> list_all id (expect_answer (link_ops handler p) (Inr (padded_unit tid ys, no_error)) False
      (\<lambda>resp. expect_pdu (pdu r_fcode response r_of_iterator resp) f))" by simp
qed

lemma write_step:
  assumes "pdu_message serialize size_of encode of_iterator fcode q_wf"
    and r: "pdu_message r_serialize r_size r_encode r_of_iterator r_fcode r_wf"
    and "allowed c" "command_pdu unit_id c = encode m" "r_wf m'"
    and "\<And>d ys. reply_carried unit_id c (fst (device_act c d)) ys \<Longrightarrow> \<exists>xs. ys = r_encode m' @ xs"
  shows "step_sound view good p (request_response (link_ops handler p) milliseconds_max size_of serialize request m
    (\<lambda>req r. expect_answer (link_ops handler p) r False (\<lambda>resp. []))) (c, \<lambda>_. True)"
proof (rule response_step [OF assms(1,3,4)])
  fix d tid req ys
  assume "reply_carried unit_id c (fst (device_act c d)) ys"
  from assms(6) [OF this] obtain xs where "ys = r_encode m' @ xs" by blast
  with pdu_message.expect_received(2) [OF r assms(5), where xs = xs and handler = handler] pdu_message.encode_ne [OF r]
  show "ys \<noteq> [] \<and> list_all id (expect_answer (link_ops handler p) (Inr (padded_unit tid ys, no_error)) False (\<lambda>resp. []))"
    by simp
qed

lemma read_coils_step:
  assumes "allowed (Read_coils a n)"
    and "\<And>bs vs. packs bs vs \<Longrightarrow> length bs = unat n \<Longrightarrow> E (Bits bs) \<Longrightarrow> list_all id (f (new_read_coils_response unit_id vs))"
  shows "step_sound view good p
    (request_response (link_ops handler p) milliseconds_max read_coils_request_size read_coils_request_serialize
       read_coils_request_type (new_read_coils_request unit_id a n)
       (\<lambda>req r. expect_answer (link_ops handler p) r False (\<lambda>resp.
          expect_pdu (pdu read_coils_response_function_code read_coils_response_type read_coils_response_of_iterator resp) f)))
    (Read_coils a n, E)"
  unfolding request_types
  by (rule read_step [OF rcq.pdu_message_axioms rcr.pdu_message_axioms assms(1)])
    (use assms(2) in fastforce, use assms(2) in fastforce, simp add: rcr_defs)

lemma read_discrete_inputs_step:
  assumes "allowed (Read_discrete_inputs a n)"
    and "\<And>bs vs. packs bs vs \<Longrightarrow> length bs = unat n \<Longrightarrow> E (Bits bs) \<Longrightarrow> list_all id (f (new_read_discrete_inputs_response unit_id vs))"
  shows "step_sound view good p
    (request_response (link_ops handler p) milliseconds_max read_discrete_inputs_request_size read_discrete_inputs_request_serialize
       read_discrete_inputs_request_type (new_read_discrete_inputs_request unit_id a n)
       (\<lambda>req r. expect_answer (link_ops handler p) r False (\<lambda>resp.
          expect_pdu (pdu read_discrete_inputs_response_function_code read_discrete_inputs_response_type read_discrete_inputs_response_of_iterator resp) f)))
    (Read_discrete_inputs a n, E)"
  unfolding request_types
  by (rule read_step [OF rdq.pdu_message_axioms rdr.pdu_message_axioms assms(1)])
    (use assms(2) in fastforce, use assms(2) in fastforce, simp add: rdr_defs)

lemma read_holding_registers_step:
  assumes "allowed (Read_holding_registers a n)"
    and "\<And>ws. length ws = unat n \<Longrightarrow> E (Words ws) \<Longrightarrow> list_all id (f (new_read_holding_registers_response unit_id (enc_words ws)))"
  shows "step_sound view good p
    (request_response (link_ops handler p) milliseconds_max read_holding_registers_request_size read_holding_registers_request_serialize
       read_holding_registers_request_type (new_read_holding_registers_request unit_id a n)
       (\<lambda>req r. expect_answer (link_ops handler p) r False (\<lambda>resp.
          expect_pdu (pdu read_holding_registers_response_function_code read_holding_registers_response_type read_holding_registers_response_of_iterator resp) f)))
    (Read_holding_registers a n, E)"
  unfolding request_types
  by (rule read_step [OF rhq.pdu_message_axioms rhr.pdu_message_axioms assms(1)])
    (use assms(2) in fastforce, use assms(2) in fastforce, simp add: rhr_defs)

lemma read_input_registers_step:
  assumes "allowed (Read_input_registers a n)"
    and "\<And>ws. length ws = unat n \<Longrightarrow> E (Words ws) \<Longrightarrow> list_all id (f (new_read_input_registers_response unit_id (enc_words ws)))"
  shows "step_sound view good p
    (request_response (link_ops handler p) milliseconds_max read_input_registers_request_size read_input_registers_request_serialize
       read_input_registers_request_type (new_read_input_registers_request unit_id a n)
       (\<lambda>req r. expect_answer (link_ops handler p) r False (\<lambda>resp.
          expect_pdu (pdu read_input_registers_response_function_code read_input_registers_response_type read_input_registers_response_of_iterator resp) f)))
    (Read_input_registers a n, E)"
  unfolding request_types
  by (rule read_step [OF riq.pdu_message_axioms rir.pdu_message_axioms assms(1)])
    (use assms(2) in fastforce, use assms(2) in fastforce, simp add: rir_defs)

lemma write_single_coil_step:
  assumes "allowed (Switch_on a)"
  shows "step_sound view good p
    (request_response (link_ops handler p) milliseconds_max write_single_coil_request_size write_single_coil_request_serialize
       write_single_coil_request_type (new_write_single_coil_request unit_id a True) (\<lambda>req r. expect_answer (link_ops handler p) r False (\<lambda>resp. [])))
    (Switch_on a, \<lambda>_. True)"
  unfolding request_types
  by (rule write_step [where m' = "new_write_single_coil_response unit_id a True",
        OF scq.pdu_message_axioms scr.pdu_message_axioms assms]) simp_all

lemma write_single_register_step:
  assumes "allowed (Write_register a v)"
  shows "step_sound view good p
    (request_response (link_ops handler p) milliseconds_max write_single_register_request_size write_single_register_request_serialize
       write_single_register_request_type (new_write_single_register_request unit_id a v) (\<lambda>req r. expect_answer (link_ops handler p) r False (\<lambda>resp. [])))
    (Write_register a v, \<lambda>_. True)"
  unfolding request_types
  by (rule write_step [where m' = "new_write_single_register_response unit_id a v",
        OF srq.pdu_message_axioms srr.pdu_message_axioms assms]) simp_all

lemma write_multiple_registers_step:
  assumes "allowed (Write_registers a ws)"
  shows "step_sound view good p
    (request_response (link_ops handler p) milliseconds_max write_multiple_registers_request_size write_multiple_registers_request_serialize
       write_multiple_registers_request_type (new_write_multiple_registers_request unit_id a (of_nat (length ws)) ws) (\<lambda>req r. expect_answer (link_ops handler p) r False (\<lambda>resp. [])))
    (Write_registers a ws, \<lambda>_. True)"
  unfolding request_types
  by (rule write_step [where m' = "new_write_multiple_registers_response unit_id a (of_nat (length ws))",
        OF wrq.pdu_message_axioms wrr.pdu_message_axioms assms])
    (auto simp: write_registers_begins [unfolded command_pdu.simps])

lemma write_multiple_coils_step:
  assumes "allowed (Write_coils a bs)"
    and m: "new_write_multiple_coils_request_bools unit_id a bs = Some m"
  shows "step_sound view good p
    (request_response (link_ops handler p) milliseconds_max write_multiple_coils_request_size
       write_multiple_coils_request_serialize write_multiple_coils_request_type m
       (\<lambda>req r. expect_answer (link_ops handler p) r False (\<lambda>resp. [])))
    (Write_coils a bs, \<lambda>_. True)"
  unfolding request_types
  by (rule write_step [where m' = "new_write_multiple_coils_response unit_id a (of_nat (length bs))",
        OF wcq.pdu_message_axioms wcr.pdu_message_axioms assms(1)]) (simp_all add: m)

end

subsection \<open>Scripts on different memories\<close>

text \<open>The four memories of a device, numbered as \<open>command_row\<close> does.\<close>

definition same_row :: "nat \<Rightarrow> device \<Rightarrow> device \<Rightarrow> bool" where
  "same_row r d d' \<longleftrightarrow> (r = 0 \<longrightarrow> dv_coils d = dv_coils d') \<and> (r = 1 \<longrightarrow> dv_inputs d = dv_inputs d')
     \<and> (r = 2 \<longrightarrow> dv_holding d = dv_holding d') \<and> (r = 3 \<longrightarrow> dv_input_registers d = dv_input_registers d')"

definition script_rows :: "(command \<times> (reply \<Rightarrow> bool)) list \<Rightarrow> nat set" where
  "script_rows s = (command_row \<circ> fst) ` set s"

lemma script_rows_simps [simp]:
  "script_rows [] = {}" "script_rows (x # s) = insert (command_row (fst x)) (script_rows s)"
  by (simp_all add: script_rows_def)

text \<open>A command reads and writes its own memory only.\<close>

lemma device_act_row:
  "same_row (command_row c) d d' \<Longrightarrow> fst (device_act c d) = fst (device_act c d')"
  "same_row (command_row c) d d' \<Longrightarrow> same_row r d d' \<Longrightarrow> same_row r (snd (device_act c d)) (snd (device_act c d'))"
  "r \<noteq> command_row c \<Longrightarrow> same_row r (snd (device_act c d)) d"
  by (cases c; simp add: same_row_def)+

lemma script_ok_cong:
  "\<forall>r \<in> script_rows s. same_row r d d' \<Longrightarrow> script_ok s d = script_ok s d'"
proof (induction s arbitrary: d d')
  case (Cons x s)
  obtain c E where x: "x = (c, E)" by fastforce
  with Cons.prems have c: "same_row (command_row c) d d'" by simp
  with Cons.prems x have "\<forall>r \<in> script_rows s. same_row r (snd (device_act c d)) (snd (device_act c d'))"
    by (simp add: device_act_row(2))
  from Cons.IH [OF this] device_act_row(1) [OF c] show ?case by (simp add: x)
qed simp

text \<open>Scripts on different memories do not disturb each other, in whatever order their steps run.\<close>

lemma script_ok_skip:
  assumes "script_ok s d" "command_row c \<notin> script_rows s"
  shows "script_ok s (snd (device_act c d))"
  using assms script_ok_cong [of s "snd (device_act c d)" d] device_act_row(3) [of _ c d] by metis

lemma script_shuffle:
  assumes "s \<in> shuffles s1 s2" "script_rows s1 \<inter> script_rows s2 = {}" "script_ok s1 d" "script_ok s2 d"
  shows "script_ok s d"
  using assms
proof (induction s arbitrary: s1 s2 d)
  case (Cons x s)
  obtain c E where x: "x = (c, E)" by fastforce
  let ?d = "snd (device_act c d)"
  from Cons.prems(1) consider s1' where "s1 = x # s1'" "s \<in> shuffles s1' s2"
    | s2' where "s2 = x # s2'" "s \<in> shuffles s1 s2'"
    by (auto simp: Cons_in_shuffles_iff neq_Nil_conv)
  then show ?case
  proof cases
    case 1
    with Cons.prems x have "script_ok s1' ?d" "script_ok s2 ?d" "E (fst (device_act c d))"
      by (auto intro: script_ok_skip)
    with Cons.IH [OF 1(2), of ?d] Cons.prems(2) 1(1) x show ?thesis by auto
  next
    case 2
    with Cons.prems x have "script_ok s2' ?d" "script_ok s1 ?d" "E (fst (device_act c d))"
      by (auto intro: script_ok_skip)
    with Cons.IH [OF 2(2), of ?d] Cons.prems(2) 2(1) x show ?thesis by auto
  qed
qed simp

lemma script_ok_take: "script_ok s d \<Longrightarrow> script_ok (take n s) d"
  by (induction s d arbitrary: n rule: script_ok.induct) (auto simp: take_Cons split: nat.splits)

fun interleavings :: "'a list list \<Rightarrow> 'a list set" where
  "interleavings [] = {[]}"
| "interleavings (xs # xss) = (\<Union>ys \<in> interleavings xss. shuffles xs ys)"

text \<open>An interleaving of tests is sound for the same interleaving of their scripts.\<close>

lemma list_all2_shuffles:
  assumes "zs \<in> shuffles xs ys" "list_all2 P xs us" "list_all2 P ys vs"
  shows "\<exists>ws \<in> shuffles us vs. list_all2 P zs ws"
  using assms
proof (induction zs arbitrary: xs ys us vs)
  case (Cons z zs)
  then consider xs' u us' where "xs = z # xs'" "zs \<in> shuffles xs' ys" "us = u # us'" "P z u" "list_all2 P xs' us'"
    | ys' v vs' where "ys = z # ys'" "zs \<in> shuffles xs ys'" "vs = v # vs'" "P z v" "list_all2 P ys' vs'"
    by (auto simp: Cons_in_shuffles_iff neq_Nil_conv list_all2_Cons1)
  then show ?case
  proof cases
    case 1
    with Cons.IH [OF 1(2,5) Cons.prems(3)] show ?thesis
      by (auto intro!: bexI Cons_in_shuffles_leftI)
  next
    case 2
    with Cons.IH [OF 2(2) Cons.prems(2) 2(5)] show ?thesis
      by (auto intro!: bexI Cons_in_shuffles_rightI)
  qed
qed simp

lemma interleaved_sound:
  "ts \<in> interleavings tss \<Longrightarrow> list_all2 (list_all2 P) tss ss \<Longrightarrow> \<exists>s \<in> interleavings ss. list_all2 P ts s"
proof (induction tss arbitrary: ts ss)
  case (Cons xs tss)
  then obtain ys us ss' where "ys \<in> interleavings tss" "ts \<in> shuffles xs ys" "ss = us # ss'" "list_all2 P xs us"
      "list_all2 (list_all2 P) tss ss'"
    by (auto simp: list_all2_Cons1)
  with Cons.IH [of ys ss'] list_all2_shuffles [of ts xs ys P us] show ?case by fastforce
qed simp

fun separate :: "(command \<times> (reply \<Rightarrow> bool)) list list \<Rightarrow> bool" where
  "separate [] \<longleftrightarrow> True"
| "separate (s # ss) \<longleftrightarrow> list_all (\<lambda>s'. script_rows s \<inter> script_rows s' = {}) ss \<and> separate ss"

lemma interleaving_rows: "s \<in> interleavings ss \<Longrightarrow> script_rows s = (\<Union>s' \<in> set ss. script_rows s')"
proof (induction ss arbitrary: s)
  case (Cons s1 ss)
  then obtain s2 where s2: "s2 \<in> interleavings ss" "s \<in> shuffles s1 s2" by auto
  then have "script_rows s = script_rows s1 \<union> script_rows s2"
    by (simp add: script_rows_def set_shuffles image_Un)
  with Cons.IH [OF s2(1)] show ?case by simp
qed simp

lemma interleaved_script:
  "s \<in> interleavings ss \<Longrightarrow> separate ss \<Longrightarrow> list_all (\<lambda>s. script_ok s d) ss \<Longrightarrow> script_ok s d"
proof (induction ss arbitrary: s)
  case (Cons s1 ss)
  then obtain s2 where s2: "s2 \<in> interleavings ss" "s \<in> shuffles s1 s2" by auto
  have "script_rows s1 \<inter> script_rows s2 = {}"
    using Cons.prems(2) interleaving_rows [OF s2(1)] by (fastforce simp: list_all_iff)
  with script_shuffle [OF s2(2)] Cons s2(1) show ?case by simp
qed simp

text \<open>Tests on different memories pass in every order of their steps, also when they are cut off.\<close>

lemma interleaved_tests_pass:
  assumes "ts \<in> interleavings tss" "list_all2 (list_all2 (step_sound view good p)) tss ss" "separate ss"
    and "list_all (\<lambda>s. script_ok s (view h)) ss" "connected p milliseconds_max h cl" "good h"
  shows "passes (in_turn (take n ts)) cl"
proof -
  obtain s where s: "s \<in> interleavings ss" "list_all2 (step_sound view good p) ts s"
    using interleaved_sound [OF assms(1,2)] by blast
  have "list_all2 (step_sound view good p) (take n ts) (take n s)" using s(2) by (rule list_all2_takeI)
  from script_passes [OF this script_ok_take [OF interleaved_script [OF s(1) assms(3,4)]] assms(5,6)] show ?thesis .
qed

end
