(* ===== verification/E2e_Tests.thy ===== *)
theory E2e_Tests
  imports Test_Scripts
begin

text \<open>
  The tests of test/e2e_tcp_client_test.cpp, which run the client against a device in the network. The device is a
  parameter, a \<open>modbus_device\<close>. A test is the list of its steps, each of which sends one request and looks at the
  response; \<open>multi_test\<close> runs the four tests at the same time on one client, until its timer stops them. The
  requests are taken one at a time: an order of the steps in which each test keeps its own order. Host, port, log
  lines and the stop of the context are left out.
\<close>

subsection \<open>The tests\<close>

definition e2e_read_coils :: "('p, 'c) cpool_ops \<Rightarrow> uint16 \<Rightarrow> bool list \<Rightarrow> 'p test" where
  "e2e_read_coils ops addr bs =
     request_response ops milliseconds_max read_coils_request_size read_coils_request_serialize
       read_coils_request_type (new_read_coils_request 1 addr 8)
       (\<lambda>req r. expect_answer ops r False (\<lambda>resp.
          expect_pdu (pdu read_coils_response_function_code read_coils_response_type read_coils_response_of_iterator resp)
            (\<lambda>m. let data = view_of read_coils_response_function_code (read_coils_response.vals m) addr
               in (buffer_length data = of_nat (num_bytes 8)) # expect_bits data bs)))"

definition e2e_run_coil_tests :: "('p, 'c) cpool_ops \<Rightarrow> 'p test list" where
  "e2e_run_coil_tests ops =
     [request_response ops milliseconds_max write_single_coil_request_size write_single_coil_request_serialize
        write_single_coil_request_type (new_write_single_coil_request 1 256 True)
        (\<lambda>req r. expect_answer ops r False (\<lambda>resp. [])),
      e2e_read_coils ops 256 [True],
      (\<lambda>cl. case new_write_multiple_coils_request_bools 1 256 [False, True, False, True] of
         None \<Rightarrow> None
       | Some m \<Rightarrow> request_response ops milliseconds_max write_multiple_coils_request_size
           write_multiple_coils_request_serialize write_multiple_coils_request_type m
           (\<lambda>req r. expect_answer ops r False (\<lambda>resp. [])) cl),
      e2e_read_coils ops 256 [False, True, False, True]]"

definition e2e_read_inputs :: "('p, 'c) cpool_ops \<Rightarrow> uint16 \<Rightarrow> bool list \<Rightarrow> 'p test" where
  "e2e_read_inputs ops addr bs =
     request_response ops milliseconds_max read_discrete_inputs_request_size read_discrete_inputs_request_serialize
       read_discrete_inputs_request_type (new_read_discrete_inputs_request 1 addr 8)
       (\<lambda>req r. expect_answer ops r False (\<lambda>resp.
          expect_pdu (pdu read_discrete_inputs_response_function_code read_discrete_inputs_response_type
              read_discrete_inputs_response_of_iterator resp)
            (\<lambda>m. let data = view_of read_discrete_inputs_response_function_code (read_discrete_inputs_response.inputs m)
                       addr
               in (buffer_length data = of_nat (num_bytes 8)) # expect_bits data bs)))"

definition e2e_run_inputs_tests :: "('p, 'c) cpool_ops \<Rightarrow> 'p test list" where
  "e2e_run_inputs_tests ops =
     [e2e_read_inputs ops 256 [False], e2e_read_inputs ops 256 [False, True, False, True]]"

definition e2e_read_holding ::
  "('p, 'c) cpool_ops \<Rightarrow> uint16 \<Rightarrow> uint16 \<Rightarrow> (modbus_response_t \<Rightarrow> bool list) \<Rightarrow> 'p test" where
  "e2e_read_holding ops addr num_read_reg expect =
     request_response ops milliseconds_max read_holding_registers_request_size read_holding_registers_request_serialize
       read_holding_registers_request_type (new_read_holding_registers_request 1 addr num_read_reg)
       (\<lambda>req r. expect_answer ops r False (\<lambda>resp.
          expect_pdu (pdu read_holding_registers_response_function_code read_holding_registers_response_type
              read_holding_registers_response_of_iterator resp)
            (\<lambda>m. let data = view_of read_holding_registers_response_function_code
                       (read_holding_registers_response.vals m) addr
               in (buffer_length data = num_read_reg * 2) # expect data)))"

definition e2e_run_holding_reg_tests :: "('p, 'c) cpool_ops \<Rightarrow> 'p test list" where
  "e2e_run_holding_reg_tests ops =
     (let offset = 9; write_vals = [0, 1, 2, 3, 4] in
     [request_response ops milliseconds_max write_single_register_request_size write_single_register_request_serialize
        write_single_register_request_type (new_write_single_register_request 1 (0 + offset) 255)
        (\<lambda>req r. expect_answer ops r False (\<lambda>resp. [])),
      e2e_read_holding ops 0 10 (\<lambda>data.
        [case getUINT16 (ucast offset) normal data of Inl _ \<Rightarrow> False | Inr v \<Rightarrow> v \<noteq> 0]),
      request_response ops milliseconds_max write_multiple_registers_request_size
        write_multiple_registers_request_serialize write_multiple_registers_request_type
        (new_write_multiple_registers_request 1 20 (of_nat (length write_vals)) write_vals)
        (\<lambda>req r. expect_answer ops r False (\<lambda>resp. [])),
      e2e_read_holding ops 20 (of_nat (length write_vals)) (\<lambda>data.
        map (\<lambda>i. getUINT16 (of_nat i) normal data = Inr (of_nat i)) [0..<length write_vals])])"

definition e2e_read_input_registers ::
  "('p, 'c) cpool_ops \<Rightarrow> uint16 \<Rightarrow> uint16 \<Rightarrow> (modbus_response_t \<Rightarrow> bool list) \<Rightarrow> 'p test" where
  "e2e_read_input_registers ops addr num_read_reg expect =
     request_response ops milliseconds_max read_input_registers_request_size read_input_registers_request_serialize
       read_input_registers_request_type (new_read_input_registers_request 1 addr num_read_reg)
       (\<lambda>req r. expect_answer ops r False (\<lambda>resp.
          expect_pdu (pdu read_input_registers_response_function_code read_input_registers_response_type
              read_input_registers_response_of_iterator resp)
            (\<lambda>m. let data = view_of read_input_registers_response_function_code
                       (read_input_registers_response.vals m) addr
               in (buffer_length data = num_read_reg * 2) # expect data)))"

definition e2e_run_input_reg_tests :: "('p, 'c) cpool_ops \<Rightarrow> 'p test list" where
  "e2e_run_input_reg_tests ops =
     [e2e_read_input_registers ops 0 10 (\<lambda>data.
        [getINT16 0 normal data = Inr (- 31527), getUINT16 0 normal data = Inr 34009,
         getINT16 9 normal data = Inr 50, getUINT16 9 normal data = Inr 50]),
      e2e_read_input_registers ops 426 6 (\<lambda>data.
        [getINT16 0 normal data = Inr 57, getUINT16 0 normal data = Inr 57,
         getINT16 5 normal data = Inr 26, getUINT16 5 normal data = Inr 26])]"

definition multi_test :: "('p, 'c) cpool_ops \<Rightarrow> 'p test list set" where
  "multi_test ops = interleavings [e2e_run_coil_tests ops, e2e_run_inputs_tests ops, e2e_run_holding_reg_tests ops,
     e2e_run_input_reg_tests ops]"

subsection \<open>The tests as scripts\<close>

fun bits_are :: "bool list \<Rightarrow> reply \<Rightarrow> bool" where
  "bits_are bs (Bits vs) \<longleftrightarrow> length bs \<le> length vs \<and> take (length bs) vs = bs"
| "bits_are bs _ \<longleftrightarrow> False"

fun words_are :: "(nat \<times> (uint16 \<Rightarrow> bool)) list \<Rightarrow> reply \<Rightarrow> bool" where
  "words_are cs (Words ws) \<longleftrightarrow> (\<forall>(i, P) \<in> set cs. i < length ws \<and> P (ws ! i))"
| "words_are cs _ \<longleftrightarrow> False"

definition coil_script :: "(command \<times> (reply \<Rightarrow> bool)) list" where
  "coil_script = [(Switch_on 256, \<lambda>_. True), (Read_coils 256 8, bits_are [True]),
     (Write_coils 256 [False, True, False, True], \<lambda>_. True), (Read_coils 256 8, bits_are [False, True, False, True])]"

definition inputs_script :: "(command \<times> (reply \<Rightarrow> bool)) list" where
  "inputs_script = [(Read_discrete_inputs 256 8, bits_are [False]),
     (Read_discrete_inputs 256 8, bits_are [False, True, False, True])]"

definition holding_script :: "(command \<times> (reply \<Rightarrow> bool)) list" where
  "holding_script = [(Write_register 9 255, \<lambda>_. True), (Read_holding_registers 0 10, words_are [(9, \<lambda>v. v \<noteq> 0)]),
     (Write_registers 20 [0, 1, 2, 3, 4], \<lambda>_. True),
     (Read_holding_registers 20 5, words_are (map (\<lambda>i. (i, \<lambda>v. v = of_nat i)) [0..<5]))]"

definition input_reg_script :: "(command \<times> (reply \<Rightarrow> bool)) list" where
  "input_reg_script = [(Read_input_registers 0 10, words_are [(0, \<lambda>v. v = 34009), (9, \<lambda>v. v = 50)]),
     (Read_input_registers 426 6, words_are [(0, \<lambda>v. v = 57), (5, \<lambda>v. v = 26)])]"

text \<open>What the tests need of the memories of the device: the inputs and input registers have the values the tests
  expect; the coils and the holding registers may hold anything.\<close>

definition e2e_memory :: "device \<Rightarrow> bool" where
  "e2e_memory d \<longleftrightarrow> map (dv_inputs d) [256..<260] = [False, True, False, True]
     \<and> dv_input_registers d 0 = 34009 \<and> dv_input_registers d 9 = 50
     \<and> dv_input_registers d 426 = 57 \<and> dv_input_registers d 431 = 26"

definition e2e_scripts :: "(command \<times> (reply \<Rightarrow> bool)) list list" where
  "e2e_scripts = [coil_script, inputs_script, holding_script, input_reg_script]"

lemmas script_defs = coil_script_def inputs_script_def holding_script_def input_reg_script_def

lemma e2e_scripts_separate: "separate e2e_scripts"
  by (simp add: e2e_scripts_def script_defs)

lemma e2e_scripts_ok:
  assumes "e2e_memory d"
  shows "list_all (\<lambda>s. script_ok s d) e2e_scripts"
proof -
  have "script_ok coil_script d" by (simp add: coil_script_def overlay_def upt_conv_Cons)
  moreover have "script_ok inputs_script d"
    using assms by (simp add: inputs_script_def e2e_memory_def upt_conv_Cons)
  moreover have "script_ok holding_script d"
    by (simp add: holding_script_def overlay_def upt_conv_Cons)
  moreover have "script_ok input_reg_script d"
    using assms by (simp add: input_reg_script_def e2e_memory_def)
  ultimately show ?thesis by (simp add: e2e_scripts_def)
qed

subsection \<open>The expectations\<close>

lemma expect_bits_view:
  assumes "fc \<in> {1, 2}" "packs bs vs" "length bs = 8" "bits_are es (Bits bs)"
  shows "list_all id (let data = view_of fc vs a in (buffer_length data = of_nat (num_bytes 8)) # expect_bits data es)"
proof -
  obtain v where v: "vs = [v]" using assms(2,3) by (auto simp: packs_def length_Suc_conv)
  have d: "isValid (view_of fc [v] a)" "mr_data (view_of fc [v] a) = Some [v]"
    using assms(1) by (auto simp: view_of_def new_modbus_response_def isValid_def data_type_def)
  have "getBool (of_nat k) (view_of fc [v] a) = Inr (es ! k)" if "k < length es" for k
  proof -
    have k: "k < 8" "es ! k = bs ! k"
      using that assms(3,4) nth_take [of k "length es" bs] by auto
    then have "unat (of_nat k :: uint32) = k" by (simp add: unat_of_nat)
    with getBool_reads [OF d, of "of_nat k"] k assms(2) v assms(3) show ?thesis by (simp add: packs_def)
  qed
  then show ?thesis
    using d by (simp add: v expect_bits_def list_all_iff buffer_length_def num_bytes_def)
qed

lemma view_of_registers:
  assumes "fc \<in> {3, 4}" "0 < length ws" "length ws \<le> 123"
  shows "buffer_length (view_of fc (enc_words ws) a) = of_nat (2 * length ws)"
    and "unat i < length ws \<Longrightarrow> getUINT16 i normal (view_of fc (enc_words ws) a) = Inr (ws ! unat i)"
    and "unat i < length ws \<Longrightarrow> getINT16 i normal (view_of fc (enc_words ws) a) = Inr (sint (ws ! unat i))"
proof -
  have v: "ws \<noteq> []" "(of_nat (length (enc_words ws)) :: uint16) \<noteq> 0" "data_type fc \<noteq> invalid_data_type"
    using assms of_nat_uint16_eq [of "2 * length ws" 0] by (auto simp: data_type_def)
  note w = view_of_words [OF v refl, where a = a, folded view_of_def]
  show "buffer_length (view_of fc (enc_words ws) a) = of_nat (2 * length ws)"
    using w(1,2) by (simp add: buffer_length_def)
  show u: "getUINT16 i normal (view_of fc (enc_words ws) a) = Inr (ws ! unat i)" if "unat i < length ws"
    using w(3) [OF that] .
  show "getINT16 i normal (view_of fc (enc_words ws) a) = Inr (sint (ws ! unat i))" if "unat i < length ws"
    using u [OF that] w(1) by (simp add: getINT16_def getUINT16_def res_bind_def split: sum.splits)
qed

lemma expect_words_view:
  assumes "fc \<in> {3, 4}" "length ws = unat n" "0 < unat n" "unat n \<le> 123"
    and "list_all id (expect (view_of fc (enc_words ws) a))"
  shows "list_all id (let data = view_of fc (enc_words ws) a in (buffer_length data = n * 2) # expect data)"
proof -
  have "buffer_length (view_of fc (enc_words ws) a) = n * 2"
    using view_of_registers(1) [OF assms(1), of ws a] assms(2-4) by (simp add: mult.commute)
  with assms(5) show ?thesis by simp
qed

subsection \<open>The tests are sound for their scripts\<close>

lemma coil_steps_sound:
  assumes "modbus_device handler view good 1 allowed" "list_all allowed (map fst coil_script)"
  shows "list_all2 (step_sound view good p) (e2e_run_coil_tests (link_ops handler p)) coil_script"
proof -
  obtain m where m: "new_write_multiple_coils_request_bools 1 256 [False, True, False, True] = Some m"
    using new_bools_packs [of "[False, True, False, True]" 1 256] by auto
  have r: "step_sound view good p (e2e_read_coils (link_ops handler p) 256 es) (Read_coils 256 8, bits_are es)" for es
    unfolding e2e_read_coils_def
    by (rule modbus_device.read_coils_step [OF assms(1)])
      (use assms(2) expect_bits_view [of 1] in \<open>simp_all add: coil_script_def read_coils_response_function_code_def
        new_read_coils_response_def read_coils_response.defs del: bits_are.simps\<close>)
  show ?thesis
    using assms(2) modbus_device.write_single_coil_step [OF assms(1), of 256]
      modbus_device.write_multiple_coils_step [OF assms(1) _ m] r
    by (simp add: e2e_run_coil_tests_def coil_script_def m)
qed

lemma inputs_steps_sound:
  assumes "modbus_device handler view good 1 allowed" "list_all allowed (map fst inputs_script)"
  shows "list_all2 (step_sound view good p) (e2e_run_inputs_tests (link_ops handler p)) inputs_script"
proof -
  have "step_sound view good p (e2e_read_inputs (link_ops handler p) 256 es) (Read_discrete_inputs 256 8, bits_are es)" for es
    unfolding e2e_read_inputs_def
    by (rule modbus_device.read_discrete_inputs_step [OF assms(1)])
      (use assms(2) expect_bits_view [of 2] in \<open>simp_all add: inputs_script_def read_discrete_inputs_response_function_code_def
        new_read_discrete_inputs_response_def read_discrete_inputs_response.defs del: bits_are.simps\<close>)
  then show ?thesis by (simp add: e2e_run_inputs_tests_def inputs_script_def)
qed

lemma holding_steps_sound:
  assumes "modbus_device handler view good 1 allowed" "list_all allowed (map fst holding_script)"
  shows "list_all2 (step_sound view good p) (e2e_run_holding_reg_tests (link_ops handler p)) holding_script"
proof -
  have r: "step_sound view good p (e2e_read_holding (link_ops handler p) a n expect) (Read_holding_registers a n, E)"
    if "allowed (Read_holding_registers a n)" "0 < unat n" "unat n \<le> 123"
      "\<And>ws. length ws = unat n \<Longrightarrow> E (Words ws) \<Longrightarrow> list_all id (expect (view_of 3 (enc_words ws) a))" for a n expect E
    unfolding e2e_read_holding_def
    by (rule modbus_device.read_holding_registers_step [OF assms(1)])
      (use that expect_words_view [of 3] in \<open>simp_all add: read_holding_registers_response_function_code_def
        new_read_holding_registers_response_def read_holding_registers_response.defs\<close>)
  have "step_sound view good p (e2e_read_holding (link_ops handler p) 0 10
      (\<lambda>data. [case getUINT16 9 normal data of Inl _ \<Rightarrow> False | Inr v \<Rightarrow> v \<noteq> 0]))
      (Read_holding_registers 0 10, words_are [(9, \<lambda>v. v \<noteq> 0)])"
    by (rule r) (use assms(2) in \<open>simp_all add: holding_script_def view_of_registers\<close>)
  moreover have "step_sound view good p (e2e_read_holding (link_ops handler p) 20 5
      (\<lambda>data. [getUINT16 0 normal data = Inr 0, getUINT16 1 normal data = Inr 1, getUINT16 2 normal data = Inr 2,
        getUINT16 3 normal data = Inr 3, getUINT16 4 normal data = Inr 4]))
      (Read_holding_registers 20 5, words_are (map (\<lambda>i. (i, \<lambda>v. v = of_nat i)) [0..<5]))"
    by (rule r) (use assms(2) in \<open>simp_all add: holding_script_def view_of_registers\<close>)
  ultimately show ?thesis
    using assms(2) modbus_device.write_single_register_step [OF assms(1), of 9 255]
      modbus_device.write_multiple_registers_step [OF assms(1), of 20 "[0, 1, 2, 3, 4]"]
    by (simp add: e2e_run_holding_reg_tests_def holding_script_def)
qed

lemma input_reg_steps_sound:
  assumes "modbus_device handler view good 1 allowed" "list_all allowed (map fst input_reg_script)"
  shows "list_all2 (step_sound view good p) (e2e_run_input_reg_tests (link_ops handler p)) input_reg_script"
proof -
  have r: "step_sound view good p (e2e_read_input_registers (link_ops handler p) a n expect) (Read_input_registers a n, E)"
    if "allowed (Read_input_registers a n)" "0 < unat n" "unat n \<le> 123"
      "\<And>ws. length ws = unat n \<Longrightarrow> E (Words ws) \<Longrightarrow> list_all id (expect (view_of 4 (enc_words ws) a))" for a n expect E
    unfolding e2e_read_input_registers_def
    by (rule modbus_device.read_input_registers_step [OF assms(1)])
      (use that expect_words_view [of 4] in \<open>simp_all add: read_input_registers_response_function_code_def
        new_read_input_registers_response_def read_input_registers_response.defs\<close>)
  show ?thesis
    unfolding e2e_run_input_reg_tests_def input_reg_script_def list.rel_inject
    by (intro conjI r list.rel_intros) (use assms(2) in \<open>simp_all add: input_reg_script_def view_of_registers\<close>)
qed

lemma e2e_steps_sound:
  assumes "modbus_device handler view good 1 allowed" "list_all allowed (map fst (concat e2e_scripts))"
  shows "list_all2 (list_all2 (step_sound view good p))
    [e2e_run_coil_tests (link_ops handler p), e2e_run_inputs_tests (link_ops handler p),
     e2e_run_holding_reg_tests (link_ops handler p), e2e_run_input_reg_tests (link_ops handler p)] e2e_scripts"
  using assms(2) coil_steps_sound [OF assms(1)] inputs_steps_sound [OF assms(1)] holding_steps_sound [OF assms(1)]
    input_reg_steps_sound [OF assms(1)]
  by (simp add: e2e_scripts_def)

subsection \<open>The tests pass\<close>

text \<open>C11: the end to end tests pass on every MODBUS device. Whatever device answers the requests as the protocol says
  and has the inputs and input registers the tests look for, all expectations of the tests of coils, inputs, holding
  registers and input registers hold, and so they do when the four tests run at the same time on one client, in every
  order of their requests and wherever the timer of \<open>multi_test\<close> cuts them off.\<close>

theorem e2e_tests_pass:
  assumes "modbus_device handler view good 1 allowed" "list_all allowed (map fst (concat e2e_scripts))"
    and "connected p milliseconds_max h cl" "good h" "e2e_memory (view h)"
  shows "passes (in_turn (e2e_run_coil_tests (link_ops handler p))) cl
    \<and> passes (in_turn (e2e_run_inputs_tests (link_ops handler p))) cl
    \<and> passes (in_turn (e2e_run_holding_reg_tests (link_ops handler p))) cl
    \<and> passes (in_turn (e2e_run_input_reg_tests (link_ops handler p))) cl
    \<and> (\<forall>ts \<in> multi_test (link_ops handler p). \<forall>n. passes (in_turn (take n ts)) cl)"
proof -
  note sound = e2e_steps_sound [OF assms(1,2), of p]
  note ok = e2e_scripts_ok [OF assms(5)]
  have "passes (in_turn (take n ts)) cl" if "ts \<in> multi_test (link_ops handler p)" for ts n
    using interleaved_tests_pass [OF that [unfolded multi_test_def] sound e2e_scripts_separate ok assms(3,4)] .
  moreover have "\<And>ts s. list_all2 (step_sound view good p) ts s \<Longrightarrow> script_ok s (view h) \<Longrightarrow> passes (in_turn ts) cl"
    by (rule script_passes [where view = view and good = good, OF _ _ assms(3,4)])
  ultimately show ?thesis using sound ok unfolding e2e_scripts_def by simp blast
qed

text \<open>A device for a concrete run: it knows the requests of the tests and answers them from its memories.\<close>

definition packed :: "bool list \<Rightarrow> buffer_t" where
  "packed bs = (case new_write_multiple_coils_request_bools 1 0 bs of
     None \<Rightarrow> [] | Some m \<Rightarrow> write_multiple_coils_request.vals m)"

fun reply_pdu :: "command \<Rightarrow> reply \<Rightarrow> uint8 list" where
  "reply_pdu (Read_coils a n) (Bits bs) = read_coils_response_encode (new_read_coils_response 1 (packed bs))"
| "reply_pdu (Read_discrete_inputs a n) (Bits bs) =
     read_discrete_inputs_response_encode (new_read_discrete_inputs_response 1 (packed bs))"
| "reply_pdu (Read_holding_registers a n) (Words ws) =
     read_holding_registers_response_encode (new_read_holding_registers_response 1 (enc_words ws))"
| "reply_pdu (Read_input_registers a n) (Words ws) =
     read_input_registers_response_encode (new_read_input_registers_response 1 (enc_words ws))"
| "reply_pdu (Write_coils a bs) r =
     write_multiple_coils_response_encode (new_write_multiple_coils_response 1 a (of_nat (length bs)))"
| "reply_pdu c r = take 6 (command_pdu 1 c)"

definition bench_device :: "device request_handler_t" where
  "bench_device req d =
     (case (transaction_id req,
            find (\<lambda>c. take (length (command_pdu 1 c)) (drop 6 (m_buffer req)) = command_pdu 1 c)
              (map fst (concat e2e_scripts))) of
        (Inr tid, Some c) \<Rightarrow>
          (Inr \<lparr>m_buffer = frame tid (reply_pdu c (fst (device_act c d))), m_type = response\<rparr>, snd (device_act c d))
      | _ \<Rightarrow> (Inl out_of_range, d))"

definition bench_memory :: device where
  "bench_memory = \<lparr>dv_coils = (\<lambda>_. False), dv_inputs = (\<lambda>k. k \<in> {257, 259}), dv_holding = (\<lambda>_. 0),
     dv_input_registers = (\<lambda>k. if k = 0 then 34009 else if k = 9 then 50 else if k = 426 then 57
       else if k = 431 then 26 else 0)\<rparr>"

lemma packs_packed:
  assumes "length bs < 65536"
  shows "packs bs (packed bs)"
proof -
  obtain vs where "new_write_multiple_coils_request_bools 1 0 bs =
      Some (write_multiple_coils_request.make 1 0 (of_nat (length bs)) vs)"
    "length vs = (length bs + 7) div 8" "\<And>k. get_bit vs k \<longleftrightarrow> k < length bs \<and> bs ! k"
    using new_bools_packs [OF assms, of 1 0] by blast
  then show ?thesis by (simp add: packed_def packs_def write_multiple_coils_request.defs)
qed

lemma e2e_pdus:
  "command_pdu 1 (Switch_on 256) = [1, 5, 1, 0, 0xFF, 0]"
  "command_pdu 1 (Read_coils 256 8) = [1, 1, 1, 0, 0, 8]"
  "command_pdu 1 (Write_coils 256 [False, True, False, True]) = [1, 15, 1, 0, 0, 4, 1, 10]"
  "command_pdu 1 (Read_discrete_inputs 256 8) = [1, 2, 1, 0, 0, 8]"
  "command_pdu 1 (Write_register 9 255) = [1, 6, 0, 9, 0, 255]"
  "command_pdu 1 (Read_holding_registers 0 10) = [1, 3, 0, 0, 0, 10]"
  "command_pdu 1 (Write_registers 20 [0, 1, 2, 3, 4]) = [1, 16, 0, 20, 0, 5, 10, 0, 0, 0, 1, 0, 2, 0, 3, 0, 4]"
  "command_pdu 1 (Read_holding_registers 20 5) = [1, 3, 0, 20, 0, 5]"
  "command_pdu 1 (Read_input_registers 0 10) = [1, 4, 0, 0, 0, 10]"
  "command_pdu 1 (Read_input_registers 426 6) = [1, 4, 1, 170, 0, 6]"
  by code_simp+

lemma bench_finds:
  assumes "c \<in> set (map fst (concat e2e_scripts))"
  shows "find (\<lambda>c'. take (length (command_pdu 1 c')) (command_pdu 1 c @ rest) = command_pdu 1 c')
    (map fst (concat e2e_scripts)) = Some c"
  using assms by (auto simp: e2e_scripts_def script_defs e2e_pdus simp del: command_pdu.simps)

lemma bench_replies: "reply_carried 1 c (fst (device_act c d)) (reply_pdu c (fst (device_act c d)))"
proof (cases c)
  case (Read_coils a n)
  then show ?thesis using packs_packed [of "map (dv_coils d) [unat a..<unat a + unat n]"] unsigned_less [of n] by auto
next
  case (Read_discrete_inputs a n)
  then show ?thesis using packs_packed [of "map (dv_inputs d) [unat a..<unat a + unat n]"] unsigned_less [of n] by auto
qed (simp_all add: scq_defs scr_defs srq_defs srr_defs wrq_defs wrr_defs new_write_single_coil_request_def
  new_write_single_coil_response_def new_write_single_register_request_def new_write_single_register_response_def
  new_write_multiple_registers_request_def new_write_multiple_registers_response_def)

lemma bench_answer_size:
  assumes "c \<in> set (map fst (concat e2e_scripts))"
  shows "4 \<le> length (command_pdu 1 c)" "length (command_pdu 1 c) \<le> 250"
    "answer_size c \<le> 250"
proof -
  show "4 \<le> length (command_pdu 1 c)" "length (command_pdu 1 c) \<le> 250"
    using assms by (auto simp: e2e_scripts_def script_defs e2e_pdus simp del: command_pdu.simps)
  show "answer_size c \<le> 250"
    using assms by (auto simp: e2e_scripts_def script_defs)
qed

interpretation bench: modbus_device bench_device "\<lambda>d. d" "\<lambda>_. True" 1 "\<lambda>c. c \<in> set (map fst (concat e2e_scripts))"
proof
  fix c assume c: "c \<in> set (map fst (concat e2e_scripts))"
  show "4 \<le> length (command_pdu 1 c) \<and> length (command_pdu 1 c) \<le> 250 \<and> answer_size c \<le> 250" using bench_answer_size [OF c] by blast
  fix d tid
  have "answers bench_device (frame tid (command_pdu 1 c)) d
      \<lparr>m_buffer = frame tid (reply_pdu c (fst (device_act c d))), m_type = response\<rparr> (snd (device_act c d))"
    using bench_finds [OF c] by (simp add: answers_def bench_device_def frame_def del: set_map)
  then show "answers_as bench_device (\<lambda>d. d) (\<lambda>_. True) 1 c d tid"
    by (rule answers_asI) (use bench_replies in simp_all)
qed

theorem e2e_tests_pass_witness:
  "passes (in_turn (e2e_run_holding_reg_tests (link_ops bench_device 1))) (test_client bench_device bench_memory 0 5020)
   \<and> passes (in_turn (take 12 (splice (e2e_run_coil_tests (link_ops bench_device 1))
       (splice (e2e_run_inputs_tests (link_ops bench_device 1)) (splice (e2e_run_holding_reg_tests (link_ops bench_device 1))
         (e2e_run_input_reg_tests (link_ops bench_device 1)))))))
     (test_client bench_device bench_memory 0 5020)"
  (is "?holding \<and> passes (in_turn (take 12 ?ts)) ?cl")
proof -
  have "e2e_memory bench_memory" by (simp add: e2e_memory_def bench_memory_def upt_conv_Cons)
  moreover have "list_all (\<lambda>c. c \<in> set (map fst (concat e2e_scripts))) (map fst (concat e2e_scripts))"
    by (simp add: list_all_iff)
  ultimately have "?holding" "\<forall>ts \<in> multi_test (link_ops bench_device 1). \<forall>n. passes (in_turn (take n ts)) ?cl"
    using e2e_tests_pass [OF bench.modbus_device_axioms _ test_client_connected] by simp_all
  moreover have "?ts \<in> multi_test (link_ops bench_device 1)"
    unfolding multi_test_def interleavings.simps by (auto intro!: bexI)
  ultimately show ?thesis by blast
qed

text \<open>The example server with a memory of coils that is large enough passes the test of coils.\<close>

lemma e2e_coil_tests_on_example_server:
  assumes "example_ok valid h" "list_all (example_allowed valid) (map fst coil_script)" "connected p milliseconds_max h cl"
  shows "passes (in_turn (e2e_run_coil_tests (link_ops request_handler_call p))) cl"
proof (rule script_passes [OF coil_steps_sound [OF example_device.modbus_device_axioms assms(2)] _ assms(3,1)])
  show "script_ok coil_script (device_of h)" by (simp add: coil_script_def overlay_def upt_conv_Cons)
qed

text \<open>The example server of the repository is no device for these tests: the bitmap of the five registers from
  address 20, which the test of holding registers writes, needs an entry of the mask table that does not exist, so
  the request is undefined behaviour in the server, whatever its memories are.\<close>

lemma e2e_holding_test_undefined:
  "request_handler_call \<lparr>m_buffer = frame tid (command_pdu 1 (Write_registers 20 [0, 1, 2, 3, 4])) @ rest, m_type = request\<rparr> h =
     (Inl undefined_behaviour, h)"
proof -
  let ?q = "new_write_multiple_registers_request 1 20 5 [0, 1, 2, 3, 4]"
  let ?req = "\<lparr>m_buffer = frame tid (write_multiple_registers_request_encode ?q) @ rest, m_type = request\<rparr>"
  have req: "?req = \<lparr>m_buffer = mbap tid (write_multiple_registers_request_size ?q)
      @ write_multiple_registers_request_encode ?q @ rest, m_type = request\<rparr>"
    by (simp add: frame_def wrq.length_encode)
  have p: "pdu write_multiple_registers_request_function_code request write_multiple_registers_request_of_iterator ?req =
      Inr (Some ?q)"
    unfolding req by (rule wrq.pdu_received)
      (simp add: new_write_multiple_registers_request_def write_multiple_registers_request.defs)
  have b: "create_request_bit_map 20 5 = Inl undefined_behaviour" by code_simp
  have "handle_request ?req h = Inl undefined_behaviour"
    unfolding wrq_served.branch [OF wrq.received_fields [OF req]] with_legal_request_def p
    using b by (simp add: res_bind_def new_write_multiple_registers_request_def write_multiple_registers_request.defs)
  then show ?thesis by (simp add: request_handler_call_def)
qed

end
