(* ===== verification/Message_Tests.thy ===== *)
theory Message_Tests
  imports Modbus_Requests Modbus_Responses
begin

text \<open>
  The tests of test/request_test.cpp, test/response_test.cpp and test/tcp_data_unit_test.cpp. A test is the list of
  the values of its expectations. \<open>message_test\<close> and \<open>units_test\<close> are what the tests of a message class and the
  tests of a data unit with a message have in common.
\<close>

subsection \<open>What the tests have in common\<close>

text \<open>A message, the messages it differs from, and its bytes.\<close>

definition message_test ::
  "('m \<Rightarrow> 'm \<Rightarrow> bool) \<Rightarrow> ('m \<Rightarrow> 'm \<Rightarrow> bool) \<Rightarrow> ('m \<Rightarrow> nat) \<Rightarrow> ('m \<Rightarrow> buffer_iterator \<Rightarrow> buffer_iterator option) \<Rightarrow>
   (const_buffer_iterator \<Rightarrow> 'm option) \<Rightarrow> 'm \<Rightarrow> 'm list \<Rightarrow> buffer_t \<Rightarrow> bool list" where
  "message_test eq ne size_of serialize of_iterator m nes data =
     [eq m m] @ map (ne m) nes
     @ [size_of m = length data,
        map_option fst (serialize m (vec_resize [] (size_of m), 0)) = Some data,
        (case of_iterator (data, 0) of None \<Rightarrow> False | Some m' \<Rightarrow> eq m' m)]"

text \<open>A data unit that has been built in one of three ways: from the message, from a buffer, or from a header and a
  payload.\<close>

definition unit_test ::
  "('m \<Rightarrow> 'm \<Rightarrow> bool) \<Rightarrow> (tcp_data_unit \<Rightarrow> 'm option result) \<Rightarrow> (tcp_data_unit \<Rightarrow> 'n option result) \<Rightarrow> uint16 \<Rightarrow> nat \<Rightarrow>
   uint8 \<Rightarrow> 'm \<Rightarrow> buffer_t \<Rightarrow> tcp_data_unit result \<Rightarrow> bool list" where
  "unit_test eq own other tid n u m data r = (case r of
     Inl _ \<Rightarrow> [False]
   | Inr du \<Rightarrow>
       [transaction_id du = Inr tid, message_length du = Inr (of_nat n), unit_id_of du = Inr u,
        (case own du of Inr (Some m2) \<Rightarrow> eq m m2 | _ \<Rightarrow> False),
        (case other du of Inr None \<Rightarrow> True | _ \<Rightarrow> False), du_buffer du = data])"

definition units_test ::
  "('m \<Rightarrow> 'm \<Rightarrow> bool) \<Rightarrow> ('m \<Rightarrow> nat) \<Rightarrow> ('m \<Rightarrow> buffer_iterator \<Rightarrow> buffer_iterator option) \<Rightarrow> message_type \<Rightarrow>
   (tcp_data_unit \<Rightarrow> 'm option result) \<Rightarrow> ('m \<Rightarrow> uint8) \<Rightarrow> (tcp_data_unit \<Rightarrow> 'n option result) \<Rightarrow> uint16 \<Rightarrow> 'm \<Rightarrow>
   buffer_t \<Rightarrow> buffer_t \<Rightarrow> bool list" where
  "units_test eq size_of serialize ty own unit other tid m header payload =
     (let data = header @ payload; check = unit_test eq own other tid (size_of m) (unit m) m data
      in check (ub (tcp_data_unit_of_pdu size_of serialize ty tid m))
         @ check (tcp_data_unit_of_buffer data (of_nat (length data)) ty)
         @ check (tcp_data_unit_of_header_payload header payload (of_nat (length payload)) ty))"

definition empty_unit_test :: "bool list" where
  "empty_unit_test =
     [is_exception tcp_data_unit_empty = Inl out_of_range, exception_code_of tcp_data_unit_empty = Inl out_of_range,
      transaction_id tcp_data_unit_empty = Inl out_of_range, message_length tcp_data_unit_empty = Inl out_of_range,
      unit_id_of tcp_data_unit_empty = Inl out_of_range, function_code tcp_data_unit_empty = Inl out_of_range]"

subsection \<open>request_test.cpp\<close>

definition read_coils_request_test :: "bool list" where
  "read_coils_request_test =
     (let m = new_read_coils_request 17 19 37
      in [read_coils_request.unit_id m = 17, read_coils_request.start_address m = 19,
          read_coils_request.len m = 37, read_coils_request_function_code = function_code_value read_coils,
          read_coils_request_type = request]
         @ message_test read_coils_request_eq read_coils_request_ne
             read_coils_request_size read_coils_request_serialize
             read_coils_request_of_iterator m
             [new_read_coils_request 2 19 37, new_read_coils_request 17 20 37, new_read_coils_request 17 19 38]
             [0x11, 0x01, 0x00, 0x13, 0x00, 0x25])"

definition read_discrete_inputs_request_test :: "bool list" where
  "read_discrete_inputs_request_test =
     (let m = new_read_discrete_inputs_request 17 196 22
      in [read_discrete_inputs_request.unit_id m = 17, read_discrete_inputs_request.start_address m = 196,
          read_discrete_inputs_request.len m = 22,
          read_discrete_inputs_request_function_code = function_code_value read_discrete_inputs,
          read_discrete_inputs_request_type = request]
         @ message_test read_discrete_inputs_request_eq read_discrete_inputs_request_ne
             read_discrete_inputs_request_size read_discrete_inputs_request_serialize
             read_discrete_inputs_request_of_iterator m
             [new_read_discrete_inputs_request 18 196 22, new_read_discrete_inputs_request 17 197 22,
              new_read_discrete_inputs_request 17 196 23]
             [0x11, 0x02, 0x00, 0xC4, 0x00, 0x16])"

definition read_holding_registers_request_test :: "bool list" where
  "read_holding_registers_request_test =
     (let m = new_read_holding_registers_request 17 107 3
      in [read_holding_registers_request.unit_id m = 17, read_holding_registers_request.start_address m = 107,
          read_holding_registers_request.len m = 3,
          read_holding_registers_request_function_code = function_code_value read_holding_registers,
          read_holding_registers_request_type = request]
         @ message_test read_holding_registers_request_eq read_holding_registers_request_ne
             read_holding_registers_request_size read_holding_registers_request_serialize
             read_holding_registers_request_of_iterator m
             [new_read_holding_registers_request 18 107 3, new_read_holding_registers_request 17 108 3,
              new_read_holding_registers_request 17 107 4]
             [0x11, 0x03, 0x00, 0x6B, 0x00, 0x03])"

definition read_input_registers_request_test :: "bool list" where
  "read_input_registers_request_test =
     (let m = new_read_input_registers_request 17 8 1
      in [read_input_registers_request.unit_id m = 17, read_input_registers_request.start_address m = 8,
          read_input_registers_request.len m = 1,
          read_input_registers_request_function_code = function_code_value read_input_registers,
          read_input_registers_request_type = request]
         @ message_test read_input_registers_request_eq read_input_registers_request_ne
             read_input_registers_request_size read_input_registers_request_serialize
             read_input_registers_request_of_iterator m
             [new_read_input_registers_request 18 8 1, new_read_input_registers_request 17 9 1,
              new_read_input_registers_request 17 8 2]
             [0x11, 0x04, 0x00, 0x08, 0x00, 0x01])"

definition write_single_coil_request_test :: "bool list" where
  "write_single_coil_request_test =
     (let m = new_write_single_coil_request 17 172 True
      in [write_single_coil_request.unit_id m = 17, write_single_coil_request.start_address m = 172,
          write_single_coil_request.coil_value m = True,
          write_single_coil_request_function_code = function_code_value write_single_coil,
          write_single_coil_request_type = request]
         @ message_test write_single_coil_request_eq write_single_coil_request_ne
             write_single_coil_request_size write_single_coil_request_serialize
             write_single_coil_request_of_iterator m
             [new_write_single_coil_request 18 172 True, new_write_single_coil_request 17 173 True,
              new_write_single_coil_request 17 172 False]
             [0x11, 0x05, 0x00, 0xAC, 0xFF, 0x00])"

definition write_single_register_request_test :: "bool list" where
  "write_single_register_request_test =
     (let m = new_write_single_register_request 17 1 3
      in [write_single_register_request.unit_id m = 17, write_single_register_request.start_address m = 1,
          write_single_register_request.reg_value m = 3,
          write_single_register_request_function_code = function_code_value write_single_register,
          write_single_register_request_type = request]
         @ message_test write_single_register_request_eq write_single_register_request_ne
             write_single_register_request_size write_single_register_request_serialize
             write_single_register_request_of_iterator m
             [new_write_single_register_request 18 1 3, new_write_single_register_request 17 2 3,
              new_write_single_register_request 17 1 4]
             [0x11, 0x06, 0x00, 0x01, 0x00, 0x03])"

definition write_multiple_coils_request_test :: "bool list" where
  "write_multiple_coils_request_test =
     (let m = new_write_multiple_coils_request 17 19 10 [0xCD, 0x01]
      in [write_multiple_coils_request.unit_id m = 17, write_multiple_coils_request.start_address m = 19,
          write_multiple_coils_request.len m = 10,
          write_multiple_coils_request_function_code = function_code_value write_multiple_coils,
          write_multiple_coils_request_type = request]
         @ message_test write_multiple_coils_request_eq write_multiple_coils_request_ne
             write_multiple_coils_request_size write_multiple_coils_request_serialize
             write_multiple_coils_request_of_iterator m
             [new_write_multiple_coils_request 18 19 10 [0xCD, 0x01],
              new_write_multiple_coils_request 17 20 10 [0xCD, 0x01],
              new_write_multiple_coils_request 17 19 11 [0xCD, 0x01],
              new_write_multiple_coils_request 17 19 10 [0xCD, 0x02]]
             [0x11, 0x0F, 0x00, 0x13, 0x00, 0x0A, 0x02, 0xCD, 0x01])"

definition write_multiple_registers_request_test :: "bool list" where
  "write_multiple_registers_request_test =
     (let m = new_write_multiple_registers_request 17 1 2 [10, 258]
      in [write_multiple_registers_request.unit_id m = 17,
          write_multiple_registers_request.start_address m = 1, write_multiple_registers_request.len m = 2,
          write_multiple_registers_request_function_code = function_code_value write_multiple_registers,
          write_multiple_registers_request_type = request]
         @ message_test write_multiple_registers_request_eq write_multiple_registers_request_ne
             write_multiple_registers_request_size write_multiple_registers_request_serialize
             write_multiple_registers_request_of_iterator m
             [new_write_multiple_registers_request 18 1 2 [11, 258],
              new_write_multiple_registers_request 17 2 2 [11, 258],
              new_write_multiple_registers_request 17 1 3 [11, 258],
              new_write_multiple_registers_request 17 1 2 [11, 259]]
             [0x11, 0x10, 0x00, 0x01, 0x00, 0x02, 0x04, 0x00, 0x0A, 0x01, 0x02])"

definition mask_write_register_request_test :: "bool list" where
  "mask_write_register_request_test =
     (let m = new_mask_write_register_request 17 4 0x00F2 0x0025
      in [mask_write_register_request.unit_id m = 17, mask_write_register_request.start_address m = 4,
          mask_write_register_request.and_mask m = 0x00F2, mask_write_register_request.or_mask m = 0x0025,
          mask_write_register_request_function_code = function_code_value mask_write_register,
          mask_write_register_request_type = request]
         @ message_test mask_write_register_request_eq mask_write_register_request_ne
             mask_write_register_request_size mask_write_register_request_serialize
             mask_write_register_request_of_iterator m
             [new_mask_write_register_request 18 4 0x00F2 0x0025,
              new_mask_write_register_request 17 5 0x00F2 0x0025,
              new_mask_write_register_request 17 4 0x00F3 0x0025,
              new_mask_write_register_request 17 4 0x00F2 0x0026]
             [0x11, 0x16, 0x00, 0x04, 0x00, 0xF2, 0x00, 0x25])"

definition read_write_registers_request_test :: "bool list" where
  "read_write_registers_request_test =
     (let m = new_read_write_registers_request 17 4 6 15 [0x00FF, 0x00FF, 0x00FF]
      in [read_write_registers_request.unit_id m = 17, read_write_registers_request.read_start_address m = 4,
          read_write_registers_request.read_num_registers m = 6,
          read_write_registers_request.write_start_address m = 15,
          read_write_registers_request_function_code = function_code_value read_write_multiple_registers,
          read_write_registers_request_type = request]
         @ message_test read_write_registers_request_eq read_write_registers_request_ne
             read_write_registers_request_size read_write_registers_request_serialize
             read_write_registers_request_of_iterator m
             [new_read_write_registers_request 18 4 6 15 [0x00FF, 0x00FF, 0x00FF],
              new_read_write_registers_request 17 5 6 15 [0x00FF, 0x00FF, 0x00FF],
              new_read_write_registers_request 17 4 7 15 [0x00FF, 0x00FF, 0x00FF],
              new_read_write_registers_request 17 4 6 16 [0x00FF, 0x00FF, 0x00FF],
              new_read_write_registers_request 17 4 6 16 [0x00FF, 0x00FF],
              new_read_write_registers_request 17 4 6 16 [0x00FE, 0x00FF, 0x00FF]]
             [0x11, 0x17, 0x00, 0x04, 0x00, 0x06, 0x00, 0x0F, 0x00, 0x03, 0x06, 0x00, 0xFF, 0x00, 0xFF, 0x00,
              0xFF])"

subsection \<open>response_test.cpp\<close>

definition read_coils_response_test :: "bool list" where
  "read_coils_response_test =
     (let m = new_read_coils_response 17 [0xCD, 0x6B, 0xB2, 0x0E, 0x1B]
      in [read_coils_response.unit_id m = 17,
          read_coils_response_function_code = function_code_value read_coils,
          read_coils_response_type = response]
         @ message_test read_coils_response_eq read_coils_response_ne
             read_coils_response_size read_coils_response_serialize
             read_coils_response_of_iterator m
             [new_read_coils_response 18 [0xCD, 0x6B, 0xB2, 0x0E, 0x1B],
              new_read_coils_response 17 [0xC1, 0x6B, 0xB2, 0x0E, 0x1B]]
             [0x11, 0x01, 0x05, 0xCD, 0x6B, 0xB2, 0x0E, 0x1B])"

definition read_discrete_inputs_response_test :: "bool list" where
  "read_discrete_inputs_response_test =
     (let m = new_read_discrete_inputs_response 17 [0xAC, 0xDB, 0x35]
      in [read_discrete_inputs_response.unit_id m = 17,
          read_discrete_inputs_response_function_code = function_code_value read_discrete_inputs,
          read_discrete_inputs_response_type = response]
         @ message_test read_discrete_inputs_response_eq read_discrete_inputs_response_ne
             read_discrete_inputs_response_size read_discrete_inputs_response_serialize
             read_discrete_inputs_response_of_iterator m
             [new_read_discrete_inputs_response 18 [0xAC, 0xDB, 0x35],
              new_read_discrete_inputs_response 17 [0xA1, 0xDB, 0x35]]
             [0x11, 0x02, 0x03, 0xAC, 0xDB, 0x35])"

definition read_holding_registers_response_test :: "bool list" where
  "read_holding_registers_response_test =
     (let m = new_read_holding_registers_response 17 [0x02, 0x2B, 0x00, 0x00, 0x00, 0x64]
      in [read_holding_registers_response.unit_id m = 17,
          read_holding_registers_response_function_code = function_code_value read_holding_registers,
          read_holding_registers_response_type = response]
         @ [read_holding_registers_response_eq m
              (new_read_holding_registers_response_words 17 [0x022B, 0x0000, 0x0064])]
         @ message_test read_holding_registers_response_eq read_holding_registers_response_ne
             read_holding_registers_response_size read_holding_registers_response_serialize
             read_holding_registers_response_of_iterator m
             [new_read_holding_registers_response_words 18 [0x022B, 0x0000, 0x0064],
              new_read_holding_registers_response_words 17 [0x0221, 0x0000, 0x0064]]
             [0x11, 0x03, 0x06, 0x02, 0x2B, 0x00, 0x00, 0x00, 0x64])"

definition read_input_registers_response_test :: "bool list" where
  "read_input_registers_response_test =
     (let m = new_read_input_registers_response 17 [0x00, 0x0A]
      in [read_input_registers_response.unit_id m = 17,
          read_input_registers_response_function_code = function_code_value read_input_registers,
          read_input_registers_response_type = response]
         @ [read_input_registers_response_eq m
              (new_read_input_registers_response_words 17 [0x000A])]
         @ message_test read_input_registers_response_eq read_input_registers_response_ne
             read_input_registers_response_size read_input_registers_response_serialize
             read_input_registers_response_of_iterator m
             [new_read_input_registers_response_words 18 [0x000A],
              new_read_input_registers_response_words 17 [0x001A]]
             [0x11, 0x04, 0x02, 0x00, 0x0A])"

definition write_single_coil_response_test :: "bool list" where
  "write_single_coil_response_test =
     (let m = new_write_single_coil_response 17 172 True
      in [write_single_coil_response.unit_id m = 17, write_single_coil_response.start_address m = 172,
          write_single_coil_response.coil_value m = True,
          write_single_coil_response_function_code = function_code_value write_single_coil,
          write_single_coil_response_type = response]
         @ message_test write_single_coil_response_eq write_single_coil_response_ne
             write_single_coil_response_size write_single_coil_response_serialize
             write_single_coil_response_of_iterator m
             [new_write_single_coil_response 18 172 True, new_write_single_coil_response 17 173 True,
              new_write_single_coil_response 17 172 False]
             [0x11, 0x05, 0x00, 0xAC, 0xFF, 0x00])"

definition write_single_register_response_test :: "bool list" where
  "write_single_register_response_test =
     (let m = new_write_single_register_response 17 1 3
      in [write_single_register_response.unit_id m = 17, write_single_register_response.start_address m = 1,
          write_single_register_response.reg_value m = 3,
          write_single_register_response_function_code = function_code_value write_single_register,
          write_single_register_response_type = response]
         @ message_test write_single_register_response_eq write_single_register_response_ne
             write_single_register_response_size write_single_register_response_serialize
             write_single_register_response_of_iterator m
             [new_write_single_register_response 18 1 3, new_write_single_register_response 17 2 3,
              new_write_single_register_response 17 1 4]
             [0x11, 0x06, 0x00, 0x01, 0x00, 0x03])"

definition write_multiple_coils_response_test :: "bool list" where
  "write_multiple_coils_response_test =
     (let m = new_write_multiple_coils_response 17 19 10
      in [write_multiple_coils_response.unit_id m = 17, write_multiple_coils_response.start_address m = 19,
          write_multiple_coils_response.len m = 10,
          write_multiple_coils_response_function_code = function_code_value write_multiple_coils,
          write_multiple_coils_response_type = response]
         @ message_test write_multiple_coils_response_eq write_multiple_coils_response_ne
             write_multiple_coils_response_size write_multiple_coils_response_serialize
             write_multiple_coils_response_of_iterator m
             [new_write_multiple_coils_response 18 19 10, new_write_multiple_coils_response 17 20 10,
              new_write_multiple_coils_response 17 19 11]
             [0x11, 0x0F, 0x00, 0x13, 0x00, 0x0A])"

definition write_multiple_registers_response_test :: "bool list" where
  "write_multiple_registers_response_test =
     (let m = new_write_multiple_registers_response 17 1 2
      in [write_multiple_registers_response.unit_id m = 17,
          write_multiple_registers_response.start_address m = 1, write_multiple_registers_response.len m = 2,
          write_multiple_registers_response_function_code = function_code_value write_multiple_registers,
          write_multiple_registers_response_type = response]
         @ message_test write_multiple_registers_response_eq write_multiple_registers_response_ne
             write_multiple_registers_response_size write_multiple_registers_response_serialize
             write_multiple_registers_response_of_iterator m
             [new_write_multiple_registers_response 18 1 2, new_write_multiple_registers_response 17 2 2,
              new_write_multiple_registers_response 17 1 3]
             [0x11, 0x10, 0x00, 0x01, 0x00, 0x02])"

definition mask_write_register_response_test :: "bool list" where
  "mask_write_register_response_test =
     (let m = new_mask_write_register_response 17 4 0x00F2 0x0025
      in [mask_write_register_response.unit_id m = 17, mask_write_register_response.start_address m = 4,
          mask_write_register_response.and_mask m = 0x00F2, mask_write_register_response.or_mask m = 0x0025,
          mask_write_register_response_function_code = function_code_value mask_write_register,
          mask_write_register_response_type = response]
         @ message_test mask_write_register_response_eq mask_write_register_response_ne
             mask_write_register_response_size mask_write_register_response_serialize
             mask_write_register_response_of_iterator m
             [new_mask_write_register_response 18 4 0x00F2 0x0025,
              new_mask_write_register_response 17 5 0x00F2 0x0025,
              new_mask_write_register_response 17 4 0x00F3 0x0025,
              new_mask_write_register_response 17 4 0x00F2 0x0026]
             [0x11, 0x16, 0x00, 0x04, 0x00, 0xF2, 0x00, 0x25])"

definition read_write_registers_response_test :: "bool list" where
  "read_write_registers_response_test =
     (let m = new_read_write_registers_response 17 [0x00FE, 0x0ACD, 0x0001, 0x0003, 0x000D, 0x00FF]
      in [read_write_registers_response.unit_id m = 17,
          read_write_registers_response_function_code = function_code_value read_write_multiple_registers,
          read_write_registers_response_type = response]
         @ message_test read_write_registers_response_eq read_write_registers_response_ne
             read_write_registers_response_size read_write_registers_response_serialize
             read_write_registers_response_of_iterator m
             [new_read_write_registers_response 18 [0x00FE, 0x0ACD, 0x0001, 0x0003, 0x000D, 0x00FF],
              new_read_write_registers_response 17 [0x01FE, 0x0ACD, 0x0001, 0x0003, 0x000D, 0x00FF]]
             [17, 0x17, 0x0C, 0x00, 0xFE, 0x0A, 0xCD, 0x00, 0x01, 0x00, 0x03, 0x00, 0x0D, 0x00, 0xFF])"

definition exception_response_test :: "bool list" where
  "exception_response_test =
     (let m = new_exception_response 17 (function_code_value read_coils) (exception_code_value illegal_data_address)
      in [exception_response.unit_id m = 17, func_code m = (function_code_value read_coils),
          exception_response_type = response,
          exception_response.exception_code m = exception_code_value illegal_data_address]
         @ message_test exception_response_eq exception_response_ne
             exception_response_size exception_response_serialize
             exception_response_of_iterator m
             [new_exception_response 18 (function_code_value read_coils) (exception_code_value illegal_data_address),
              new_exception_response 17 (function_code_value read_discrete_inputs) (exception_code_value illegal_data_address),
              new_exception_response 17 (function_code_value read_coils) (exception_code_value illegal_function)]
             [0x11, 0x81, 0x02])"

subsection \<open>tcp_data_unit_test.cpp\<close>

definition read_coils_request_units_test :: "bool list" where
  "read_coils_request_units_test =
     units_test read_coils_request_eq read_coils_request_size
       read_coils_request_serialize read_coils_request_type
       (pdu read_coils_request_function_code read_coils_request_type
          read_coils_request_of_iterator)
       read_coils_request.unit_id
       (pdu read_discrete_inputs_request_function_code read_discrete_inputs_request_type
          read_discrete_inputs_request_of_iterator)
       0x0001 (new_read_coils_request 17 19 37)
       [0x00, 0x01, 0x00, 0x00, 0x00, 0x06]
       [0x11, 0x01, 0x00, 0x13, 0x00, 0x25]"

definition read_discrete_inputs_request_units_test :: "bool list" where
  "read_discrete_inputs_request_units_test =
     units_test read_discrete_inputs_request_eq read_discrete_inputs_request_size
       read_discrete_inputs_request_serialize read_discrete_inputs_request_type
       (pdu read_discrete_inputs_request_function_code read_discrete_inputs_request_type
          read_discrete_inputs_request_of_iterator)
       read_discrete_inputs_request.unit_id
       (pdu read_coils_request_function_code read_coils_request_type
          read_coils_request_of_iterator)
       0x0002 (new_read_discrete_inputs_request 11 196 22)
       [0x00, 0x02, 0x00, 0x00, 0x00, 0x06]
       [0x0B, 0x02, 0x00, 0xC4, 0x00, 0x16]"

definition read_holding_registers_request_units_test :: "bool list" where
  "read_holding_registers_request_units_test =
     units_test read_holding_registers_request_eq read_holding_registers_request_size
       read_holding_registers_request_serialize read_holding_registers_request_type
       (pdu read_holding_registers_request_function_code read_holding_registers_request_type
          read_holding_registers_request_of_iterator)
       read_holding_registers_request.unit_id
       (pdu read_coils_request_function_code read_coils_request_type
          read_coils_request_of_iterator)
       0x0003 (new_read_holding_registers_request 12 107 3)
       [0x00, 0x03, 0x00, 0x00, 0x00, 0x06]
       [0x0C, 0x03, 0x00, 0x6B, 0x00, 0x03]"

definition read_input_registers_request_units_test :: "bool list" where
  "read_input_registers_request_units_test =
     units_test read_input_registers_request_eq read_input_registers_request_size
       read_input_registers_request_serialize read_input_registers_request_type
       (pdu read_input_registers_request_function_code read_input_registers_request_type
          read_input_registers_request_of_iterator)
       read_input_registers_request.unit_id
       (pdu read_coils_request_function_code read_coils_request_type
          read_coils_request_of_iterator)
       0x0004 (new_read_input_registers_request 12 8 1)
       [0x00, 0x04, 0x00, 0x00, 0x00, 0x06]
       [0x0C, 0x04, 0x00, 0x08, 0x00, 0x01]"

definition write_single_coil_request_units_test :: "bool list" where
  "write_single_coil_request_units_test =
     units_test write_single_coil_request_eq write_single_coil_request_size
       write_single_coil_request_serialize write_single_coil_request_type
       (pdu write_single_coil_request_function_code write_single_coil_request_type
          write_single_coil_request_of_iterator)
       write_single_coil_request.unit_id
       (pdu read_coils_request_function_code read_coils_request_type
          read_coils_request_of_iterator)
       0x0005 (new_write_single_coil_request 12 172 True)
       [0x00, 0x05, 0x00, 0x00, 0x00, 0x06]
       [0x0C, 0x05, 0x00, 0xAC, 0xFF, 0x00]"

definition write_single_register_request_units_test :: "bool list" where
  "write_single_register_request_units_test =
     units_test write_single_register_request_eq write_single_register_request_size
       write_single_register_request_serialize write_single_register_request_type
       (pdu write_single_register_request_function_code write_single_register_request_type
          write_single_register_request_of_iterator)
       write_single_register_request.unit_id
       (pdu read_coils_request_function_code read_coils_request_type
          read_coils_request_of_iterator)
       0x0006 (new_write_single_register_request 17 1 3)
       [0x00, 0x06, 0x00, 0x00, 0x00, 0x06]
       [0x11, 0x06, 0x00, 0x01, 0x00, 0x03]"

definition write_multiple_coils_request_units_test :: "bool list" where
  "write_multiple_coils_request_units_test =
     units_test write_multiple_coils_request_eq write_multiple_coils_request_size
       write_multiple_coils_request_serialize write_multiple_coils_request_type
       (pdu write_multiple_coils_request_function_code write_multiple_coils_request_type
          write_multiple_coils_request_of_iterator)
       write_multiple_coils_request.unit_id
       (pdu read_coils_request_function_code read_coils_request_type
          read_coils_request_of_iterator)
       0x000F (new_write_multiple_coils_request 17 19 10 [0xCD, 0x01])
       [0x00, 0x0F, 0x00, 0x00, 0x00, 0x09]
       [0x11, 0x0F, 0x00, 0x13, 0x00, 0x0A, 0x02, 0xCD, 0x01]"

definition write_multiple_registers_request_units_test :: "bool list" where
  "write_multiple_registers_request_units_test =
     units_test write_multiple_registers_request_eq write_multiple_registers_request_size
       write_multiple_registers_request_serialize write_multiple_registers_request_type
       (pdu write_multiple_registers_request_function_code write_multiple_registers_request_type
          write_multiple_registers_request_of_iterator)
       write_multiple_registers_request.unit_id
       (pdu read_coils_request_function_code read_coils_request_type
          read_coils_request_of_iterator)
       0x000F (new_write_multiple_registers_request 17 1 2 [10, 258])
       [0x00, 0x0F, 0x00, 0x00, 0x00, 0x0B]
       [0x11, 0x10, 0x00, 0x01, 0x00, 0x02, 0x04, 0x00, 0x0A, 0x01, 0x02]"

definition mask_write_register_request_units_test :: "bool list" where
  "mask_write_register_request_units_test =
     units_test mask_write_register_request_eq mask_write_register_request_size
       mask_write_register_request_serialize mask_write_register_request_type
       (pdu mask_write_register_request_function_code mask_write_register_request_type
          mask_write_register_request_of_iterator)
       mask_write_register_request.unit_id
       (pdu read_coils_request_function_code read_coils_request_type
          read_coils_request_of_iterator)
       0x0016 (new_mask_write_register_request 17 4 0x00F2 0x0025)
       [0x00, 0x16, 0x00, 0x00, 0x00, 0x08]
       [0x11, 0x16, 0x00, 0x04, 0x00, 0xF2, 0x00, 0x25]"

definition read_write_registers_request_units_test :: "bool list" where
  "read_write_registers_request_units_test =
     units_test read_write_registers_request_eq read_write_registers_request_size
       read_write_registers_request_serialize read_write_registers_request_type
       (pdu read_write_registers_request_function_code read_write_registers_request_type
          read_write_registers_request_of_iterator)
       read_write_registers_request.unit_id
       (pdu read_coils_request_function_code read_coils_request_type
          read_coils_request_of_iterator)
       0x0017 (new_read_write_registers_request 17 4 6 15 [0x00FF, 0x00FF, 0x00FF])
       [0x00, 0x17, 0x00, 0x00, 0x00, 0x11]
       [0x11, 0x17, 0x00, 0x04, 0x00, 0x06, 0x00, 0x0F, 0x00, 0x03, 0x06, 0x00, 0xFF, 0x00, 0xFF, 0x00, 0xFF]"

definition exception_response_units_test :: "bool list" where
  "exception_response_units_test =
     units_test exception_response_eq exception_response_size
       exception_response_serialize exception_response_type
       (pdu_exception exception_response_type exception_response_of_iterator)
       exception_response.unit_id
       (pdu read_coils_request_function_code read_coils_request_type
          read_coils_request_of_iterator)
       0x0017 (new_exception_response 17 (function_code_value read_coils) (exception_code_value illegal_data_address))
       [0x00, 0x17, 0x00, 0x00, 0x00, 0x03]
       [0x11, 0x81, 0x02]"

subsection \<open>The tests pass\<close>

definition request_tests :: "bool list list" where
  "request_tests =
     [read_coils_request_test, read_discrete_inputs_request_test, read_holding_registers_request_test,
      read_input_registers_request_test, write_single_coil_request_test, write_single_register_request_test,
      write_multiple_coils_request_test, write_multiple_registers_request_test,
      mask_write_register_request_test, read_write_registers_request_test]"

lemma request_tests_pass: "list_all (list_all id) request_tests"
  by code_simp

definition response_tests :: "bool list list" where
  "response_tests =
     [read_coils_response_test, read_discrete_inputs_response_test, read_holding_registers_response_test,
      read_input_registers_response_test, write_single_coil_response_test, write_single_register_response_test,
      write_multiple_coils_response_test, write_multiple_registers_response_test,
      mask_write_register_response_test, read_write_registers_response_test, exception_response_test]"

lemma response_tests_pass: "list_all (list_all id) response_tests"
  by code_simp

definition data_unit_tests :: "bool list list" where
  "data_unit_tests =
     [empty_unit_test, read_coils_request_units_test, read_discrete_inputs_request_units_test,
      read_holding_registers_request_units_test, read_input_registers_request_units_test,
      write_single_coil_request_units_test, write_single_register_request_units_test,
      write_multiple_coils_request_units_test, write_multiple_registers_request_units_test,
      mask_write_register_request_units_test, read_write_registers_request_units_test,
      exception_response_units_test]"

lemma data_unit_tests_pass: "list_all (list_all id) data_unit_tests"
  by code_simp

end
