(* ===== verification/Helper_Tests.thy ===== *)
theory Helper_Tests
  imports Message_Tests Server_Helper Modbus_Response
begin

text \<open>
  The tests of test/legal_address_test.cpp, test/bit_operations_test.cpp, test/register_operations_test.cpp and
  test/response_data_test.cpp, and the outcome of all unit tests of the library.
\<close>

subsection \<open>legal_address_test.cpp\<close>

definition create_bitmap_test :: "bool list" where
  "create_bitmap_test =
     [create_request_bit_map 0 1 = Inr [0x01],
      create_request_bit_map 1 2 = Inr [0x06],
      create_request_bit_map 1 1 = Inr [0x02],
      create_request_bit_map 1 8 = Inr [0xFE, 0x01],
      create_request_bit_map 1 9 = Inr [0xFE, 0x03],
      create_request_bit_map 1 17 = Inr [0xFE, 0xFF, 0x03],
      create_request_bit_map 10 2 = Inr [0x0C],
      create_request_bit_map 10 17 = Inr [0xFC, 0xFF, 0x07]]"

definition legal_range :: "buffer_t \<Rightarrow> int \<Rightarrow> int \<Rightarrow> bool result" where
  "legal_range bitmask a n = res_bind (create_request_bit_map a n) (\<lambda>bm. legal_address bitmask bm a)"

definition test_bitmap_test :: "bool list" where
  "test_bitmap_test =
     [legal_range [0xF9, 0xFF, 0xFF, 0xFF] 1 2 = Inr False,
      legal_range [0x06, 0x00, 0x00, 0x00] 1 2 = Inr True,
      legal_range [0x02, 0x00, 0x00, 0x00] 1 1 = Inr True,
      legal_range [0x01, 0xFE, 0xFF, 0xFF] 1 8 = Inr False,
      legal_range [0xFE, 0x01, 0x00, 0x00] 1 8 = Inr True,
      legal_range [0x01, 0xFC, 0xFF, 0xFF] 1 9 = Inr False,
      legal_range [0xFE, 0x03, 0x06, 0x00] 1 9 = Inr True,
      legal_range [0x01, 0x00, 0xFC, 0xFF] 1 17 = Inr False,
      legal_range [0xFE, 0xFF, 0x03, 0x00] 1 17 = Inr True,
      legal_range [0xFF, 0xF3, 0xFF, 0xFF] 10 2 = Inr False,
      legal_range [0x00, 0x0C, 0x00, 0x00] 10 2 = Inr True,
      legal_range [0xFF, 0xF9, 0x00, 0x06] 10 17 = Inr False,
      legal_range [0x00, 0xFC, 0xFF, 0x07] 10 17 = Inr True]"

subsection \<open>bit_operations_test.cpp\<close>

definition copied_bits :: "int \<Rightarrow> int \<Rightarrow> buffer_t result" where
  "copied_bits a n = res_bind (create_request_bit_map a n) (\<lambda>bm. copy_data_bits [0xA9, 0x9A, 0x06, 0x00] bm a n)"

definition copy_bits_test :: "bool list" where
  "copy_bits_test =
     [copied_bits 2 2 = Inr [0x02],
      copied_bits 0 1 = Inr [0x01],
      copied_bits 1 8 = Inr [0x54],
      copied_bits 1 9 = Inr [0x54, 0x01],
      copied_bits 1 17 = Inr [0x54, 0x4D, 0x01],
      copied_bits 10 2 = Inr [0x02],
      copied_bits 10 17 = Inr [0xA6, 0x01, 0x00]]"

text \<open>The coils after each of the writes, one after the other on the same vector.\<close>

fun coils_after :: "(bool \<times> int) list \<Rightarrow> buffer_t \<Rightarrow> buffer_t result list" where
  "coils_after [] coils = []"
| "coils_after ((v, a) # ws) coils = (case write_coil coils v a of
     Inl e \<Rightarrow> [Inl e] | Inr coils \<Rightarrow> Inr coils # coils_after ws coils)"

definition write_single_coil_test :: "bool list" where
  "write_single_coil_test =
     [coils_after [(True, 0), (True, 2), (True, 8), (True, 10), (True, 17), (True, 19), (False, 19), (False, 17),
        (False, 10), (False, 8), (False, 2), (False, 0)] [0x00, 0x00, 0x00] =
      map Inr [[0x01, 0x00, 0x00], [0x05, 0x00, 0x00], [0x05, 0x01, 0x00], [0x05, 0x05, 0x00], [0x05, 0x05, 0x02],
        [0x05, 0x05, 0x0A], [0x05, 0x05, 0x02], [0x05, 0x05, 0x00], [0x05, 0x01, 0x00], [0x05, 0x00, 0x00],
        [0x01, 0x00, 0x00], [0x00, 0x00, 0x00]]]"

definition written_coils :: "int \<Rightarrow> int \<Rightarrow> buffer_t \<Rightarrow> buffer_t result" where
  "written_coils a n coils =
     res_bind (create_request_bit_map a n) (\<lambda>bm. write_coils [0x9A, 0xA9, 0x01] bm coils a)"

definition write_multi_coil_test :: "bool list" where
  "write_multi_coil_test =
     [written_coils 2 2 [0x01] = Inr [0x96, 0xA9, 0x01],
      written_coils 2 4 [0x09] = Inr [0xA6, 0xA9, 0x01],
      written_coils 2 9 [0xA9, 0x01] = Inr [0xA6, 0xAE, 0x01],
      written_coils 10 9 [0xA9, 0x01] = Inr [0x9A, 0xA5, 0x06]]"

subsection \<open>register_operations_test.cpp\<close>

definition copy_registers_test :: "bool list" where
  "copy_registers_test =
     (let memorySpace = [0x0F, 0xF0, 0x0F, 0xF0, 0x00, 0x00, 0x0F, 0xF0]
      in [copy_data_registers memorySpace 0 2 = Inr [0x0F, 0xF0, 0x0F, 0xF0],
          copy_data_registers memorySpace 3 1 = Inr [0x0F, 0xF0]])"

definition write_single_register_test :: "bool list" where
  "write_single_register_test =
     (let first = write_register 0xAAAA [0x0F, 0xF0, 0x0F, 0xF0, 0x00, 0x00, 0x0F, 0xF0] 0
      in [first = Inr [0xAA, 0xAA, 0x0F, 0xF0, 0x00, 0x00, 0x0F, 0xF0],
          res_bind first (\<lambda>memorySpace. write_register 0x9999 memorySpace 3) =
            Inr [0xAA, 0xAA, 0x0F, 0xF0, 0x00, 0x00, 0x99, 0x99]])"

definition write_multiple_register_test :: "bool list" where
  "write_multiple_register_test =
     (let first = write_registers [0xFF00, 0x00FF] [0x00, 0x00, 0x00, 0x00, 0x00, 0x00, 0x00, 0x00] 0 2
      in [first = Inr [0xFF, 0x00, 0x00, 0xFF, 0x00, 0x00, 0x00, 0x00],
          res_bind first (\<lambda>memorySpace. write_registers [0xFF00, 0x00FF] memorySpace 2 2) =
            Inr [0xFF, 0x00, 0x00, 0xFF, 0xFF, 0x00, 0x00, 0xFF]])"

subsection \<open>response_data_test.cpp\<close>

definition default_constructor_test :: "bool list" where
  "default_constructor_test =
     [\<not> isValid modbus_response_default, buffer_length modbus_response_default = 0,
      data_model modbus_response_default = invalid_data_type]"

definition known_values_test :: "bool list" where
  "known_values_test =
     (let byteArray = [0xCD, 0x6B, 0xB2, 0x0E, 0x1B];
          resp = new_modbus_response coil (Some byteArray) 2 (of_nat (length byteArray))
      in [isValid resp, buffer_length resp = 5, map_option length (response_data resp) = Some 5, data_model resp = coil,
          getBool 0 resp = Inr True, getBool 4 resp = Inr False, getBool 11 resp = Inr True, getBool 16 resp = Inr False,
          getUINT8 1 resp = Inr 0x6B, getINT8 2 resp = Inr (- 78),
          getUINT16 0 normal resp = Inr 0xCD6B, getUINT16 1 byte_swapped resp = Inr 0x0EB2,
          getINT16 0 byte_swapped resp = Inr 27597, getINT16 1 normal resp = Inr (- 19954),
          getUINT32 0 normal resp = Inr 3446387214, getUINT32 0 byte_swapped resp = Inr 246574029,
          getINT32 0 normal resp = Inr (- 848580082), getINT32 0 byte_swapped resp = Inr 246574029,
          response_start_address resp = 2])"

subsection \<open>The tests pass\<close>

definition helper_tests :: "bool list list" where
  "helper_tests =
     [create_bitmap_test, test_bitmap_test, copy_bits_test, write_single_coil_test, write_multi_coil_test,
      copy_registers_test, write_single_register_test, write_multiple_register_test, default_constructor_test,
      known_values_test]"

lemma helper_tests_pass: "list_all (list_all id) helper_tests"
  by code_simp

text \<open>The unit tests of the library pass: every expectation on the messages and their bytes, on data units built
  in each of the three ways, on the address checks and the operations on coils and registers, and on the typed view of
  a response holds of the definitions.\<close>

lemma unit_tests_pass:
  "list_all (list_all id) (request_tests @ response_tests @ data_unit_tests @ helper_tests)"
  by (simp add: request_tests_pass response_tests_pass data_unit_tests_pass helper_tests_pass)

end
