(* ===== verification/Spec2Isabelle.thy ===== *)
theory Spec2Isabelle
  imports Message_Traits Shared_Buffers Server_Reference Shared_Device Suspending_Handlers Server_Log Client_Log
    E2e_Tests Helper_Tests
begin

text \<open>
  Verification of the modbus library: MODBUS/TCP messages, the data unit that carries them, a client
  and a server. File names are relative to src/modbus/, those under test/ to src/.

  \<^bold>\<open>The program.\<close> A message (core/messages: ten request and eleven response structs) serialises itself
  through an iterator and has a constructor that parses it back. \<open>tcp_data_unit\<close>
  (core/tcp_data_unit) puts a message behind a six byte header and hands it out again with
  \<open>pdu<T>()\<close>. The client (client/tcp_client) reserves a transaction id, sends the bytes of a data unit
  over a pooled connection and reads responses until one is not older than the request;
  \<open>modbus_response_t\<close> (core/modbus_response) is a typed view on response bytes. The server
  (server/tcp_server) accepts connections, its session manager (server/tcp_session_manager) limits and
  stops sessions, and each session (server/tcp_session) reads a request, calls the user's handler and
  writes its answer. Handlers use the free functions of server/server_helper.hpp on their memory, as those
  of test/tcp_server_test.cpp do, the example server of the repository.

  \<^bold>\<open>Theories, in dependency order.\<close>
  \<^item> \<open>Modbus_Prelude\<close>: words, vectors (checked \<open>at\<close>, unchecked \<open>operator[]\<close>), counted loops, big endian
    words, buffers as bit arrays; the error type \<open>cpp_error\<close> with \<open>undefined_behaviour\<close> for what C++
    leaves undefined.
  \<^item> \<open>Modbus_Types\<close>: core/types.hpp, core/error.hpp, core/error.cpp.
  \<^item> \<open>Message_Traits\<close>: core/messages/is_message.hpp and the requirements of the templates of
    core/tcp_data_unit.hpp, decided on the declarations of the message classes.
  \<^item> \<open>Message_Interface\<close>: iterators and the interface of core/messages/is_message.hpp as the locales
    \<open>message\<close>, \<open>pdu_message\<close>, \<open>comparable_pdu\<close>, \<open>fixed_pdu\<close> and \<open>counted_pdu\<close>.
  \<^item> \<open>Tcp_Data_Unit\<close>: core/tcp_data_unit.hpp, core/tcp_data_unit.cpp; the data unit's lemmas are proved
    once for any message in the locales.
  \<^item> \<open>Shared_Buffers\<close>: the objects behind a data unit, which share their buffer when they are copied: a heap
    of buffers with use counts, the defaulted copy and move operations, and the refinement to values.
  \<^item> \<open>Modbus_Requests\<close>, \<open>Modbus_Responses\<close>: the message structs, each a record with its constructors,
    parser, \<open>size\<close>, \<open>serialize\<close>, \<open>operator==\<close> and \<open>operator!=\<close>, and the interpretations that make it an
    instance of the interface.
  \<^item> \<open>Modbus_Response\<close>: core/modbus_response.hpp, core/modbus_response.cpp.
  \<^item> \<open>Server_Helper\<close>: server/server_helper.hpp, with the locale \<open>memory_bank\<close> for what a handler expects
    of a write to its memory, interpreted for coils and for registers.
  \<^item> \<open>Server_Reference\<close>: the helpers that work on many coils or registers against loops of those that work on
    one, and the server's packing of coils against the client's.
  \<^item> \<open>Tcp_Client\<close>: client/client_config.hpp, client/tcp_client.hpp, client/tcp_client.cpp over a record of
    the operations of the connection library.
  \<^item> \<open>Client_Log\<close>: the log lines of the client, as what a request puts out besides its result.
  \<^item> \<open>Tcp_Session_Manager\<close>: server/server_types.hpp, server/server_config.hpp, the session object and
    server/tcp_session_manager, with the locale \<open>session_registry\<close>.
  \<^item> \<open>Tcp_Server\<close>: server/tcp_session.cpp and server/tcp_server as a state machine over events, with its
    reachable states and their invariant.
  \<^item> \<open>Server_Shutdown\<close>: the steps a stopped session still has, with the measure that bounds them.
  \<^item> \<open>Server_Service\<close>: the server as a service, an abstract machine on what can be seen of a run (messages, calls
    of the handler, bytes sent), and its simulation of the server (locale \<open>trace_simulation\<close> of the prelude).
  \<^item> \<open>Suspending_Handlers\<close>: the server with a handler that is a coroutine and may suspend, so that calls of different
    sessions overlap, and the locale \<open>waiting_handler\<close> for handlers that only wait, as \<open>slow_handler\<close> does.
  \<^item> \<open>Server_Log\<close>: the log lines of server, manager and session, as what their steps put out.
  \<^item> \<open>Example_Server\<close>: the request handlers of test/tcp_server_test.cpp.
  \<^item> \<open>Exchange\<close>: a request and its answer, seen from the session and seen from the client.
  \<^item> \<open>Loopback\<close>: the operations of the connection library on a link whose other end is a session of the server;
    it satisfies the contracts the client's theorems assume. It is one network, for runs of client and server
    against each other: the answers arrive whole, after a delay.
  \<^item> \<open>Example_Requests\<close>: the eight functions of the example server on the wire, as instances of the locale
    \<open>server_function\<close>.
  \<^item> \<open>Device\<close>: the abstract device (coils, inputs, registers and commands on them), the commands on the wire and
    their refinement by the example server (locale \<open>client_function\<close>).
  \<^item> \<open>Device_Access\<close>: a client program that gives commands through the client, over the link.
  \<^item> \<open>Shared_Device\<close>: many clients of one server.
  \<^item> \<open>Wire_Device\<close>: a MODBUS device that is not part of the repository, as the locale \<open>modbus_device\<close> on the bytes of its
    answers, and such a device behind any connection, as the locale \<open>networked_device\<close>, with the commands of a client
    program on it; the example server is an instance.
  \<^item> \<open>Server_Tests\<close>, \<open>Message_Tests\<close>, \<open>Helper_Tests\<close>: the test programs under test/ as lists of expectations.
  \<^item> \<open>Test_Scripts\<close>, \<open>E2e_Tests\<close>: tests of a client against any such device, refined to scripts on the abstract device
    that can be interleaved, and the tests of test/e2e_tcp_client_test.cpp.
  \<^item> this theory: properties from the client's call to the server's memory and back.

  \<^bold>\<open>What is shown.\<close> Every message class survives the trip through a data unit and a larger receive
  buffer, is never taken for another class, and its parser reads outside the buffer exactly when a count
  byte says so. The memory helpers do what their comments say on the requests whose bitmap is exact
  (\<open>n mod 8 + a mod 8 < 8\<close> for \<open>n\<close> values from address \<open>a\<close>), and \<open>write_coils\<close> on those of them that are short or start on a byte
  boundary and come with a source vector that is long enough; for the others the theorems give the exact condition and
  effect of the failure (an access outside the mask table, padding that is not clear, coils lost, an access past the source
  vector). The client returns the answer after any number of older responses, returns whenever it was given a
  timeout (without one, it waits for a silent peer forever), and always gives its connection
  back; what it takes for an answer is stated exactly. Late answers to earlier requests are not taken for the answer, as
  long as the transaction ids have not wrapped and each of them arrives whole before or after the buffer is cleared. In every reachable state of the server the registered
  and pending sessions are the live ones and at most five are registered; a session serves well-formed
  requests, leaves the registry when the client disconnects, and has at most three steps left once it is
  stopped; a request split by TCP is not served, and ends the session if ten bytes or more of it were read. Data units that share a buffer behave as values, \<open>set_transaction_id\<close>
  apart, and no buffer is freed early or kept too long; requests of nine of the ten classes are equal exactly
  when their bytes are.

  The whole system is shown to be the device it is meant to be. A client program that gives commands through the
  client, over a link to a session of the example server, gets the replies of the device, refusals included, and
  leaves the device in the server's memories (\<open>commands_refine_device\<close>); with any number of clients, in any
  interleaving, the calls of the handler are a sequential run of the device (\<open>clients_share_device\<close>). This rests on
  the server as a service: every run is a run of the abstract service (\<open>server_refines_service\<close>). There a call of the
  handler is one step, which is right for handlers that do not suspend, as the example server's, and for those that
  only wait before they work (\<open>waiting_handler_atomic\<close>). The calls of other handlers overlap: they are an
  interleaving of coroutines on one state, and each session still answers its messages in order (\<open>sessions_served_in_order\<close>). The
  commands are those within the limits of the helpers and of the client's receive buffer (\<open>command_ok\<close>).
  The expectations of the repository's own tests hold of the definitions. Over any connection that delivers requests and
  answers in time, to any device that answers as the protocol says, the commands of a
  client program are those of the device, if their answers fit the 250 bytes the client takes
  (\<open>commands_on_any_device\<close>), and the end to end tests pass, one
  after the other or at the same time (\<open>e2e_tests_pass\<close>); the example server is such a device for the commands within
  the limits of its helpers, but not for the registers one of these tests writes (\<open>e2e_holding_test_undefined\<close>). The
  log lines of server and client account for the requests and responses.

  \<^bold>\<open>Conventions.\<close> A definition keeps the name of the C++ function where that is free; methods of the
  message struct \<open>C\<close> are \<open>C_method\<close>, its constructors \<open>new_C\<close> and \<open>C_of_iterator\<close>. A throwing function
  returns \<open>result\<close>; a function that can only fail by undefined behaviour returns an option, or
  \<open>Inl undefined_behaviour\<close>. A C++ \<open>int\<close> is \<^typ>\<open>int\<close> with overflow as undefined behaviour where the
  values are not bounded by construction. The client's loop is a \<open>partial_function\<close>, whose value is
  \<^const>\<open>None\<close> when it does not end; no other function needs fuel.

  \<^bold>\<open>Not modelled.\<close> The socket, executor and connection pool libraries, which are parameters
  (\<open>cpool_ops\<close>, the handler, the results carried by events) with their contracts as hypotheses; the texts the
  platform puts into log lines; the device of test/e2e_tcp_client_test.cpp, which is a parameter; several requests of
  one client in flight at the same time: \<open>multi_test\<close> takes them one at a time, where the source reserves the
  transaction ids before the one connection of the pool is awaited; core/requests.hpp,
  core/responses.hpp, client.hpp and server.hpp, which only include other headers; exhaustion of memory. Every
  function of the library that has a body is modelled; the lines the definitions do not cover are declarations in
  headers, includes and comments.
\<close>

section \<open>Properties that span components\<close>



text \<open>Registers read from the server's memory reach the client's typed view. Up to 123 registers
  copied by the server's helper, put in a response and sent, are read from the stream by
  \<open>read_response\<close>, taken out by \<open>pdu\<close>, and \<open>getUINT16 i\<close> of a view on them is register \<open>a + i\<close> of the
  memory.\<close>

lemma registers_memory_to_client:
  assumes "0 < n" "n \<le> 123" "a \<le> 65535" "2 * (a + n) \<le> length mem"
    and "stream_contract ops incoming" "error_contract ops"
    and "copy_data_registers mem (int a) (int n) = Inr bytes"
    and "m = new_read_holding_registers_response u bytes"
    and "tcp_data_unit_of_pdu read_holding_registers_response_size
        read_holding_registers_response_serialize read_holding_registers_response_type tid m = Some du"
    and "incoming c = du_buffer du @ rest"
  shows "\<exists>du' c'. read_response ops c = (Inr (du', no_error), c') \<and> incoming c' = rest
    \<and> pdu read_holding_registers_response_function_code read_holding_registers_response_type
        read_holding_registers_response_of_iterator du' = Inr (Some m)
    \<and> (\<forall>i < n. getUINT16 (of_nat i) normal (new_modbus_response holding_register
          (Some (read_holding_registers_response.vals m)) (of_nat a) (of_nat n)) = Inr (get_reg mem (a + i)))"
proof -
  have view: "bytes = enc_words (map (get_reg mem) [a..<a + n])"
    "\<forall>i < n. getUINT16 (of_nat i) normal (new_modbus_response holding_register
      (Some bytes) (of_nat a) (of_nat n)) = Inr (get_reg mem (a + i))"
    using registers_view [OF assms(1-4,7)] by blast+
  have vals: "read_holding_registers_response.vals m = bytes"
    using assms(8) by (simp add: new_read_holding_registers_response_def read_holding_registers_response.defs)
  have "length bytes \<le> 246" using view(1) assms(2) by simp
  then obtain c' where "read_response ops c = (Inr (padded_unit tid (read_holding_registers_response_encode m), no_error), c')"
      "incoming c' = rest" "pdu read_holding_registers_response_function_code response
        read_holding_registers_response_of_iterator (padded_unit tid (read_holding_registers_response_encode m)) =
          Inr (Some m)"
    using rhr.read_response_pdu [OF assms(5,6), of m tid du c rest] assms(9,10) vals
    by (auto simp: read_holding_registers_response_size_def read_holding_registers_response_type_def)
  with vals view(2) show ?thesis by (auto simp: read_holding_registers_response_type_def)
qed

text \<open>Coils read from the server's memory reach the client's typed view. Up to 1976 coils copied by the
  server's helper on the bitmap of the request, put in a response and sent, are read from the stream by
  \<open>read_response\<close>, taken out by \<open>pdu\<close>, and \<open>getBool k\<close> of a view on them is coil \<open>a + k\<close> of the memory.\<close>

lemma coils_memory_to_client:
  assumes "0 < n" "n \<le> 1976" "n mod 8 + a mod 8 < 8" "a + n < 8 * length mem"
    and "stream_contract ops incoming" "error_contract ops"
    and "create_request_bit_map (int a) (int n) = Inr bm" "copy_data_bits mem bm (int a) (int n) = Inr bytes"
    and "m = new_read_coils_response u bytes"
    and "tcp_data_unit_of_pdu read_coils_response_size read_coils_response_serialize
        read_coils_response_type tid m = Some du"
    and "incoming c = du_buffer du @ rest"
  shows "\<exists>du' c'. read_response ops c = (Inr (du', no_error), c') \<and> incoming c' = rest
    \<and> pdu read_coils_response_function_code read_coils_response_type
        read_coils_response_of_iterator du' = Inr (Some m)
    \<and> (\<forall>k < n. getBool (of_nat k) (new_modbus_response coil (Some (read_coils_response.vals m))
          (of_nat a) (of_nat n)) = Inr (get_bit mem (a + k)))"
proof -
  have bytes: "length bytes = (n - 1) div 8 + 1" "\<forall>k. get_bit bytes k \<longleftrightarrow> k < n \<and> get_bit mem (a + k)"
    using load_bits_spec [of n a mem] assms(1-4,7,8) by (auto simp: res_bind_def)
  have len: "length bytes \<le> 247" using bytes(1) assms(1,2) by simp
  have vals: "read_coils_response.vals m = bytes"
    using assms(9) by (simp add: new_read_coils_response_def read_coils_response.defs)
  obtain c' where c': "read_response ops c = (Inr (padded_unit tid (read_coils_response_encode m), no_error), c')"
      "incoming c' = rest" "pdu read_coils_response_function_code response
        read_coils_response_of_iterator (padded_unit tid (read_coils_response_encode m)) = Inr (Some m)"
    using rcr.read_response_pdu [OF assms(5,6), of m tid du c rest] assms(10,11) len vals
    by (auto simp: read_coils_response_size_def read_coils_response_type_def)
  let ?v = "new_modbus_response coil (Some bytes) (of_nat a) (of_nat n)"
  have "bytes \<noteq> []" "(of_nat n :: uint16) \<noteq> 0"
    using bytes(1) assms(1,2) of_nat_uint16_eq [of n 0] by auto
  then have valid: "isValid ?v" "mr_data ?v = Some bytes"
    by (simp_all add: isValid_def new_modbus_response_def)
  have "getBool (of_nat k) ?v = Inr (get_bit mem (a + k))" if k: "k < n" for k
  proof -
    have "unat (of_nat k :: uint32) = k" using k assms(2) by (simp add: unat_of_nat)
    moreover have "k < 8 * length bytes" using bytes(1) k by simp
    ultimately show ?thesis
      using getBool_reads [OF valid, of "of_nat k"] bytes(2) k by simp
  qed
  with c' vals show ?thesis by (auto simp: read_coils_response_type_def)
qed

text \<open>Client and server together. A client creates a read of up to 123 holding registers and sends it; a
  session of the server, reading, gets its bytes, the example handler answers from its memory and the
  session writes the answer. If these bytes are what then arrives at the client, \<open>send_request\<close> returns them
  without an error and gives its connection back, \<open>validate_response\<close> accepts them, and the typed view of the
  message in them shows the registers of the server's memory.\<close>

lemma registers_exchange:
  assumes "sv_heap s p = Some ts" "ts_phase ts = reading" "\<not> ts_stop ts" "length (ts_buf ts) = MAX_APU_SIZE"
    and "2 < length (memorySpace (sv_handler s))" "2 < length (validAddresses (sv_handler s))"
    and "mem = memorySpace (sv_handler s) ! 2"
    and "0 < unat n" "unat n \<le> 123" "2 * (unat a + unat n) \<le> length mem"
    and "create_request_bit_map (uint a) (uint n) = Inr bm"
    and "legal_address (validAddresses (sv_handler s) ! 2) bm (uint a) = Inr True"
    and "stream_contract ops incoming" "error_contract ops"
    and "create_request read_holding_registers_request_size read_holding_registers_request_serialize
        read_holding_registers_request_type (new_read_holding_registers_request u a n) cl = (Some req, cl')"
    and "get_connection ops (tc_con_pool cl') = (Some c, pool)"
    and "clear_buffer ops c = (client_error modbus_client_error_code.success, c0)"
    and "async_write ops (du_buffer req)
        (if timeout \<noteq> milliseconds_max then expires_after ops timeout c0 else expires_never ops c0) =
      ((no_error, length (du_buffer req)), c1)"
  shows "\<exists>resp s' ts'. server_run request_handler_call
        [Read_done p None (du_buffer req), Handler_done p, Write_done p None (length (du_buffer resp))] s = Some s'
    \<and> sv_heap s' p = Some ts' \<and> ts_phase ts' = reading \<and> ts_sent ts' = ts_sent ts @ du_buffer resp
    \<and> sv_handler s' = sv_handler s
    \<and> du_buffer resp = frame (tc_transaction_id cl) ([u, 3, of_nat (2 * unat n)]
        @ enc_words (map (get_reg mem) [unat a..<unat a + unat n]))
    \<and> (incoming c1 = du_buffer resp \<longrightarrow>
        (\<exists>du m c'. client_send_request ops req timeout cl' =
            Some (Inr (du, no_error), cl'\<lparr>tc_con_pool := release_connection ops (expires_never ops c') pool\<rparr>)
          \<and> validate_response req du = Inr (make_client_error_code modbus_client_error_code.success)
          \<and> pdu read_holding_registers_response_function_code read_holding_registers_response_type
              read_holding_registers_response_of_iterator du = Inr (Some m)
          \<and> (\<forall>i < unat n. getUINT16 (of_nat i) normal (new_modbus_response holding_register
              (Some (read_holding_registers_response.vals m)) a n) = Inr (get_reg mem (unat a + i)))))"
proof -
  let ?q = "new_read_holding_registers_request u a n" and ?tid = "tc_transaction_id cl"
  have ua: "uint a = int (unat a)" "uint n = int (unat n)" by simp_all
  obtain bytes where bytes: "copy_data_registers mem (uint a) (uint n) = Inr bytes"
    using copy_data_registers_nat [of "unat a" "unat n" mem] unat_uint16 [of a] unat_uint16 [of n] assms(10)
    by (auto simp: ua simp del: of_nat_unat)
  let ?m = "new_read_holding_registers_response u bytes"
  obtain resp where resp: "tcp_data_unit_of_pdu read_holding_registers_response_size
      read_holding_registers_response_serialize read_holding_registers_response_type ?tid ?m = Some resp"
    using rhr.tcp_data_unit_of_pdu_image by blast
  note req = created_request [OF assms(15)]
  have vals: "read_holding_registers_response.vals ?m = bytes"
    "read_holding_registers_response.unit_id ?m = read_holding_registers_request.unit_id ?q"
    by (simp_all add: new_read_holding_registers_response_def read_holding_registers_response.defs
        new_read_holding_registers_request_def read_holding_registers_request.defs)
  have "copy_data_registers mem (int (unat a)) (int (unat n)) = Inr bytes" using bytes by simp
  note rv = registers_view [OF assms(8,9) unat_uint16 assms(10) this]
  have view: "bytes = enc_words (map (get_reg mem) [unat a..<unat a + unat n])"
    "\<forall>i < unat n. getUINT16 (of_nat i) normal (new_modbus_response holding_register
      (Some (read_holding_registers_response.vals ?m)) a n) = Inr (get_reg mem (unat a + i))"
    unfolding vals(1) using rv [THEN conjunct1] rv [THEN conjunct2] by simp_all
  have len: "length bytes = 2 * unat n" using view(1) by simp
  have image: "du_buffer resp = frame ?tid ([u, 3, of_nat (2 * unat n)] @ bytes)"
    using resp len by (auto simp: holding_response_image du_buffer_def)
  have "length (read_holding_registers_response.vals ?m) \<le> 247" using vals(1) len assms(9) by simp
  note received = registers_received [OF assms(13,14) req vals(2) this resp assms(16-18)]
  have bs: "du_buffer req = frame ?tid (read_holding_registers_request_encode ?q)" by (simp add: req du_buffer_def)
  obtain s' ts' where "server_run request_handler_call [Read_done p None (du_buffer req), Handler_done p,
        Write_done p None (length (du_buffer resp))] s = Some s'"
      "sv_heap s' p = Some ts'" "ts_phase ts' = reading" "ts_sent ts' = ts_sent ts @ du_buffer resp"
      "sv_handler s' = sv_handler s"
    using registers_served [OF assms(1-6,8,11,12) bytes [unfolded assms(7)] resp] unfolding bs by blast
  with image view received show ?thesis by blast
qed

end
